theory Spec2Isabelle
  imports Complex_Main
begin

section \<open>PyCESim: classical simulation of Coulomb explosion\<close>

text \<open>
  A shallow embedding of \<^verbatim>\<open>PyCESim.py\<close>. Python and NumPy floating-point numbers
  are idealised as real numbers: rounding, overflow and the values \<^verbatim>\<open>inf\<close> and
  \<^verbatim>\<open>nan\<close> are not modelled, so a statement about a quotient describes the program
  only where the divisor is not zero. Exceptions are values of \<open>py_error\<close>; a function
  that can raise returns \<open>py_error + 'a\<close>. NumPy arrays of shape \<open>(3,)\<close> are triples of
  reals, arrays of shape \<open>(n, 3)\<close> are lists of triples, and one-dimensional arrays are
  lists.
\<close>

subsection \<open>Constants\<close>

text \<open>
  The module constants \<^verbatim>\<open>u\<close>, \<^verbatim>\<open>e\<close> and \<^verbatim>\<open>k\<close> are named \<open>const_u\<close>, \<open>const_e\<close> and
  \<open>const_k\<close>, so that one-letter variables stay free. \<^verbatim>\<open>hbar\<close> is assigned twice in the
  module; the second assignment is the one in force when a function runs.
\<close>

definition const_u :: real where "const_u = 1660538921 / 10 ^ 36"
definition const_e :: real where "const_e = 160217663 / 10 ^ 27"
definition const_k :: real where "const_k = 89875517923 / 10"
definition hbar :: real where "hbar = 1054571817 / 10 ^ 43"
definition kb :: real where "kb = 1380649 / 10 ^ 29"
definition c_cm_s :: real where "c_cm_s = 29970000000"
definition cm_to_hartree :: real where "cm_to_hartree = 1 / (2194746 / 10)"
definition u_to_amu :: real where "u_to_amu = 1 / (54857990943 / 10 ^ 14)"
definition bohr_to_angstrom :: real where "bohr_to_angstrom = 529177211 / 10 ^ 9"

subsection \<open>Exceptions\<close>

datatype py_error =
  NameError | UnboundLocalError | AttributeError | AssertionError
  | IndexError | ValueError

definition bindE :: "py_error + 'a \<Rightarrow> ('a \<Rightarrow> py_error + 'b) \<Rightarrow> py_error + 'b" where
  "bindE m f = (case m of Inl err \<Rightarrow> Inl err | Inr x \<Rightarrow> f x)"

text \<open>A \<^verbatim>\<open>for\<close> loop whose body can raise: the first exception ends the loop.\<close>

fun foldE :: "('a \<Rightarrow> 's \<Rightarrow> py_error + 's) \<Rightarrow> 'a list \<Rightarrow> 's \<Rightarrow> py_error + 's" where
  "foldE f [] s = Inr s"
| "foldE f (x # xs) s = bindE (f x s) (foldE f xs)"

text \<open>\<^verbatim>\<open>xs[i]\<close> for an index that is never negative.\<close>

definition item :: "'a list \<Rightarrow> nat \<Rightarrow> py_error + 'a" where
  "item xs i = (if i < length xs then Inr (xs ! i) else Inl IndexError)"

text \<open>Reading an attribute that may not have been assigned yet.\<close>

definition attr :: "'a option \<Rightarrow> py_error + 'a" where
  "attr a = (case a of None \<Rightarrow> Inl AttributeError | Some v \<Rightarrow> Inr v)"

subsection \<open>Vectors of three components\<close>

type_synonym vec3 = "real \<times> real \<times> real"

fun vadd :: "vec3 \<Rightarrow> vec3 \<Rightarrow> vec3" where
  "vadd (a, b, c) (x, y, z) = (a + x, b + y, c + z)"

fun vsub :: "vec3 \<Rightarrow> vec3 \<Rightarrow> vec3" where
  "vsub (a, b, c) (x, y, z) = (a - x, b - y, c - z)"

fun smult :: "real \<Rightarrow> vec3 \<Rightarrow> vec3" where
  "smult s (x, y, z) = (s * x, s * y, s * z)"

fun vdiv :: "vec3 \<Rightarrow> real \<Rightarrow> vec3" where
  "vdiv (x, y, z) s = (x / s, y / s, z / s)"

fun vdot :: "vec3 \<Rightarrow> vec3 \<Rightarrow> real" where
  "vdot (a, b, c) (x, y, z) = a * x + b * y + c * z"

text \<open>\<^verbatim>\<open>np.linalg.norm\<close> of a vector.\<close>

fun vnorm :: "vec3 \<Rightarrow> real" where
  "vnorm (x, y, z) = sqrt (x ^ 2 + y ^ 2 + z ^ 2)"

fun component :: "vec3 \<Rightarrow> nat \<Rightarrow> real" where
  "component (x, y, z) c = (if c = 0 then x else if c = 1 then y else z)"

subsection \<open>Matrices of three rows\<close>

type_synonym mat3 = "vec3 \<times> vec3 \<times> vec3"

definition eye3 :: mat3 where
  "eye3 = ((1, 0, 0), (0, 1, 0), (0, 0, 1))"

text \<open>\<^verbatim>\<open>np.outer(V, V)\<close>.\<close>

fun outer :: "vec3 \<Rightarrow> vec3 \<Rightarrow> mat3" where
  "outer (a, b, c) w = (smult a w, smult b w, smult c w)"

fun mat_sub :: "mat3 \<Rightarrow> mat3 \<Rightarrow> mat3" where
  "mat_sub (a, b, c) (x, y, z) = (vsub a x, vsub b y, vsub c z)"

fun transpose3 :: "mat3 \<Rightarrow> mat3" where
  "transpose3 ((a, b, c), (d, e, f), (g, h, i)) = ((a, d, g), (b, e, h), (c, f, i))"

text \<open>\<^verbatim>\<open>np.dot(M, r)\<close> for a matrix and a vector.\<close>

fun mat_vec :: "mat3 \<Rightarrow> vec3 \<Rightarrow> vec3" where
  "mat_vec (a, b, c) v = (vdot a v, vdot b v, vdot c v)"

text \<open>\<^verbatim>\<open>A.dot(B)\<close> for two matrices.\<close>

fun mat_mul :: "mat3 \<Rightarrow> mat3 \<Rightarrow> mat3" where
  "mat_mul (a, b, c) B =
     (let Bt = transpose3 B in (mat_vec Bt a, mat_vec Bt b, mat_vec Bt c))"

fun det3 :: "mat3 \<Rightarrow> real" where
  "det3 ((a, b, c), (d, e, f), (g, h, i)) =
     a * (e * i - f * h) - b * (d * i - f * g) + c * (d * h - e * g)"

definition orthogonal3 :: "mat3 \<Rightarrow> bool" where
  "orthogonal3 M \<longleftrightarrow>
     mat_mul M (transpose3 M) = eye3 \<and> mat_mul (transpose3 M) M = eye3"

subsection \<open>The random number generator\<close>

text \<open>
  NumPy's global generator is not part of the repository. It is modelled as the two
  sequences of raw variates it is going to deliver: \<open>unif\<close>, the standard uniform
  variates (each in \<open>[0, 1)\<close>), and \<open>gauss\<close>, the standard normal variates. A draw takes
  the head of a sequence and leaves the tail. The functions below follow the
  documented behaviour of \<^verbatim>\<open>numpy.random\<close>.
\<close>

record rng =
  unif :: "nat \<Rightarrow> real"
  gauss :: "nat \<Rightarrow> real"

definition uniform_rng :: "rng \<Rightarrow> bool" where
  "uniform_rng g \<longleftrightarrow> (\<forall>i. 0 \<le> unif g i \<and> unif g i < 1)"

definition next_unif :: "rng \<Rightarrow> real \<times> rng" where
  "next_unif g = (unif g 0, g\<lparr>unif := (\<lambda>i. unif g (Suc i))\<rparr>)"

definition next_gauss :: "rng \<Rightarrow> real \<times> rng" where
  "next_gauss g = (gauss g 0, g\<lparr>gauss := (\<lambda>i. gauss g (Suc i))\<rparr>)"

text \<open>\<^verbatim>\<open>np.random.uniform(low, high)\<close>.\<close>

definition np_random_uniform :: "real \<Rightarrow> real \<Rightarrow> rng \<Rightarrow> real \<times> rng" where
  "np_random_uniform low high g =
     (let (x, g1) = next_unif g in (low + (high - low) * x, g1))"

text \<open>\<^verbatim>\<open>np.random.uniform(size=(3,))\<close>.\<close>

definition np_random_uniform3 :: "rng \<Rightarrow> vec3 \<times> rng" where
  "np_random_uniform3 g =
     (let (a, g1) = np_random_uniform 0 1 g;
          (b, g2) = np_random_uniform 0 1 g1;
          (c, g3) = np_random_uniform 0 1 g2
      in ((a, b, c), g3))"

text \<open>\<^verbatim>\<open>np.random.normal(loc, scale)\<close>, which refuses a negative scale.\<close>

definition np_random_normal :: "real \<Rightarrow> real \<Rightarrow> rng \<Rightarrow> py_error + real \<times> rng" where
  "np_random_normal loc scale g =
     (if scale < 0 then Inl ValueError
      else let (z, g1) = next_gauss g in Inr (loc + scale * z, g1))"

text \<open>
  \<^verbatim>\<open>np.random.choice(a, p=p)\<close>: the population must not be empty, the weights must
  match it in length, must not be negative and must sum to one within the square root
  of the machine epsilon of a double; the index is the number of entries of the
  normalised cumulative sum that do not exceed a uniform variate.
\<close>

definition choice_atol :: real where
  "choice_atol = 1 / 2 ^ 26"

fun cumsum :: "real \<Rightarrow> real list \<Rightarrow> real list" where
  "cumsum acc [] = []"
| "cumsum acc (x # xs) = (acc + x) # cumsum (acc + x) xs"

definition np_random_choice :: "'a list \<Rightarrow> real list \<Rightarrow> rng \<Rightarrow> py_error + 'a \<times> rng" where
  "np_random_choice a p g =
     (if a = [] then Inl ValueError
      else if length p \<noteq> length a then Inl ValueError
      else if list_ex (\<lambda>x. x < 0) p then Inl ValueError
      else if \<bar>sum_list p - 1\<bar> > choice_atol then Inl ValueError
      else
        let cdf = cumsum 0 p;
            cdf = map (\<lambda>c. c / last cdf) cdf;
            (x, g1) = next_unif g;
            idx = length (filter (\<lambda>c. c \<le> x) cdf)
        in bindE (item a idx) (\<lambda>v. Inr (v, g1)))"

text \<open>The tests of \<^verbatim>\<open>np.random.choice\<close> on its arguments.\<close>

definition choice_accepts :: "'a list \<Rightarrow> real list \<Rightarrow> bool" where
  "choice_accepts a p \<longleftrightarrow>
     a \<noteq> [] \<and> length p = length a \<and> \<not> list_ex (\<lambda>x. x < 0) p \<and>
     \<not> \<bar>sum_list p - 1\<bar> > choice_atol"

subsection \<open>Utility functions\<close>

definition RandRotationMatrix :: "real \<Rightarrow> vec3 option \<Rightarrow> rng \<Rightarrow> mat3 \<times> rng" where
  "RandRotationMatrix deflection randnums g =
     (let (rn, g1) = (case randnums of None \<Rightarrow> np_random_uniform3 g | Some rn \<Rightarrow> (rn, g));
          (theta, phi, z) = rn;
          theta = theta * 2 * deflection * pi;
          phi = phi * 2 * pi;
          z = z * 2 * deflection;
          r = sqrt z;
          V = (sin phi * r, cos phi * r, sqrt (2 - z));
          st = sin theta;
          ct = cos theta;
          R = ((ct, st, 0), (- st, ct, 0), (0, 0, 1));
          M = mat_mul (mat_sub (outer V V) eye3) R
      in (M, g1))"

definition random_rotation :: "vec3 list \<Rightarrow> rng \<Rightarrow> vec3 list \<times> rng" where
  "random_rotation r_list g =
     (let (rm, g1) = RandRotationMatrix 1 None g
      in (map (\<lambda>r. mat_vec rm r) r_list, g1))"

definition CoulombForce :: "vec3 \<Rightarrow> vec3 \<Rightarrow> real \<Rightarrow> real \<Rightarrow> vec3" where
  "CoulombForce r1 r2 q1 q2 =
     (let r12 = vsub r1 r2;
          r12_mag = vnorm r12
      in smult (1 / r12_mag ^ 3) (smult (const_k * q1 * q2) r12))"

subsection \<open>The Wigner function\<close>

text \<open>
  \<^verbatim>\<open>scipy.special.laguerre(n)\<close> is the Laguerre polynomial of degree \<open>n\<close>; the library
  is not part of the repository, and the polynomial is given here by its three-term
  recurrence.
\<close>

fun laguerre :: "nat \<Rightarrow> real \<Rightarrow> real" where
  "laguerre 0 x = 1"
| "laguerre (Suc 0) x = 1 - x"
| "laguerre (Suc (Suc n)) x =
     ((2 * real n + 3 - x) * laguerre (Suc n) x - (real n + 1) * laguerre n x) / (real n + 2)"

definition calc_W :: "real \<Rightarrow> real \<Rightarrow> int \<Rightarrow> real" where
  "calc_W P Q n =
     (if n > 0 then
        let rhosquare = 2 * (P ^ 2 + Q ^ 2);
            Ln = laguerre (nat n)
        in (- 1) ^ nat n * Ln rhosquare * exp (- rhosquare / 2)
      else exp (- (Q ^ 2)) * exp (- (P ^ 2)))"

definition calc_canonical_partition :: "real \<Rightarrow> real \<Rightarrow> real" where
  "calc_canonical_partition omega T =
     exp (- (hbar * omega) / (2 * kb * T)) / (1 - exp (- (hbar * omega) / (kb * T)))"

definition calc_vib_energy :: "int \<Rightarrow> real \<Rightarrow> real" where
  "calc_vib_energy n omega = hbar * omega * (real_of_int n + 1 / 2)"

definition calc_Pn :: "real \<Rightarrow> real \<Rightarrow> int \<Rightarrow> real" where
  "calc_Pn omega_cm T n =
     (let omega_Hz = omega_cm * c_cm_s * 2 * pi;
          Z = calc_canonical_partition omega_Hz T;
          En = calc_vib_energy n omega_Hz
      in if T > 0 then exp (- En / (kb * T)) / Z
         else if n = 0 then 1 else 0)"

subsection \<open>The data model\<close>

text \<open>
  An attribute that is assigned only on some paths is an \<open>option\<close>: \<open>None\<close> until the
  assignment has run. The attributes \<^verbatim>\<open>atom_nos\<close>, \<^verbatim>\<open>atom_labels\<close>, \<^verbatim>\<open>geom_label\<close> and
  \<^verbatim>\<open>elements\<close> of a geometry are stored and never read; they are left out.
\<close>

record geometry =
  atom_coords :: "vec3 list"
  atom_masses :: "real list"
  natoms :: nat
  nmodes :: "vec3 list list option"
  omegas :: "real list option"
  com :: "vec3 option"
  atom_coords_com :: "vec3 list option"
  nmodes_weighted :: "vec3 list list option"

text \<open>
  The attributes \<^verbatim>\<open>charges\<close>, \<^verbatim>\<open>p\<close> and \<^verbatim>\<open>label\<close> of a channel carry the prefix \<open>ch_\<close>,
  so that \<open>p\<close> and \<open>charges\<close> stay free for variables.
\<close>

record ce_channel =
  ch_charges :: "real list"
  ch_p :: real
  ch_label :: string

text \<open>
  \<^verbatim>\<open>sigma\<close> is a number or a one-dimensional array; the model covers no other shape.
\<close>

datatype sigma_val = Number real | Array "real list"

text \<open>
  The attributes of the sampler that store an argument of \<^verbatim>\<open>generate_pool\<close> under the
  argument's own name carry the prefix \<open>self_\<close>.
\<close>

record starting_conditions =
  eq_geometry :: geometry
  multi_channel :: bool
  channel_list :: "ce_channel list option"
  channel_p_list :: "real list option"
  self_method :: "string option"
  self_T :: "real option"
  self_n_geoms :: "int option"
  self_random_rotate :: "bool option"
  self_wigner_sample_max :: "real option"
  self_nmax :: "int option"
  self_sigma :: "sigma_val option"
  n_list :: "int list option"
  Pn_arr :: "real list list option"
  samp_n_list :: "int list option"
  samp_q_list :: "real list option"
  samp_y0_list :: "real list list option"
  samp_charges_list :: "real list list option"
  samp_masses_list :: "real list list option"
  samp_channel_list :: "nat list option"

record CE_sim =
  starting_conditions :: starting_conditions
  timebins :: "real list option"
  tmin :: "real option"
  tmax :: "real option"
  n_t_steps :: "nat option"
  sim_counter :: "nat option"

subsection \<open>The equations of motion\<close>

text \<open>
  The inner loop of \<^verbatim>\<open>NewtonEquations\<close>: the force on atom \<open>n\<close> from atom \<open>k\<close> is added
  to the running total. The indices read in \<open>y\<close> are below \<open>6 * (length y div 6)\<close>, so
  they are in range.
\<close>

definition NewtonEquations_force ::
    "real list \<Rightarrow> real list \<Rightarrow> nat \<Rightarrow> nat \<Rightarrow> vec3 \<Rightarrow> py_error + vec3" where
  "NewtonEquations_force y charges n k force =
     (if k \<noteq> n then
        let r1 = (y ! (3 * n), y ! (3 * n + 1), y ! (3 * n + 2));
            r2 = (y ! (3 * k), y ! (3 * k + 1), y ! (3 * k + 2))
        in bindE (item charges n) (\<lambda>q1.
           bindE (item charges k) (\<lambda>q2.
             Inr (vadd force (CoulombForce r1 r2 q1 q2))))
      else Inr force)"

text \<open>The body of the outer loop, for atom \<open>n\<close>.\<close>

definition NewtonEquations_atom ::
    "real list \<Rightarrow> real list \<Rightarrow> real list \<Rightarrow> nat \<Rightarrow> nat \<Rightarrow> real list \<Rightarrow> py_error + real list" where
  "NewtonEquations_atom y charges masses n_atoms n dydt =
     (let dydt = dydt[3 * n := y ! (3 * n_atoms + 3 * n)];
          dydt = dydt[3 * n + 1 := y ! (3 * n_atoms + 3 * n + 1)];
          dydt = dydt[3 * n + 2 := y ! (3 * n_atoms + 3 * n + 2)];
          force = (0, 0, 0)
      in bindE (foldE (NewtonEquations_force y charges n) [0..<n_atoms] force) (\<lambda>force.
         bindE (item masses n) (\<lambda>m.
           let (ax, ay, az) = vdiv force m
           in Inr (dydt[3 * n_atoms + 3 * n := ax,
                        3 * n_atoms + 3 * n + 1 := ay,
                        3 * n_atoms + 3 * n + 2 := az]))))"

definition NewtonEquations :: "CE_sim \<Rightarrow> real \<Rightarrow> real list \<Rightarrow> py_error + real list" where
  "NewtonEquations self t y =
     bindE (attr (samp_charges_list (starting_conditions self))) (\<lambda>charges_list.
     bindE (attr (sim_counter self)) (\<lambda>counter.
     bindE (item charges_list counter) (\<lambda>charges.
     bindE (attr (samp_masses_list (starting_conditions self))) (\<lambda>masses_list.
     bindE (item masses_list counter) (\<lambda>masses.
       let dydt = replicate (length y) 0;
           n_atoms = length y div 6
       in foldE (NewtonEquations_atom y charges masses n_atoms) [0..<n_atoms] dydt)))))"


subsection \<open>The equations of motion as the specification words them\<close>

text \<open>The position of atom \<open>i\<close> in a state vector.\<close>

definition position :: "real list \<Rightarrow> nat \<Rightarrow> vec3" where
  "position y i = (y ! (3 * i), y ! (3 * i + 1), y ! (3 * i + 2))"

text \<open>
  Component \<open>c\<close> of the acceleration of atom \<open>i\<close> among \<open>n\<close> atoms: the sum over the other
  atoms \<open>j\<close> of \<open>k q\<^sub>i q\<^sub>j (r\<^sub>i - r\<^sub>j) / |r\<^sub>i - r\<^sub>j|\<^sup>3\<close>, divided by \<open>m\<^sub>i\<close>.
\<close>

definition spec_acceleration ::
    "real list \<Rightarrow> real list \<Rightarrow> real list \<Rightarrow> nat \<Rightarrow> nat \<Rightarrow> nat \<Rightarrow> real" where
  "spec_acceleration y charges masses n i c =
     (\<Sum>j\<in>{..<n} - {i}.
        const_k * (charges ! i) * (charges ! j) * component (vsub (position y i) (position y j)) c
          / vnorm (vsub (position y i) (position y j)) ^ 3)
     / (masses ! i)"


subsection \<open>A two-body system\<close>

text \<open>
  Two atoms of unit mass and unit charge at rest at \<open>(- 1/2, 0, 0)\<close> and \<open>(1/2, 0, 0)\<close>,
  as the state of a simulation whose sampler holds this one trajectory.
\<close>

definition two_body_geometry :: geometry where
  "two_body_geometry =
     \<lparr>atom_coords = [(- 1 / 2, 0, 0), (1 / 2, 0, 0)], atom_masses = [1, 1], natoms = 2,
      nmodes = None, omegas = None, com = None, atom_coords_com = None,
      nmodes_weighted = None\<rparr>"

definition two_body_state :: "real list" where
  "two_body_state = [- 1 / 2, 0, 0, 1 / 2, 0, 0, 0, 0, 0, 0, 0, 0]"

definition two_body_sampler :: starting_conditions where
  "two_body_sampler =
     \<lparr>eq_geometry = two_body_geometry, multi_channel = False, channel_list = None,
      channel_p_list = None, self_method = None, self_T = None, self_n_geoms = None,
      self_random_rotate = None, self_wigner_sample_max = None, self_nmax = None,
      self_sigma = None, n_list = None, Pn_arr = None, samp_n_list = None,
      samp_q_list = None, samp_y0_list = Some [two_body_state],
      samp_charges_list = Some [[1, 1]], samp_masses_list = Some [[1, 1]],
      samp_channel_list = Some []\<rparr>"

definition two_body_sim :: CE_sim where
  "two_body_sim =
     \<lparr>starting_conditions = two_body_sampler, timebins = None, tmin = None, tmax = None,
      n_t_steps = None, sim_counter = Some 0\<rparr>"


subsection \<open>The integrator\<close>

text \<open>
  \<^verbatim>\<open>run_sims\<close> hands \<^verbatim>\<open>NewtonEquations\<close> to \<^verbatim>\<open>scipy.integrate.solve_ivp\<close>, which is not
  part of the repository. Its default method is an explicit Runge-Kutta scheme: every
  state it produces, whether the end of a step or a sample at a requested time, is an
  earlier state plus a linear combination of derivatives that \<^verbatim>\<open>NewtonEquations\<close>
  returned at stage states of the same length. The step relation below allows any such
  combination; the stage states have pairwise distinct atom positions, where the real
  arithmetic of the model is the arithmetic of the program.
\<close>

definition distinct_positions :: "nat \<Rightarrow> real list \<Rightarrow> bool" where
  "distinct_positions n y \<longleftrightarrow> (\<forall>i<n. \<forall>j<n. i \<noteq> j \<longrightarrow> position y i \<noteq> position y j)"

text \<open>\<open>a * x + y\<close> on arrays of one length.\<close>

definition axpy :: "real \<Rightarrow> real list \<Rightarrow> real list \<Rightarrow> real list" where
  "axpy a x y = map2 (\<lambda>xi yi. a * xi + yi) x y"

fun combine :: "real list \<Rightarrow> (real \<times> real list) list \<Rightarrow> real list" where
  "combine y [] = y"
| "combine y ((w, d) # rest) = combine (axpy w d y) rest"

inductive integrator_step :: "CE_sim \<Rightarrow> real list \<Rightarrow> real list \<Rightarrow> bool" for self where
  stages: "list_all2 (\<lambda>stage d. length (snd stage) = length y \<and>
                distinct_positions (length y div 6) (snd stage) \<and>
                NewtonEquations self (fst stage) (snd stage) = Inr d) stage_list ds \<Longrightarrow>
           length ws = length ds \<Longrightarrow>
           integrator_step self y (combine y (zip ws ds))"

text \<open>Component \<open>c\<close> of the total momentum of a state of \<open>n\<close> atoms.\<close>

definition momentum :: "real list \<Rightarrow> nat \<Rightarrow> real list \<Rightarrow> nat \<Rightarrow> real" where
  "momentum masses n y c = (\<Sum>i<n. masses ! i * y ! (3 * n + 3 * i + c))"


text \<open>
  The charge and mass vectors that \<^verbatim>\<open>NewtonEquations\<close> reads: the entries of the
  sampler's lists at the simulation's counter.
\<close>

definition current_trajectory :: "CE_sim \<Rightarrow> real list \<Rightarrow> real list \<Rightarrow> bool" where
  "current_trajectory self charges masses =
     (case (samp_charges_list (starting_conditions self),
            samp_masses_list (starting_conditions self), sim_counter self) of
        (Some charges_list, Some masses_list, Some s) \<Rightarrow>
          s < length charges_list \<and> s < length masses_list \<and>
          charges = charges_list ! s \<and> masses = masses_list ! s
      | _ \<Rightarrow> False)"


subsection \<open>Time bins\<close>

text \<open>
  NumPy is not part of the repository; the array functions that \<^verbatim>\<open>make_timebins\<close> and
  \<^verbatim>\<open>set_timebins\<close> call follow their documentation. \<^verbatim>\<open>np.linspace(start, stop, num)\<close>
  refuses a negative \<open>num\<close>, returns \<open>num\<close> evenly spaced samples and sets the last of
  two or more samples to \<open>stop\<close>; \<^verbatim>\<open>np.concatenate\<close> needs at least one array; \<^verbatim>\<open>np.min\<close>
  and \<^verbatim>\<open>np.max\<close> need at least one element.
\<close>

definition linspace_values :: "real \<Rightarrow> real \<Rightarrow> nat \<Rightarrow> real list" where
  "linspace_values start stop num =
     map (\<lambda>i. if 1 < num \<and> i = num - 1 then stop
              else start + real i * ((stop - start) / real (num - 1))) [0..<num]"

definition np_linspace :: "real \<Rightarrow> real \<Rightarrow> int \<Rightarrow> py_error + real list" where
  "np_linspace start stop num =
     (if num < 0 then Inl ValueError else Inr (linspace_values start stop (nat num)))"

definition np_concatenate :: "real list list \<Rightarrow> py_error + real list" where
  "np_concatenate arrays = (if arrays = [] then Inl ValueError else Inr (concat arrays))"

definition np_min :: "real list \<Rightarrow> py_error + real" where
  "np_min xs = (case xs of [] \<Rightarrow> Inl ValueError | x # rest \<Rightarrow> Inr (fold min rest x))"

definition np_max :: "real list \<Rightarrow> py_error + real" where
  "np_max xs = (case xs of [] \<Rightarrow> Inl ValueError | x # rest \<Rightarrow> Inr (fold max rest x))"

definition CE_sim_init :: "starting_conditions \<Rightarrow> CE_sim" where
  "CE_sim_init sc =
     \<lparr>starting_conditions = sc, timebins = None, tmin = None, tmax = None,
      n_t_steps = None, sim_counter = None\<rparr>"

definition set_timebins :: "CE_sim \<Rightarrow> real list \<Rightarrow> py_error + CE_sim" where
  "set_timebins self tb =
     bindE (np_min tb) (\<lambda>lo.
     bindE (np_max tb) (\<lambda>hi.
       Inr (self\<lparr>timebins := Some tb, tmin := Some lo, tmax := Some hi,
                 n_t_steps := Some (length tb)\<rparr>)))"

definition make_timebins ::
    "CE_sim \<Rightarrow> (real \<times> real) list \<Rightarrow> int list \<Rightarrow> py_error + CE_sim" where
  "make_timebins self t_range_list n_step_list =
     bindE (foldE (\<lambda>(t_range, n_step) tsteps_list.
                     bindE (np_linspace (fst t_range) (snd t_range) n_step) (\<lambda>t_steps.
                       Inr (tsteps_list @ [t_steps])))
              (zip t_range_list n_step_list) []) (\<lambda>tsteps_list.
     bindE (np_concatenate tsteps_list) (\<lambda>tsteps_full.
       set_timebins self tsteps_full))"

text \<open>
  Ranges in order: each one runs forward, and none starts before the one before it
  ends.
\<close>

fun ordered_ranges :: "(real \<times> real) list \<Rightarrow> bool" where
  "ordered_ranges [] = True"
| "ordered_ranges [(a, b)] = (a \<le> b)"
| "ordered_ranges ((a, b) # (c, d) # rest) = (a \<le> b \<and> b \<le> c \<and> ordered_ranges ((c, d) # rest))"

text \<open>The samples of the ranges, one range after the other.\<close>

definition all_samples :: "((real \<times> real) \<times> int) list \<Rightarrow> real list" where
  "all_samples zs = concat (map (\<lambda>((t1, t2), n). linspace_values t1 t2 (nat n)) zs)"


subsection \<open>The geometry\<close>

text \<open>\<^verbatim>\<open>arr.any()\<close>: some element of the array is not zero.\<close>

definition nmodes_any :: "vec3 list list \<Rightarrow> bool" where
  "nmodes_any ms = list_ex (list_ex (\<lambda>(x, y, z). x \<noteq> 0 \<or> y \<noteq> 0 \<or> z \<noteq> 0)) ms"

definition omegas_any :: "real list \<Rightarrow> bool" where
  "omegas_any os = list_ex (\<lambda>x. x \<noteq> 0) os"

text \<open>
  The module assigns no global name \<^verbatim>\<open>n_atoms\<close>; \<^verbatim>\<open>check_normal_modes\<close> assigns no local
  one and reads the name in its third loop.
\<close>

definition module_n_atoms :: "nat option" where
  "module_n_atoms = None"

definition global_name :: "'a option \<Rightarrow> py_error + 'a" where
  "global_name v = (case v of None \<Rightarrow> Inl NameError | Some x \<Rightarrow> Inr x)"

text \<open>A \<^verbatim>\<open>for\<close> loop that collects one result for each element.\<close>

fun mapE :: "('a \<Rightarrow> py_error + 'b) \<Rightarrow> 'a list \<Rightarrow> py_error + 'b list" where
  "mapE f [] = Inr []"
| "mapE f (x # xs) = bindE (f x) (\<lambda>y. bindE (mapE f xs) (\<lambda>ys. Inr (y # ys)))"

text \<open>The first loop over a mode: the sum of mass times squared displacement.\<close>

definition mode_norm_sum :: "geometry \<Rightarrow> vec3 list \<Rightarrow> py_error + real" where
  "mode_norm_sum self mode =
     foldE (\<lambda>i norm_sum.
              bindE (item mode i) (\<lambda>(x, y, z).
              bindE (item (atom_masses self) i) (\<lambda>m.
                Inr (norm_sum + x ^ 2 * m + y ^ 2 * m + z ^ 2 * m))))
       [0..<natoms self] 0"

text \<open>
  The second loop over a mode: each displacement times \<open>sqrt m / norm\<close>. The variable
  \<^verbatim>\<open>norm\<close> is \<open>norm_sum\<close> before its square root is taken and \<open>norm_root\<close> after.
\<close>

definition reweight_mode :: "geometry \<Rightarrow> vec3 list \<Rightarrow> real \<Rightarrow> py_error + vec3 list" where
  "reweight_mode self mode norm_root =
     foldE (\<lambda>i mode_new.
              bindE (item mode i) (\<lambda>r.
              bindE (item (atom_masses self) i) (\<lambda>m.
                Inr (mode_new[i := vdiv (smult (sqrt m) r) norm_root]))))
       [0..<natoms self] (replicate (length mode) (0, 0, 0))"

text \<open>The innermost loop of the third block: the dot product of two reweighted modes.\<close>

definition mode_dotprod :: "vec3 list \<Rightarrow> vec3 list \<Rightarrow> py_error + real" where
  "mode_dotprod mode1 mode2 =
     bindE (global_name module_n_atoms) (\<lambda>n_atoms.
       foldE (\<lambda>k dotprod.
                bindE (item mode1 k) (\<lambda>a.
                bindE (item mode2 k) (\<lambda>b.
                  Inr (dotprod + vdot a b))))
         [0..<n_atoms] 0)"

text \<open>
  \<^verbatim>\<open>check_normal_modes\<close> returns the geometry with the reweighted modes stored and the
  verdict it prints: \<open>True\<close> for \<^verbatim>\<open>Normal modes are NOT in expected format\<close>. The figure is
  not modelled; \<^verbatim>\<open>np.max\<close> of an array without elements raises.
\<close>

definition check_normal_modes :: "geometry \<Rightarrow> real \<Rightarrow> bool \<Rightarrow> py_error + geometry \<times> bool" where
  "check_normal_modes self threshold make_fig =
     bindE (attr (nmodes self)) (\<lambda>modes.
     bindE (mapE (\<lambda>mode.
              bindE (mode_norm_sum self mode) (\<lambda>norm_sum.
                let norm_root = sqrt norm_sum in reweight_mode self mode norm_root)) modes) (\<lambda>nmodes2.
     bindE (mapE (\<lambda>mode1. mapE (\<lambda>mode2. mode_dotprod mode1 mode2) nmodes2) nmodes2) (\<lambda>results.
       let results = map (\<lambda>i. (results ! i)[i := results ! i ! i - 1]) [0..<length modes]
       in bindE (np_max (map abs (concat results))) (\<lambda>worst.
            Inr (self\<lparr>nmodes_weighted := Some nmodes2\<rparr>, worst > threshold)))))"

text \<open>
  The constructor, with the default arguments \<^verbatim>\<open>threshold=0.05\<close> and \<^verbatim>\<open>make_fig=True\<close>
  of \<^verbatim>\<open>check_normal_modes\<close>. An argument left out is the empty array.
\<close>

definition geometry_init ::
    "vec3 list \<Rightarrow> real list \<Rightarrow> vec3 list list \<Rightarrow> real list \<Rightarrow> py_error + geometry" where
  "geometry_init coords masses nmodes_arg omegas_arg =
     (let self = \<lparr>atom_coords = coords, atom_masses = masses, natoms = length coords,
                  nmodes = None, omegas = None, com = None, atom_coords_com = None,
                  nmodes_weighted = None\<rparr>
      in bindE (if nmodes_any nmodes_arg
                then bindE (check_normal_modes (self\<lparr>nmodes := Some nmodes_arg\<rparr>) (5 / 100) True)
                       (\<lambda>(self, verdict). Inr self)
                else Inr self) (\<lambda>self.
           Inr (if omegas_any omegas_arg then self\<lparr>omegas := Some omegas_arg\<rparr> else self)))"

definition find_com :: "geometry \<Rightarrow> geometry" where
  "find_com self =
     (let (mass_product, mass_sum) =
            fold (\<lambda>(r, mass) (mass_product, mass_sum).
                    (vadd mass_product (smult mass r), mass_sum + mass))
              (zip (atom_coords self) (atom_masses self)) ((0, 0, 0), 0)
      in self\<lparr>com := Some (vdiv mass_product mass_sum)\<rparr>)"

text \<open>
  The array of the coordinates of no atoms has shape \<open>(0,)\<close>, and the subtraction of the
  centre of mass, of shape \<open>(3,)\<close>, from it raises: the shapes do not broadcast.
\<close>

definition com_geometry :: "geometry \<Rightarrow> py_error + geometry" where
  "com_geometry self =
     (let self = find_com self
      in bindE (attr (com self)) (\<lambda>c.
           if atom_coords self = [] then Inl ValueError
           else Inr (self\<lparr>atom_coords_com := Some (map (\<lambda>r. vsub r c) (atom_coords self))\<rparr>)))"

subsection \<open>The sampler\<close>

definition starting_conditions_init :: "geometry \<Rightarrow> starting_conditions" where
  "starting_conditions_init geom =
     \<lparr>eq_geometry = geom, multi_channel = False, channel_list = None,
      channel_p_list = None, self_method = None, self_T = None, self_n_geoms = None,
      self_random_rotate = None, self_wigner_sample_max = None, self_nmax = None,
      self_sigma = None, n_list = None, Pn_arr = None, samp_n_list = None,
      samp_q_list = None, samp_y0_list = None, samp_charges_list = None,
      samp_masses_list = None, samp_channel_list = None\<rparr>"

text \<open>\<^verbatim>\<open>set_channel_list\<close> returns the sampler and the lines it prints.\<close>

definition set_channel_list ::
    "starting_conditions \<Rightarrow> ce_channel list \<Rightarrow> starting_conditions \<times> string list" where
  "set_channel_list self channels =
     (let p_list = map ch_p channels;
          sum_p = sum_list p_list
      in if \<bar>sum_p - 1\<bar> > 1 / 1000
         then (self, [''Channel probabilities don't sum to 1!''])
         else (self\<lparr>channel_list := Some channels, channel_p_list := Some p_list,
                     multi_channel := True\<rparr>, []))"

definition sigma_to_array :: "sigma_val \<Rightarrow> sigma_val" where
  "sigma_to_array sigma = (case sigma of Number x \<Rightarrow> Array [x] | Array xs \<Rightarrow> Array xs)"


subsection \<open>Generating the pool\<close>

text \<open>
  The rejection loop of the Wigner sampling has no bound on its iterations, so a part
  of \<^verbatim>\<open>generate_pool\<close> may run forever: its result is an \<open>option\<close>, and \<open>None\<close> is the run
  that does not return. \<open>bindR\<close> and \<open>foldR\<close> chain such computations.
\<close>

definition bindR ::
    "(py_error + 'a) option \<Rightarrow> ('a \<Rightarrow> (py_error + 'b) option) \<Rightarrow> (py_error + 'b) option" where
  "bindR m f = (case m of None \<Rightarrow> None | Some (Inl err) \<Rightarrow> Some (Inl err) | Some (Inr x) \<Rightarrow> f x)"

fun foldR ::
    "('a \<Rightarrow> 's \<Rightarrow> (py_error + 's) option) \<Rightarrow> 'a list \<Rightarrow> 's \<Rightarrow> (py_error + 's) option" where
  "foldR f [] s = Some (Inr s)"
| "foldR f (x # xs) s = bindR (f x s) (foldR f xs)"

text \<open>
  The two loops that fill \<^verbatim>\<open>Pn_arr\<close>, an array of \<open>len(nmodes)\<close> rows and \<open>nmax\<close> columns
  that starts as zeros: entry \<open>[i, n]\<close> becomes \<open>calc_Pn\<close> of frequency \<open>i\<close> and level \<open>n\<close>.
\<close>

definition fill_Pn_arr :: "real list \<Rightarrow> real \<Rightarrow> nat \<Rightarrow> real list list \<Rightarrow> py_error + real list list" where
  "fill_Pn_arr omega_list T nmax arr =
     foldE (\<lambda>n arr.
              foldE (\<lambda>i arr.
                       let Pn = calc_Pn (omega_list ! i) T (int n)
                       in bindE (item arr i) (\<lambda>row. Inr (arr[i := row[n := Pn]])))
                [0..<length omega_list] arr)
       [0..<nmax] arr"

text \<open>
  The two assertions and the two assignments under the first test of
  \<^verbatim>\<open>method == 'wigner'\<close>.
\<close>

definition check_wigner_inputs :: "starting_conditions \<Rightarrow> real \<Rightarrow> py_error + starting_conditions" where
  "check_wigner_inputs self T =
     bindE (attr (nmodes (eq_geometry self))) (\<lambda>modes.
       if \<not> nmodes_any modes then Inl AssertionError else
     bindE (attr (omegas (eq_geometry self))) (\<lambda>omega_list.
       if \<not> omegas_any omega_list then Inl AssertionError else
       Inr (self\<lparr>self_T := Some T, samp_q_list := Some []\<rparr>)))"

text \<open>
  The populations of the vibrational states, computed for a positive temperature.
  \<^verbatim>\<open>np.zeros\<close> refuses a negative dimension.
\<close>

definition fill_populations :: "starting_conditions \<Rightarrow> real \<Rightarrow> int \<Rightarrow> py_error + starting_conditions" where
  "fill_populations self T nmax =
     bindE (attr (nmodes (eq_geometry self))) (\<lambda>modes.
     bindE (if nmax < 0 then Inl ValueError
            else Inr (replicate (length modes) (replicate (nat nmax) 0))) (\<lambda>zeros.
     let self = self\<lparr>n_list := Some (map int [0..<nat nmax]), Pn_arr := Some zeros,
                     samp_n_list := Some []\<rparr>
     in bindE (attr (omegas (eq_geometry self))) (\<lambda>omega_list.
        bindE (fill_Pn_arr omega_list T (nat nmax) zeros) (\<lambda>arr.
          Inr (self\<lparr>Pn_arr := Some arr\<rparr>)))))"

text \<open>
  The part of \<^verbatim>\<open>generate_pool\<close> before the loop over the trajectories. The default
  arguments of the method are \<^verbatim>\<open>method='gaussian'\<close>, \<^verbatim>\<open>random_rotate=True\<close>, \<^verbatim>\<open>sigma=0.1\<close>,
  \<^verbatim>\<open>wigner_sample_max=3\<close>, \<^verbatim>\<open>T=0\<close> and \<^verbatim>\<open>nmax=5\<close>.
\<close>

definition generate_pool_setup ::
    "starting_conditions \<Rightarrow> int \<Rightarrow> string \<Rightarrow> bool \<Rightarrow> sigma_val \<Rightarrow> real \<Rightarrow> real \<Rightarrow> int
       \<Rightarrow> py_error + starting_conditions" where
  "generate_pool_setup self n_geoms method random_rotate sigma wigner_sample_max T nmax =
     (let self = self\<lparr>self_method := Some method\<rparr>
      in bindE (if method = ''wigner'' then check_wigner_inputs self T else Inr self) (\<lambda>self.
         let self = self\<lparr>self_n_geoms := Some n_geoms, self_random_rotate := Some random_rotate,
                         self_T := Some T, self_wigner_sample_max := Some wigner_sample_max,
                         self_nmax := Some nmax, samp_y0_list := Some [],
                         samp_charges_list := Some [], samp_masses_list := Some [],
                         samp_channel_list := Some []\<rparr>
         in bindE (com_geometry (eq_geometry self)) (\<lambda>geom.
         let self = self\<lparr>eq_geometry := geom\<rparr>;
             self = (if method = ''gaussian''
                     then self\<lparr>self_sigma := Some (sigma_to_array sigma)\<rparr> else self)
         in if method = ''wigner'' \<and> T > 0 then fill_populations self T nmax
            else Inr self)))"

text \<open>The charges and masses of a trajectory, in coulombs and kilograms.\<close>

definition assign_charges ::
    "starting_conditions \<Rightarrow> rng \<Rightarrow> py_error + real list \<times> real list \<times> rng" where
  "assign_charges self g =
     (if multi_channel self then
        bindE (attr (channel_list self)) (\<lambda>channels.
        bindE (attr (channel_p_list self)) (\<lambda>p_list.
        bindE (np_random_choice channels p_list g) (\<lambda>(channel, g1).
          Inr (map (\<lambda>q. q * const_e) (ch_charges channel),
               map (\<lambda>m. m * const_u) (atom_masses (eq_geometry self)), g1))))
      else
        Inr (map (\<lambda>q. q * const_e) (replicate (natoms (eq_geometry self)) 1),
             map (\<lambda>m. m * const_u) (atom_masses (eq_geometry self)), g))"

text \<open>
  The width of the blur for atom \<open>n\<close>. When the array \<^verbatim>\<open>self.sigma\<close> has neither one entry
  nor one entry for each atom, \<^verbatim>\<open>blur_sigma\<close> is read before any assignment. An array of
  one entry that is used as the width is read as that entry.
\<close>

definition blur_sigma_of :: "starting_conditions \<Rightarrow> nat \<Rightarrow> py_error + real" where
  "blur_sigma_of self n =
     bindE (attr (self_sigma self)) (\<lambda>sigma.
       case sigma of
         Number x \<Rightarrow> Inl IndexError
       | Array xs \<Rightarrow>
           if length xs = 1 then item xs 0
           else if length xs = natoms (eq_geometry self) then item xs n
           else Inl UnboundLocalError)"

text \<open>The body of the loop over the atoms in the branch \<^verbatim>\<open>method == 'gaussian'\<close>.\<close>

definition gaussian_atom ::
    "starting_conditions \<Rightarrow> nat \<Rightarrow> vec3 list \<times> rng \<Rightarrow> py_error + vec3 list \<times> rng" where
  "gaussian_atom self n = (\<lambda>(r_list, g).
     bindE (blur_sigma_of self n) (\<lambda>blur_sigma.
     bindE (attr (atom_coords_com (eq_geometry self))) (\<lambda>coords.
     bindE (item coords n) (\<lambda>(cx, cy, cz).
     bindE (np_random_normal 0 blur_sigma g) (\<lambda>(dx, g1).
     bindE (np_random_normal 0 blur_sigma g1) (\<lambda>(dy, g2).
     bindE (np_random_normal 0 blur_sigma g2) (\<lambda>(dz, g3).
       let rs = ((cx + dx) * (1 / 10 ^ 10), (cy + dy) * (1 / 10 ^ 10), (cz + dz) * (1 / 10 ^ 10))
       in Inr (r_list @ [rs], g3))))))))"

text \<open>
  The choice of the vibrational state of a mode. \<open>mode_counter\<close> is the row of \<^verbatim>\<open>Pn_arr\<close>
  that is read.
\<close>

definition choose_n :: "starting_conditions \<Rightarrow> real \<Rightarrow> nat \<Rightarrow> rng \<Rightarrow> py_error + int \<times> rng" where
  "choose_n self T mode_counter g =
     (if T > 0 then
        bindE (attr (Pn_arr self)) (\<lambda>arr.
        bindE (item arr mode_counter) (\<lambda>Pn.
          let Pn_scaled = map (\<lambda>x. x / sum_list Pn) Pn
          in bindE (attr (n_list self)) (\<lambda>levels.
               np_random_choice levels Pn_scaled g)))
      else Inr (0, g))"

text \<open>
  What the rejection loop does with an accepted draw \<open>random_Q\<close>: the displacement along
  the mode is added to every atom, and the draw is recorded.
\<close>

definition wigner_accept ::
    "real \<Rightarrow> vec3 list \<Rightarrow> real \<Rightarrow> int \<Rightarrow> real \<Rightarrow> vec3 list \<times> starting_conditions \<times> rng
       \<Rightarrow> py_error + vec3 list \<times> starting_conditions \<times> rng" where
  "wigner_accept T nmode freq_factor n random_Q = (\<lambda>(new_geom, self, g).
     bindE (foldE (\<lambda>i new_geom.
              bindE (item new_geom i) (\<lambda>r.
              bindE (item nmode i) (\<lambda>d.
              bindE (item (atom_masses (eq_geometry self)) i) (\<lambda>m.
                Inr (new_geom[i := vadd r
                       (smult (random_Q / freq_factor * sqrt (1 / (m * u_to_amu))
                                 * bohr_to_angstrom) d)])))))
            [0..<natoms (eq_geometry self)] new_geom) (\<lambda>new_geom.
     bindE (if T > 0
            then bindE (attr (samp_n_list self)) (\<lambda>ns. Inr (self\<lparr>samp_n_list := Some (ns @ [n])\<rparr>))
            else Inr self) (\<lambda>self.
     bindE (attr (samp_q_list self)) (\<lambda>qs.
       Inr (new_geom, self\<lparr>samp_q_list := Some (qs @ [random_Q])\<rparr>, g)))))"

text \<open>The loop \<^verbatim>\<open>while not wigner_sampled\<close>.\<close>

partial_function (option) wigner_while ::
    "real \<Rightarrow> real \<Rightarrow> vec3 list \<Rightarrow> real \<Rightarrow> int \<Rightarrow> vec3 list \<times> starting_conditions \<times> rng
       \<Rightarrow> (py_error + vec3 list \<times> starting_conditions \<times> rng) option" where
  "wigner_while wigner_sample_max T nmode freq_factor n st =
     (case st of (new_geom, self, g) \<Rightarrow>
        let (random_Q, g1) = np_random_uniform (- wigner_sample_max) wigner_sample_max g;
            (random_P, g2) = np_random_uniform (- wigner_sample_max) wigner_sample_max g1;
            W = calc_W random_P random_Q n;
            (threshold, g3) = np_random_uniform 0 1 g2
        in if W > threshold
           then Some (wigner_accept T nmode freq_factor n random_Q (new_geom, self, g3))
           else wigner_while wigner_sample_max T nmode freq_factor n (new_geom, self, g3))"

text \<open>The body of the loop over the modes in the branch \<^verbatim>\<open>method == 'wigner'\<close>.\<close>

definition wigner_mode ::
    "real \<Rightarrow> real \<Rightarrow> nat \<Rightarrow> vec3 list \<times> real \<Rightarrow> vec3 list \<times> starting_conditions \<times> rng
       \<Rightarrow> (py_error + vec3 list \<times> starting_conditions \<times> rng) option" where
  "wigner_mode wigner_sample_max T mode_counter = (\<lambda>(nmode, omega) (new_geom, self, g).
     let mode_freq_hartree = omega * cm_to_hartree;
         freq_factor = sqrt mode_freq_hartree
     in bindR (Some (choose_n self T mode_counter g)) (\<lambda>(n, g1).
          wigner_while wigner_sample_max T nmode freq_factor n (new_geom, self, g1)))"


text \<open>
  The positions of a trajectory before the rotation, in metres. An attribute that
  \<^verbatim>\<open>generate_pool\<close> assigns from an argument before its loops and never changes
  (\<^verbatim>\<open>self.method\<close>, \<^verbatim>\<open>self.n_geoms\<close>, \<^verbatim>\<open>self.random_rotate\<close>, \<^verbatim>\<open>self.wigner_sample_max\<close>) is
  read as the argument. \<^verbatim>\<open>mode_counter\<close> is set to zero before the loop over the modes,
  and that loop has no assignment to it.
\<close>

definition trajectory_positions ::
    "string \<Rightarrow> real \<Rightarrow> real \<Rightarrow> starting_conditions \<times> rng
       \<Rightarrow> (py_error + vec3 list \<times> starting_conditions \<times> rng) option" where
  "trajectory_positions method wigner_sample_max T = (\<lambda>(self, g).
     if method = ''gaussian'' then
       Some (bindE (foldE (gaussian_atom self) [0..<natoms (eq_geometry self)] ([], g))
               (\<lambda>(r_list, g1). Inr (r_list, self, g1)))
     else if method = ''wigner'' then
       let mode_counter = 0
       in bindR (Some (attr (atom_coords_com (eq_geometry self)))) (\<lambda>new_geom.
          bindR (Some (attr (nmodes_weighted (eq_geometry self)))) (\<lambda>modes.
          bindR (Some (attr (omegas (eq_geometry self)))) (\<lambda>omega_list.
          bindR (foldR (wigner_mode wigner_sample_max T mode_counter) (zip modes omega_list)
                   (new_geom, self, g)) (\<lambda>(new_geom, self1, g1).
          bindR (Some (mapE (\<lambda>n. bindE (item new_geom n) (\<lambda>r. Inr (smult (1 / 10 ^ 10) r)))
                         [0..<natoms (eq_geometry self1)])) (\<lambda>r_list.
            Some (Inr (r_list, self1, g1)))))))
     else Some (Inr ([], self, g)))"

text \<open>The loop that writes the positions into the first half of \<^verbatim>\<open>y0\<close>.\<close>

definition fill_y0 :: "nat \<Rightarrow> vec3 list \<Rightarrow> py_error + real list" where
  "fill_y0 n_atoms r_list_rot =
     foldE (\<lambda>n y0. bindE (item r_list_rot n) (\<lambda>(x, y, z).
              Inr (y0[3 * n := x, 3 * n + 1 := y, 3 * n + 2 := z])))
       [0..<n_atoms] (replicate (n_atoms * 6) 0)"

text \<open>The three \<^verbatim>\<open>append\<close> calls that end the body of the loop over the trajectories.\<close>

definition store_trajectory ::
    "starting_conditions \<Rightarrow> real list \<Rightarrow> real list \<Rightarrow> real list \<Rightarrow> py_error + starting_conditions" where
  "store_trajectory self y0 charges masses =
     bindE (attr (samp_y0_list self)) (\<lambda>ys.
     bindE (attr (samp_charges_list self)) (\<lambda>cs.
     bindE (attr (samp_masses_list self)) (\<lambda>ms.
       Inr (self\<lparr>samp_y0_list := Some (ys @ [y0]),
                 samp_charges_list := Some (cs @ [charges]),
                 samp_masses_list := Some (ms @ [masses])\<rparr>))))"

text \<open>The body of the loop over the trajectories.\<close>

definition sample_trajectory ::
    "string \<Rightarrow> bool \<Rightarrow> real \<Rightarrow> real \<Rightarrow> starting_conditions \<times> rng
       \<Rightarrow> (py_error + starting_conditions \<times> rng) option" where
  "sample_trajectory method random_rotate wigner_sample_max T = (\<lambda>(self, g).
     bindR (Some (assign_charges self g)) (\<lambda>(charges, masses, g1).
     bindR (trajectory_positions method wigner_sample_max T (self, g1)) (\<lambda>(r_list, self1, g2).
       let (r_list_rot, g3) = (if random_rotate then random_rotation r_list g2 else (r_list, g2))
       in bindR (Some (fill_y0 (natoms (eq_geometry self1)) r_list_rot)) (\<lambda>y0.
          bindR (Some (store_trajectory self1 y0 charges masses)) (\<lambda>self2.
            Some (Inr (self2, g3)))))))"

definition generate_pool ::
    "starting_conditions \<Rightarrow> int \<Rightarrow> string \<Rightarrow> bool \<Rightarrow> sigma_val \<Rightarrow> real \<Rightarrow> real \<Rightarrow> int \<Rightarrow> rng
       \<Rightarrow> (py_error + starting_conditions \<times> rng) option" where
  "generate_pool self n_geoms method random_rotate sigma wigner_sample_max T nmax g =
     bindR (Some (generate_pool_setup self n_geoms method random_rotate sigma
                    wigner_sample_max T nmax)) (\<lambda>self1.
       foldR (\<lambda>i. sample_trajectory method random_rotate wigner_sample_max T)
         [0..<nat n_geoms] (self1, g))"


subsection \<open>A diatomic geometry with one mode\<close>

text \<open>
  Two atoms of unit mass with one stretching mode. The constructor cannot produce a
  geometry with modes, so the attributes \<^verbatim>\<open>nmodes\<close>, \<^verbatim>\<open>omegas\<close> and \<^verbatim>\<open>nmodes_weighted\<close> are
  those of an object whose attributes were assigned one by one; the weighted mode is
  the raw one times \<open>sqrt m / norm\<close>.
\<close>

definition diatomic_geometry :: geometry where
  "diatomic_geometry =
     \<lparr>atom_coords = [(- 1 / 2, 0, 0), (1 / 2, 0, 0)], atom_masses = [1, 1], natoms = 2,
      nmodes = Some [[(1, 0, 0), (- 1, 0, 0)]], omegas = Some [1000], com = None,
      atom_coords_com = None,
      nmodes_weighted = Some [[(1 / sqrt 2, 0, 0), (- 1 / sqrt 2, 0, 0)]]\<rparr>"

text \<open>A generator whose uniform variates are all \<open>9/10\<close>.\<close>

definition constant_rng :: rng where
  "constant_rng = \<lparr>unif = (\<lambda>i. 9 / 10), gauss = (\<lambda>i. 0)\<rparr>"


subsection \<open>A sampler with two channels\<close>

text \<open>
  The two atoms of the two-body system with two channels of equal weight, given to
  \<^verbatim>\<open>set_channel_list\<close>; the label of a channel is the default \<^verbatim>\<open>'None'\<close>.
\<close>

definition two_channels :: "ce_channel list" where
  "two_channels =
     [\<lparr>ch_charges = [1, 1], ch_p = 1 / 2, ch_label = ''None''\<rparr>,
      \<lparr>ch_charges = [2, 1], ch_p = 1 / 2, ch_label = ''None''\<rparr>]"

definition two_channel_sampler :: starting_conditions where
  "two_channel_sampler =
     fst (set_channel_list (starting_conditions_init two_body_geometry) two_channels)"


subsection \<open>A linear molecule with two stretching modes\<close>

text \<open>
  Three atoms of unit mass on a line with the symmetric and the antisymmetric
  stretching mode, of \<open>1000\<close> and \<open>2000\<close> wavenumbers. As for the diatomic geometry, the
  attributes of the modes are assigned one by one, and a weighted mode is the raw one
  times \<open>sqrt m / norm\<close>.
\<close>

definition linear_geometry :: geometry where
  "linear_geometry =
     \<lparr>atom_coords = [(- 1, 0, 0), (0, 0, 0), (1, 0, 0)], atom_masses = [1, 1, 1], natoms = 3,
      nmodes = Some [[(- 1, 0, 0), (0, 0, 0), (1, 0, 0)], [(1, 0, 0), (- 2, 0, 0), (1, 0, 0)]],
      omegas = Some [1000, 2000], com = None, atom_coords_com = None,
      nmodes_weighted =
        Some [[(- 1 / sqrt 2, 0, 0), (0, 0, 0), (1 / sqrt 2, 0, 0)],
              [(1 / sqrt 6, 0, 0), (- 2 / sqrt 6, 0, 0), (1 / sqrt 6, 0, 0)]]\<rparr>"

text \<open>
  The temperature at which a quantum of the first mode is \<open>k\<^sub>B T ln 2\<close>, a little more
  than two thousand kelvin: each level of the first mode has half the population of
  the level below it, and each level of the second mode a quarter.
\<close>

definition halving_temperature :: real where
  "halving_temperature = hbar * (1000 * c_cm_s * 2 * pi) / (kb * ln 2)"

text \<open>
  A generator whose uniform variates are \<open>7/10\<close>, \<open>0\<close>, \<open>0\<close>, \<open>0\<close> and so on with period four:
  the first of four is the one that chooses the level of a mode.
\<close>

definition periodic_rng :: rng where
  "periodic_rng = \<lparr>unif = (\<lambda>i. if i mod 4 = 0 then 7 / 10 else 0), gauss = (\<lambda>i. 0)\<rparr>"


section \<open>Properties\<close>

subsection \<open>The Wigner function\<close>

lemma laguerre_2: "laguerre 2 x = 1 - 2 * x + x ^ 2 / 2"
  by (simp add: numeral_2_eq_2 power2_eq_square field_simps)

text \<open>
  C4: for all real \<open>P\<close> and \<open>Q\<close>, \<open>calc_W P Q n\<close> is \<open>exp (- Q\<^sup>2) * exp (- P\<^sup>2)\<close> when
  \<open>n = 0\<close>, and \<open>(- 1)\<^sup>n * L\<^sub>n (2 * (P\<^sup>2 + Q\<^sup>2)) * exp (- (P\<^sup>2 + Q\<^sup>2))\<close> when \<open>n > 0\<close>,
  with \<open>L\<^sub>n\<close> the Laguerre polynomial of degree \<open>n\<close>.
\<close>

theorem calc_W_formula:
  "(n = 0 \<longrightarrow> calc_W P Q n = exp (- (Q ^ 2)) * exp (- (P ^ 2))) \<and>
   (0 < n \<longrightarrow> calc_W P Q n =
      (- 1) ^ nat n * laguerre (nat n) (2 * (P ^ 2 + Q ^ 2)) * exp (- (P ^ 2 + Q ^ 2)))"
proof -
  have half: "- (2 * (P ^ 2 + Q ^ 2)) / 2 = - (P ^ 2 + Q ^ 2)"
    by simp
  show ?thesis
    unfolding calc_W_def Let_def half by simp
qed

theorem calc_W_formula_witness:
  "calc_W 0 0 0 = 1 \<and> (0::int) < 1 \<and> calc_W 1 0 1 = exp (- 1)"
  using calc_W_formula [of 0 0 0] calc_W_formula [of 1 1 0]
  by simp

subsection \<open>The random rotation\<close>

lemma mat_mul_assoc: "mat_mul (mat_mul A B) C = mat_mul A (mat_mul B C)"
  by (cases A rule: prod_cases3; cases B rule: prod_cases3; cases C rule: prod_cases3)
     (auto simp: Let_def algebra_simps split: prod.splits)

lemma transpose3_mat_mul: "transpose3 (mat_mul A B) = mat_mul (transpose3 B) (transpose3 A)"
  by (cases A rule: prod_cases3; cases B rule: prod_cases3)
     (auto simp: Let_def algebra_simps split: prod.splits)

lemma det3_mat_mul: "det3 (mat_mul A B) = det3 A * det3 B"
  by (cases A rule: prod_cases3; cases B rule: prod_cases3)
     (auto simp: Let_def algebra_simps split: prod.splits)

lemma mat_mul_eye3: "mat_mul A eye3 = A" "mat_mul eye3 A = A"
  by (cases A rule: prod_cases3; auto simp: eye3_def Let_def split: prod.splits)+

lemma transpose3_twice: "transpose3 (transpose3 A) = A"
  by (cases A rule: prod_cases3; auto split: prod.splits)

lemma orthogonal3_mat_mul:
  assumes A: "orthogonal3 A" and B: "orthogonal3 B"
  shows "orthogonal3 (mat_mul A B)"
proof -
  have "mat_mul (mat_mul A B) (transpose3 (mat_mul A B))
      = mat_mul A (mat_mul (mat_mul B (transpose3 B)) (transpose3 A))"
    by (simp add: transpose3_mat_mul mat_mul_assoc)
  also have "\<dots> = eye3"
    using A B by (simp add: orthogonal3_def mat_mul_eye3)
  finally have left: "mat_mul (mat_mul A B) (transpose3 (mat_mul A B)) = eye3" .
  have "mat_mul (transpose3 (mat_mul A B)) (mat_mul A B)
      = mat_mul (transpose3 B) (mat_mul (mat_mul (transpose3 A) A) B)"
    by (simp add: transpose3_mat_mul mat_mul_assoc)
  also have "\<dots> = eye3"
    using A B by (simp add: orthogonal3_def mat_mul_eye3)
  finally show ?thesis
    using left by (simp add: orthogonal3_def)
qed

text \<open>The reflection \<open>V V\<^sup>T - I\<close> for a vector \<open>V\<close> of squared length two.\<close>

lemma householder_square:
  assumes V: "a * a + b * b + c * c = (2::real)"
  shows "mat_mul (mat_sub (outer (a, b, c) (a, b, c)) eye3)
           (mat_sub (outer (a, b, c) (a, b, c)) eye3) = eye3"
proof -
  from V have cc: "c * c = 2 - a * a - b * b" by simp
  show ?thesis
    unfolding eye3_def
    by (simp add: Let_def) (simp add: algebra_simps cc)
qed

lemma householder_det:
  assumes V: "a * a + b * b + c * c = (2::real)"
  shows "det3 (mat_sub (outer (a, b, c) (a, b, c)) eye3) = 1"
proof -
  from V have cc: "c * c = 2 - a * a - b * b" by simp
  show ?thesis
    unfolding eye3_def
    by (simp add: Let_def) (simp add: algebra_simps cc)
qed

lemma householder_sym:
  "transpose3 (mat_sub (outer (a, b, c) (a, b, c)) eye3) = mat_sub (outer (a, b, c) (a, b, c)) eye3"
  by (simp add: eye3_def mult.commute)

lemma householder_orthogonal:
  assumes "a * a + b * b + c * c = (2::real)"
  shows "orthogonal3 (mat_sub (outer (a, b, c) (a, b, c)) eye3)"
  by (simp only: orthogonal3_def householder_sym householder_square [OF assms])

lemma planar_rotation_orthogonal:
  "orthogonal3 ((cos th, sin th, 0), (- sin th, cos th, 0), (0, 0, 1))"
proof -
  have sc: "sin th * sin th + cos th * cos th = 1" "cos th * cos th + sin th * sin th = 1"
    using sin_cos_squared_add [of th] by (simp_all add: power2_eq_square add.commute)
  show ?thesis
    by (simp add: orthogonal3_def eye3_def Let_def sc mult.commute)
qed

lemma planar_rotation_det:
  "det3 ((cos th, sin th, 0), (- sin th, cos th, 0), (0, 0, 1)) = 1"
  using sin_cos_squared_add [of th] by (simp add: power2_eq_square add.commute)

lemma pole_vector_length:
  assumes "0 \<le> z" and "z \<le> (2::real)"
  shows "sin ph * sqrt z * (sin ph * sqrt z) + cos ph * sqrt z * (cos ph * sqrt z)
           + sqrt (2 - z) * sqrt (2 - z) = 2"
proof -
  have "sin ph * sqrt z * (sin ph * sqrt z) + cos ph * sqrt z * (cos ph * sqrt z)
      = (sin ph ^ 2 + cos ph ^ 2) * (sqrt z * sqrt z)"
    by (simp only: power2_eq_square algebra_simps)
  also have "\<dots> = z"
    using assms by (simp only: sin_cos_squared_add real_sqrt_mult_self abs_of_nonneg mult_1)
  finally have "sin ph * sqrt z * (sin ph * sqrt z) + cos ph * sqrt z * (cos ph * sqrt z) = z" .
  moreover have "sqrt (2 - z) * sqrt (2 - z) = 2 - z"
    using assms by simp
  ultimately show ?thesis
    by simp
qed

lemma RandRotationMatrix_given:
  "fst (RandRotationMatrix d (Some (x1, x2, x3)) g) =
     mat_mul (mat_sub (outer (sin (x2 * 2 * pi) * sqrt (x3 * 2 * d),
                              cos (x2 * 2 * pi) * sqrt (x3 * 2 * d), sqrt (2 - x3 * 2 * d))
                             (sin (x2 * 2 * pi) * sqrt (x3 * 2 * d),
                              cos (x2 * 2 * pi) * sqrt (x3 * 2 * d), sqrt (2 - x3 * 2 * d))) eye3)
       ((cos (x1 * 2 * d * pi), sin (x1 * 2 * d * pi), 0),
        (- sin (x1 * 2 * d * pi), cos (x1 * 2 * d * pi), 0), (0, 0, 1))"
  by (simp add: RandRotationMatrix_def Let_def)

lemma RandRotationMatrix_orthogonal:
  assumes "0 \<le> x3 * d" and "x3 * d \<le> 1"
  shows "orthogonal3 (fst (RandRotationMatrix d (Some (x1, x2, x3)) g))"
    and "det3 (fst (RandRotationMatrix d (Some (x1, x2, x3)) g)) = 1"
proof -
  have len: "sin (x2 * 2 * pi) * sqrt (x3 * 2 * d) * (sin (x2 * 2 * pi) * sqrt (x3 * 2 * d))
      + cos (x2 * 2 * pi) * sqrt (x3 * 2 * d) * (cos (x2 * 2 * pi) * sqrt (x3 * 2 * d))
      + sqrt (2 - x3 * 2 * d) * sqrt (2 - x3 * 2 * d) = 2"
    using assms by (intro pole_vector_length) (simp_all add: mult.commute)
  show "orthogonal3 (fst (RandRotationMatrix d (Some (x1, x2, x3)) g))"
    unfolding RandRotationMatrix_given
    by (intro orthogonal3_mat_mul householder_orthogonal [OF len] planar_rotation_orthogonal)
  show "det3 (fst (RandRotationMatrix d (Some (x1, x2, x3)) g)) = 1"
    unfolding RandRotationMatrix_given det3_mat_mul
    by (simp only: householder_det [OF len] planar_rotation_det mult_1)
qed

lemma RandRotationMatrix_drawn:
  "fst (RandRotationMatrix d None g) =
     fst (RandRotationMatrix d (Some (unif g 0, unif g (Suc 0), unif g (Suc (Suc 0)))) g)"
  by (simp add: RandRotationMatrix_def np_random_uniform3_def np_random_uniform_def
      next_unif_def Let_def)

lemma mat_vec_vsub: "vsub (mat_vec M a) (mat_vec M b) = mat_vec M (vsub a b)"
  by (cases M rule: prod_cases3; cases a rule: prod_cases3; cases b rule: prod_cases3)
     (auto simp: algebra_simps split: prod.splits)

lemma orthogonal3_vnorm:
  assumes "orthogonal3 M"
  shows "vnorm (mat_vec M v) = vnorm v"
proof -
  obtain m11 m12 m13 m21 m22 m23 m31 m32 m33
    where M: "M = ((m11, m12, m13), (m21, m22, m23), (m31, m32, m33))"
    by (metis prod_cases3)
  obtain x y z where v: "v = (x, y, z)"
    by (metis prod_cases3)
  from assms have cols:
    "m11 * m11 + m21 * m21 + m31 * m31 = 1" "m12 * m12 + m22 * m22 + m32 * m32 = 1"
    "m13 * m13 + m23 * m23 + m33 * m33 = 1" "m11 * m12 + m21 * m22 + m31 * m32 = 0"
    "m11 * m13 + m21 * m23 + m31 * m33 = 0" "m12 * m13 + m22 * m23 + m32 * m33 = 0"
    by (simp_all add: orthogonal3_def M eye3_def Let_def)
  have "(m11 * x + m12 * y + m13 * z) ^ 2 + (m21 * x + m22 * y + m23 * z) ^ 2
          + (m31 * x + m32 * y + m33 * z) ^ 2
      = x ^ 2 * (m11 * m11 + m21 * m21 + m31 * m31)
        + y ^ 2 * (m12 * m12 + m22 * m22 + m32 * m32)
        + z ^ 2 * (m13 * m13 + m23 * m23 + m33 * m33)
        + 2 * x * y * (m11 * m12 + m21 * m22 + m31 * m32)
        + 2 * x * z * (m11 * m13 + m21 * m23 + m31 * m33)
        + 2 * y * z * (m12 * m13 + m22 * m23 + m32 * m33)"
    by (simp add: power2_eq_square algebra_simps)
  also have "\<dots> = x ^ 2 + y ^ 2 + z ^ 2"
    by (simp add: cols)
  finally show ?thesis
    by (simp add: M v)
qed

lemma random_rotation_map:
  "fst (random_rotation r_list g) = map (mat_vec (fst (RandRotationMatrix 1 None g))) r_list"
  by (simp add: random_rotation_def split: prod.splits)

text \<open>
  C8: for any three numbers in \<open>[0, 1]\<close> and deflection 1 the matrix of
  \<open>RandRotationMatrix\<close> is orthogonal with determinant 1; \<open>random_rotation\<close> draws one
  such matrix and applies it to every vector of the list; so the distance between any
  two of the vectors is the same before and after the rotation.
\<close>

theorem random_rotation_rigid:
  assumes "0 \<le> x1" "x1 \<le> 1" "0 \<le> x2" "x2 \<le> 1" "0 \<le> x3" "x3 \<le> 1"
    and "uniform_rng g"
  shows "orthogonal3 (fst (RandRotationMatrix 1 (Some (x1, x2, x3)) g0)) \<and>
         det3 (fst (RandRotationMatrix 1 (Some (x1, x2, x3)) g0)) = 1 \<and>
         orthogonal3 (fst (RandRotationMatrix 1 None g)) \<and>
         det3 (fst (RandRotationMatrix 1 None g)) = 1 \<and>
         fst (random_rotation r_list g) = map (mat_vec (fst (RandRotationMatrix 1 None g))) r_list \<and>
         (\<forall>i<length r_list. \<forall>j<length r_list.
            vnorm (vsub (fst (random_rotation r_list g) ! i) (fst (random_rotation r_list g) ! j))
              = vnorm (vsub (r_list ! i) (r_list ! j)))"
proof -
  let ?rm = "fst (RandRotationMatrix 1 None g)"
  have given: "orthogonal3 (fst (RandRotationMatrix 1 (Some (x1, x2, x3)) g0))"
      "det3 (fst (RandRotationMatrix 1 (Some (x1, x2, x3)) g0)) = 1"
    using assms by (simp_all add: RandRotationMatrix_orthogonal)
  from assms(7) have u: "0 \<le> unif g (Suc (Suc 0)) * 1" "unif g (Suc (Suc 0)) * 1 \<le> 1"
    by (simp_all add: uniform_rng_def less_imp_le)
  have drawn: "orthogonal3 ?rm" "det3 ?rm = 1"
    unfolding RandRotationMatrix_drawn
    by (rule RandRotationMatrix_orthogonal [OF u])+
  have dist: "vnorm (vsub (fst (random_rotation r_list g) ! i) (fst (random_rotation r_list g) ! j))
      = vnorm (vsub (r_list ! i) (r_list ! j))"
    if "i < length r_list" "j < length r_list" for i j
    using that by (simp add: random_rotation_map mat_vec_vsub orthogonal3_vnorm [OF drawn(1)])
  show ?thesis
    using given drawn dist random_rotation_map by blast
qed

theorem random_rotation_rigid_witness:
  "uniform_rng \<lparr>unif = (\<lambda>_. 1 / 2), gauss = (\<lambda>_. 0)\<rparr> \<and>
   fst (RandRotationMatrix 1 (Some (1 / 2, 1 / 2, 1 / 2)) \<lparr>unif = (\<lambda>_. 1 / 2), gauss = (\<lambda>_. 0)\<rparr>)
     = ((1, 0, 0), (0, 0, - 1), (0, 1, 0)) \<and>
   orthogonal3 ((1, 0, 0), (0, 0, - 1), (0, 1, 0)) \<and>
   det3 ((1, 0, 0), (0, 0, - 1), (0, 1, 0)) = 1 \<and>
   fst (random_rotation [(1, 0, 0), (0, 2, 0)] \<lparr>unif = (\<lambda>_. 1 / 2), gauss = (\<lambda>_. 0)\<rparr>)
     = [(1, 0, 0), (0, 0, 2)] \<and>
   vnorm (vsub (1, 0, 0) (0, 0, 2)) = vnorm (vsub (1, 0, 0) (0, 2, 0))"
proof -
  let ?g = "\<lparr>unif = (\<lambda>_. 1 / 2), gauss = (\<lambda>_. 0)\<rparr>"
  have u: "uniform_rng ?g"
    by (simp add: uniform_rng_def)
  have h: "(0::real) \<le> 1 / 2" "(1::real) / 2 \<le> 1"
    by simp_all
  have M: "fst (RandRotationMatrix 1 (Some (1 / 2, 1 / 2, 1 / 2)) ?g)
      = ((1, 0, 0), (0, 0, - 1), (0, 1, 0))"
    by (simp add: RandRotationMatrix_def Let_def eye3_def)
  have rot: "fst (random_rotation [(1, 0, 0), (0, 2, 0)] ?g) = [(1, 0, 0), (0, 0, 2)]"
    by (simp add: random_rotation_def RandRotationMatrix_def np_random_uniform3_def
        np_random_uniform_def next_unif_def Let_def eye3_def)
  note inst = random_rotation_rigid [of "1 / 2" "1 / 2" "1 / 2" ?g ?g "[(1, 0, 0), (0, 2, 0)]",
      OF h h h u]
  from inst have "orthogonal3 (fst (RandRotationMatrix 1 (Some (1 / 2, 1 / 2, 1 / 2)) ?g))"
      "det3 (fst (RandRotationMatrix 1 (Some (1 / 2, 1 / 2, 1 / 2)) ?g)) = 1"
    by blast+
  then have mat: "orthogonal3 ((1, 0, 0), (0, 0, - 1), (0, 1, 0))"
      "det3 ((1, 0, 0), (0, 0, - 1), (0, 1, 0)) = 1"
    unfolding M .
  from inst have "\<forall>i<length [(1, 0, 0), (0, 2, 0) :: vec3]. \<forall>j<length [(1, 0, 0), (0, 2, 0) :: vec3].
      vnorm (vsub (fst (random_rotation [(1, 0, 0), (0, 2, 0)] ?g) ! i)
                  (fst (random_rotation [(1, 0, 0), (0, 2, 0)] ?g) ! j))
        = vnorm (vsub ([(1, 0, 0), (0, 2, 0)] ! i) ([(1, 0, 0), (0, 2, 0)] ! j))"
    by blast
  from this [rule_format, of 0 1]
  have "vnorm (vsub ([(1, 0, 0), (0, 0, 2)] ! 0) ([(1, 0, 0), (0, 0, 2)] ! 1))
      = vnorm (vsub ([(1, 0, 0), (0, 2, 0)] ! 0) ([(1, 0, 0), (0, 2, 0)] ! 1))"
    unfolding rot by simp
  then have "vnorm (vsub (1, 0, 0) (0, 0, 2)) = vnorm (vsub (1, 0, 0) (0, 2, 0))"
    by simp
  with u M rot mat show ?thesis
    by blast
qed


subsection \<open>The equations of motion\<close>

lemma bindE_Inr: "bindE (Inr x) f = f x"
  by (simp add: bindE_def)

lemma bindE_Inl: "bindE (Inl err) f = Inl err"
  by (simp add: bindE_def)

lemma foldE_append: "foldE f (xs @ ys) s = bindE (foldE f xs s) (foldE f ys)"
  by (induction xs arbitrary: s) (auto simp: bindE_def split: sum.splits)

lemma foldE_upt_Suc: "foldE f [0..<Suc m] s = bindE (foldE f [0..<m] s) (f m)"
  by (simp add: foldE_append bindE_def split: sum.splits)

lemma item_in_range: "i < length xs \<Longrightarrow> item xs i = Inr (xs ! i)"
  by (simp add: item_def)

lemma component_simps: "component v 0 = fst v" "component v (Suc 0) = fst (snd v)" "component v 2 = snd (snd v)"
  by (cases v rule: prod_cases3; simp)+

lemma CoulombForce_component:
  "component (CoulombForce r1 r2 q1 q2) c
     = const_k * q1 * q2 * component (vsub r1 r2) c / vnorm (vsub r1 r2) ^ 3"
  by (cases "vsub r1 r2" rule: prod_cases3) (simp add: CoulombForce_def Let_def)

lemma component_vadd: "component (vadd v w) c = component v c + component w c"
  by (cases v rule: prod_cases3; cases w rule: prod_cases3) simp

lemma component_vdiv: "component (vdiv v s) c = component v c / s"
  by (cases v rule: prod_cases3) simp

text \<open>The inner loop adds up the forces from the atoms other than \<open>n\<close>.\<close>

lemma NewtonEquations_force_loop:
  assumes "n < length charges" and "m \<le> length charges"
  shows "\<exists>force. foldE (NewtonEquations_force y charges n) [0..<m] f0 = Inr force \<and>
           (\<forall>c. component force c = component f0 c +
              (\<Sum>k\<in>{..<m} - {n}. const_k * (charges ! n) * (charges ! k)
                 * component (vsub (position y n) (position y k)) c
                 / vnorm (vsub (position y n) (position y k)) ^ 3))"
  using assms(2)
proof (induction m)
  case 0
  then show ?case by simp
next
  case (Suc m)
  then obtain force where loop: "foldE (NewtonEquations_force y charges n) [0..<m] f0 = Inr force"
    and sum: "\<And>c. component force c = component f0 c +
              (\<Sum>k\<in>{..<m} - {n}. const_k * (charges ! n) * (charges ! k)
                 * component (vsub (position y n) (position y k)) c
                 / vnorm (vsub (position y n) (position y k)) ^ 3)"
    by auto
  show ?case
  proof (cases "m = n")
    case True
    then have set: "{..<Suc m} - {n} = {..<m} - {n}"
      by auto
    have step: "NewtonEquations_force y charges n m force = Inr force"
      using True by (simp add: NewtonEquations_force_def)
    have "foldE (NewtonEquations_force y charges n) [0..<Suc m] f0 = Inr force"
      by (simp only: foldE_upt_Suc loop bindE_Inr step)
    then show ?thesis
      using sum unfolding set by blast
  next
    case False
    then have set: "{..<Suc m} - {n} = insert m ({..<m} - {n})"
      by auto
    let ?f = "vadd force (CoulombForce (position y n) (position y m) (charges ! n) (charges ! m))"
    have step: "NewtonEquations_force y charges n m force = Inr ?f"
      using False assms(1) Suc.prems
      by (simp add: NewtonEquations_force_def Let_def item_in_range bindE_Inr position_def)
    have run: "foldE (NewtonEquations_force y charges n) [0..<Suc m] f0 = Inr ?f"
      by (simp only: foldE_upt_Suc loop bindE_Inr step)
    have "component ?f c = component f0 c +
              (\<Sum>k\<in>{..<Suc m} - {n}. const_k * (charges ! n) * (charges ! k)
                 * component (vsub (position y n) (position y k)) c
                 / vnorm (vsub (position y n) (position y k)) ^ 3)" for c
      unfolding set by (simp add: component_vadd CoulombForce_component sum)
    with run show ?thesis
      by blast
  qed
qed

lemma less_3_cases: "c < 3 \<longleftrightarrow> c = 0 \<or> c = Suc 0 \<or> c = (2::nat)"
  by auto

text \<open>
  One pass of the outer loop writes the velocity and the acceleration of atom \<open>n\<close> and
  leaves the entries of the other atoms as they are.
\<close>

lemma NewtonEquations_atom_result:
  assumes n: "n < N" and lc: "length charges = N" and lm: "length masses = N"
    and ld: "length dydt = 6 * N"
  shows "\<exists>d. NewtonEquations_atom y charges masses N n dydt = Inr d \<and> length d = 6 * N \<and>
           (\<forall>c<3. d ! (3 * n + c) = y ! (3 * N + 3 * n + c) \<and>
                   d ! (3 * N + 3 * n + c) = spec_acceleration y charges masses N n c) \<and>
           (\<forall>i<N. i \<noteq> n \<longrightarrow> (\<forall>c<3. d ! (3 * i + c) = dydt ! (3 * i + c) \<and>
                   d ! (3 * N + 3 * i + c) = dydt ! (3 * N + 3 * i + c)))"
proof -
  from NewtonEquations_force_loop [of n charges N y "(0, 0, 0)"] n lc
  obtain force where loop: "foldE (NewtonEquations_force y charges n) [0..<N] (0, 0, 0) = Inr force"
    and sum: "\<And>c. component force c =
              (\<Sum>k\<in>{..<N} - {n}. const_k * (charges ! n) * (charges ! k)
                 * component (vsub (position y n) (position y k)) c
                 / vnorm (vsub (position y n) (position y k)) ^ 3)"
    by auto
  obtain fx fy fz where force: "force = (fx, fy, fz)"
    by (metis prod_cases3)
  have acc: "component force c / masses ! n = spec_acceleration y charges masses N n c" for c
    by (simp add: spec_acceleration_def sum)
  let ?m = "masses ! n"
  let ?d = "dydt[3 * n := y ! (3 * N + 3 * n), 3 * n + 1 := y ! (3 * N + 3 * n + 1),
                 3 * n + 2 := y ! (3 * N + 3 * n + 2),
                 3 * N + 3 * n := fx / ?m, 3 * N + 3 * n + 1 := fy / ?m,
                 3 * N + 3 * n + 2 := fz / ?m]"
  have run: "NewtonEquations_atom y charges masses N n dydt = Inr ?d"
    using n lm by (simp add: NewtonEquations_atom_def Let_def loop bindE_Inr item_in_range force)
  have len: "length ?d = 6 * N"
    using ld by simp
  have own: "?d ! (3 * n + c) = y ! (3 * N + 3 * n + c) \<and>
             ?d ! (3 * N + 3 * n + c) = spec_acceleration y charges masses N n c" if "c < 3" for c
  proof -
    have a: "fx / ?m = spec_acceleration y charges masses N n 0"
        "fy / ?m = spec_acceleration y charges masses N n (Suc 0)"
        "fz / ?m = spec_acceleration y charges masses N n 2"
      using acc [of 0] acc [of "Suc 0"] acc [of 2] by (simp_all add: force)
    from that consider "c = 0" | "c = Suc 0" | "c = 2"
      by (auto simp: less_3_cases)
    then show ?thesis
      using n ld by cases (simp_all add: a)
  qed
  have other: "?d ! (3 * i + c) = dydt ! (3 * i + c) \<and>
               ?d ! (3 * N + 3 * i + c) = dydt ! (3 * N + 3 * i + c)"
    if "i < N" "i \<noteq> n" "c < 3" for i c
    using that n by simp
  from run len own other show ?thesis
    by blast
qed

text \<open>The outer loop, up to atom \<open>m\<close>.\<close>

lemma NewtonEquations_loop:
  assumes lc: "length charges = N" and lm: "length masses = N" and m: "m \<le> N"
  shows "\<exists>d. foldE (NewtonEquations_atom y charges masses N) [0..<m] (replicate (6 * N) 0) = Inr d \<and>
           length d = 6 * N \<and>
           (\<forall>i<m. \<forall>c<3. d ! (3 * i + c) = y ! (3 * N + 3 * i + c) \<and>
                   d ! (3 * N + 3 * i + c) = spec_acceleration y charges masses N i c)"
  using m
proof (induction m)
  case 0
  then show ?case by simp
next
  case (Suc m)
  then obtain d where loop: "foldE (NewtonEquations_atom y charges masses N) [0..<m]
        (replicate (6 * N) 0) = Inr d"
    and len: "length d = 6 * N"
    and prev: "\<And>i c. i < m \<Longrightarrow> c < 3 \<Longrightarrow> d ! (3 * i + c) = y ! (3 * N + 3 * i + c) \<and>
                   d ! (3 * N + 3 * i + c) = spec_acceleration y charges masses N i c"
    by auto
  from Suc.prems have mN: "m < N"
    by simp
  from NewtonEquations_atom_result [OF mN lc lm len, of y]
  obtain d' where step: "NewtonEquations_atom y charges masses N m d = Inr d'"
    and len': "length d' = 6 * N"
    and own: "\<And>c. c < 3 \<Longrightarrow> d' ! (3 * m + c) = y ! (3 * N + 3 * m + c) \<and>
                   d' ! (3 * N + 3 * m + c) = spec_acceleration y charges masses N m c"
    and other: "\<And>i c. i < N \<Longrightarrow> i \<noteq> m \<Longrightarrow> c < 3 \<Longrightarrow> d' ! (3 * i + c) = d ! (3 * i + c) \<and>
                   d' ! (3 * N + 3 * i + c) = d ! (3 * N + 3 * i + c)"
    by blast
  have run: "foldE (NewtonEquations_atom y charges masses N) [0..<Suc m] (replicate (6 * N) 0) = Inr d'"
    by (simp only: foldE_upt_Suc loop bindE_Inr step)
  have "d' ! (3 * i + c) = y ! (3 * N + 3 * i + c) \<and>
        d' ! (3 * N + 3 * i + c) = spec_acceleration y charges masses N i c"
    if "i < Suc m" "c < 3" for i c
  proof (cases "i = m")
    case True
    then show ?thesis using own [OF that(2)] by simp
  next
    case False
    with that mN have "i < m" "i < N" by simp_all
    then show ?thesis
      using other [OF \<open>i < N\<close> False that(2)] prev [OF \<open>i < m\<close> that(2)] by simp
  qed
  with run len' show ?case
    by blast
qed

lemma NewtonEquations_two_body:
  "NewtonEquations two_body_sim t two_body_state
     = Inr [0, 0, 0, 0, 0, 0, - const_k, 0, 0, const_k, 0, 0]"
proof -
  have n: "length two_body_state div 6 = Suc (Suc 0)"
    by (simp add: two_body_state_def)
  have upt: "[0..<Suc (Suc 0)] = [0, Suc 0]"
    by simp
  show ?thesis
    unfolding NewtonEquations_def Let_def n upt
    by (simp add: two_body_sim_def two_body_sampler_def attr_def item_def bindE_def
        NewtonEquations_atom_def NewtonEquations_force_def CoulombForce_def Let_def
        two_body_state_def)
qed

text \<open>
  C3: for a state vector \<open>y\<close> of length \<open>6 n\<close> whose atoms are at pairwise distinct
  positions, \<open>NewtonEquations\<close> returns a derivative of the same length whose first half
  is the velocity half of \<open>y\<close> and whose entries for atom \<open>i\<close> in the second half are the
  sum over the other atoms \<open>j\<close> of \<open>k q\<^sub>i q\<^sub>j (r\<^sub>i - r\<^sub>j) / |r\<^sub>i - r\<^sub>j|\<^sup>3\<close>, divided by \<open>m\<^sub>i\<close>:
  the sum has no term for \<open>j = i\<close>, and the distance is not softened.
\<close>

theorem NewtonEquations_derivative:
  assumes cl: "samp_charges_list (starting_conditions self) = Some charges_list"
    and ml: "samp_masses_list (starting_conditions self) = Some masses_list"
    and sc: "sim_counter self = Some s"
    and s: "s < length charges_list" "s < length masses_list"
    and lc: "length (charges_list ! s) = n"
    and lm: "length (masses_list ! s) = n"
    and ly: "length y = 6 * n"
    and distinct: "\<forall>i<n. \<forall>j<n. i \<noteq> j \<longrightarrow> position y i \<noteq> position y j"
  shows "\<exists>dydt. NewtonEquations self t y = Inr dydt \<and> length dydt = 6 * n \<and>
           (\<forall>j<3 * n. dydt ! j = y ! (3 * n + j)) \<and>
           (\<forall>i<n. \<forall>c<3. dydt ! (3 * n + 3 * i + c)
              = spec_acceleration y (charges_list ! s) (masses_list ! s) n i c)"
proof -
  from NewtonEquations_loop [OF lc lm order_refl, of y]
  obtain d where loop: "foldE (NewtonEquations_atom y (charges_list ! s) (masses_list ! s) n)
        [0..<n] (replicate (6 * n) 0) = Inr d"
    and len: "length d = 6 * n"
    and entries: "\<And>i c. i < n \<Longrightarrow> c < 3 \<Longrightarrow> d ! (3 * i + c) = y ! (3 * n + 3 * i + c) \<and>
        d ! (3 * n + 3 * i + c) = spec_acceleration y (charges_list ! s) (masses_list ! s) n i c"
    by blast
  have run: "NewtonEquations self t y = Inr d"
    using s by (simp add: NewtonEquations_def cl ml sc attr_def bindE_Inr item_in_range ly loop)
  have "d ! j = y ! (3 * n + j)" if "j < 3 * n" for j
  proof -
    from that have "j div 3 < n" "j mod 3 < 3"
      by (simp_all add: less_mult_imp_div_less mult.commute)
    from entries [OF this] show ?thesis
      by (simp add: add.assoc)
  qed
  with run len entries show ?thesis
    by blast
qed

theorem NewtonEquations_derivative_witness:
  "length two_body_state = 6 * 2 \<and>
   distinct_positions 2 two_body_state \<and>
   NewtonEquations two_body_sim 0 two_body_state
     = Inr [0, 0, 0, 0, 0, 0, - const_k, 0, 0, const_k, 0, 0] \<and>
   spec_acceleration two_body_state [1, 1] [1, 1] 2 0 0 = - const_k \<and>
   spec_acceleration two_body_state [1, 1] [1, 1] 2 1 0 = const_k"
proof -
  have ly: "length two_body_state = 6 * 2"
    by (simp add: two_body_state_def)
  have distinct: "\<forall>i<2. \<forall>j<2. i \<noteq> j \<longrightarrow> position two_body_state i \<noteq> position two_body_state j"
    by (simp add: position_def two_body_state_def less_2_cases_iff)
  have
    "\<exists>dydt. NewtonEquations two_body_sim 0 two_body_state = Inr dydt \<and> length dydt = 6 * 2 \<and>
       (\<forall>j<3 * 2. dydt ! j = two_body_state ! (3 * 2 + j)) \<and>
       (\<forall>i<2. \<forall>c<3. dydt ! (3 * 2 + 3 * i + c)
          = spec_acceleration two_body_state ([[1, 1]] ! 0) ([[1, 1]] ! 0) 2 i c)"
    by (rule NewtonEquations_derivative [OF _ _ _ _ _ _ _ ly distinct])
       (simp_all add: two_body_sim_def two_body_sampler_def)
  then have acc: "\<forall>i<2. \<forall>c<3.
      [0, 0, 0, 0, 0, 0, - const_k, 0, 0, const_k, 0, 0] ! (3 * 2 + 3 * i + c)
        = spec_acceleration two_body_state [1, 1] [1, 1] 2 i c"
    by (simp add: NewtonEquations_two_body)
  from acc [rule_format, of 0 0] acc [rule_format, of 1 0]
  have "spec_acceleration two_body_state [1, 1] [1, 1] 2 0 0 = - const_k"
       "spec_acceleration two_body_state [1, 1] [1, 1] 2 1 0 = const_k"
    by simp_all
  moreover from distinct have "distinct_positions 2 two_body_state"
    by (simp only: distinct_positions_def)
  ultimately show ?thesis
    using ly NewtonEquations_two_body by blast
qed


subsection \<open>Conservation of momentum\<close>

lemma NewtonEquations_result:
  assumes cl: "samp_charges_list (starting_conditions self) = Some charges_list"
    and ml: "samp_masses_list (starting_conditions self) = Some masses_list"
    and sc: "sim_counter self = Some s"
    and s: "s < length charges_list" "s < length masses_list"
    and lc: "length (charges_list ! s) = n"
    and lm: "length (masses_list ! s) = n"
    and ly: "length y = 6 * n"
  shows "\<exists>dydt. NewtonEquations self t y = Inr dydt \<and> length dydt = 6 * n \<and>
           (\<forall>i<n. \<forall>c<3. dydt ! (3 * i + c) = y ! (3 * n + 3 * i + c) \<and>
              dydt ! (3 * n + 3 * i + c)
                = spec_acceleration y (charges_list ! s) (masses_list ! s) n i c)"
proof -
  from NewtonEquations_loop [OF lc lm order_refl, of y]
  obtain d where loop: "foldE (NewtonEquations_atom y (charges_list ! s) (masses_list ! s) n)
        [0..<n] (replicate (6 * n) 0) = Inr d"
    and len: "length d = 6 * n"
    and entries: "\<And>i c. i < n \<Longrightarrow> c < 3 \<Longrightarrow> d ! (3 * i + c) = y ! (3 * n + 3 * i + c) \<and>
        d ! (3 * n + 3 * i + c) = spec_acceleration y (charges_list ! s) (masses_list ! s) n i c"
    by blast
  have run: "NewtonEquations self t y = Inr d"
    using s by (simp add: NewtonEquations_def cl ml sc attr_def bindE_Inr item_in_range ly loop)
  with len entries show ?thesis
    by blast
qed

lemma antisymmetric_double_sum:
  fixes G :: "nat \<Rightarrow> nat \<Rightarrow> real"
  assumes anti: "\<And>i j. G i j = - G j i"
  shows "(\<Sum>i<n. \<Sum>j\<in>{..<n} - {i}. G i j) = 0"
proof -
  have diag: "G i i = 0" for i
    using anti [of i i] by simp
  have "(\<Sum>j\<in>{..<n} - {i}. G i j) = (\<Sum>j<n. G i j)" if "i < n" for i
    using that sum.remove [of "{..<n}" i "G i"] by (simp add: diag)
  then have "(\<Sum>i<n. \<Sum>j\<in>{..<n} - {i}. G i j) = (\<Sum>i<n. \<Sum>j<n. G i j)"
    by simp
  also have "\<dots> = (\<Sum>j<n. \<Sum>i<n. G i j)"
    by (rule sum.swap)
  also have "\<dots> = (\<Sum>j<n. \<Sum>i<n. - G j i)"
    by (subst anti) (rule refl)
  also have "\<dots> = - (\<Sum>i<n. \<Sum>j<n. G i j)"
    by (simp add: sum_negf)
  finally have "(\<Sum>i<n. \<Sum>j\<in>{..<n} - {i}. G i j) = - (\<Sum>i<n. \<Sum>j<n. G i j)" .
  moreover have "(\<Sum>i<n. \<Sum>j\<in>{..<n} - {i}. G i j) = (\<Sum>i<n. \<Sum>j<n. G i j)"
    by fact
  ultimately show ?thesis
    by simp
qed

lemma vnorm_vsub_commute: "vnorm (vsub a b) = vnorm (vsub b a)"
  by (cases a rule: prod_cases3; cases b rule: prod_cases3) (simp add: power2_commute)

lemma component_vsub_commute: "component (vsub a b) c = - component (vsub b a) c"
  by (cases a rule: prod_cases3; cases b rule: prod_cases3) simp

text \<open>The forces on the atoms add up to zero.\<close>

lemma spec_acceleration_balance:
  assumes "\<forall>i<n. masses ! i \<noteq> 0"
  shows "(\<Sum>i<n. masses ! i * spec_acceleration y charges masses n i c) = 0"
proof -
  let ?G = "\<lambda>i j. const_k * (charges ! i) * (charges ! j)
      * component (vsub (position y i) (position y j)) c
      / vnorm (vsub (position y i) (position y j)) ^ 3"
  have "masses ! i * spec_acceleration y charges masses n i c = (\<Sum>j\<in>{..<n} - {i}. ?G i j)"
    if "i < n" for i
    using that assms by (simp add: spec_acceleration_def)
  then have "(\<Sum>i<n. masses ! i * spec_acceleration y charges masses n i c)
      = (\<Sum>i<n. \<Sum>j\<in>{..<n} - {i}. ?G i j)"
    by simp
  also have "\<dots> = 0"
  proof (rule antisymmetric_double_sum)
    fix i j
    show "?G i j = - ?G j i"
      by (simp add: vnorm_vsub_commute [of "position y i"]
          component_vsub_commute [of "position y i"])
  qed
  finally show ?thesis .
qed

lemma momentum_axpy:
  assumes "length x = 6 * n" and "length y = 6 * n" and "c < 3"
  shows "momentum masses n (axpy a x y) c = a * momentum masses n x c + momentum masses n y c"
proof -
  have "axpy a x y ! (3 * n + 3 * i + c) = a * x ! (3 * n + 3 * i + c) + y ! (3 * n + 3 * i + c)"
    if "i < n" for i
    using that assms by (simp add: axpy_def)
  then show ?thesis
    by (simp add: momentum_def sum.distrib sum_distrib_left algebra_simps)
qed

lemma length_axpy: "length x = length y \<Longrightarrow> length (axpy a x y) = length y"
  by (simp add: axpy_def)

lemma momentum_combine:
  assumes "\<forall>d\<in>set ds. length d = 6 * n \<and> momentum masses n d c = 0"
    and "length y = 6 * n" and "c < 3"
  shows "length (combine y (zip ws ds)) = 6 * n \<and>
         momentum masses n (combine y (zip ws ds)) c = momentum masses n y c"
  using assms(1,2)
proof (induction ds arbitrary: ws y)
  case Nil
  then show ?case by simp
next
  case (Cons d ds)
  show ?case
  proof (cases ws)
    case Nil
    with Cons.prems show ?thesis by simp
  next
    case (Cons w ws')
    from Cons.prems have d: "length d = 6 * n" "momentum masses n d c = 0"
      by simp_all
    have "length (axpy w d y) = 6 * n"
      using d Cons.prems by (simp add: length_axpy)
    moreover have "momentum masses n (axpy w d y) c = momentum masses n y c"
      using d Cons.prems assms(3) by (simp add: momentum_axpy)
    ultimately show ?thesis
      using Cons.IH [of "axpy w d y" ws'] Cons.prems Cons by simp
  qed
qed

lemma current_trajectoryD:
  assumes "current_trajectory self charges masses"
  obtains charges_list masses_list s where
    "samp_charges_list (starting_conditions self) = Some charges_list"
    "samp_masses_list (starting_conditions self) = Some masses_list"
    "sim_counter self = Some s" "s < length charges_list" "s < length masses_list"
    "charges = charges_list ! s" "masses = masses_list ! s"
  using assms by (auto simp: current_trajectory_def split: option.splits)

text \<open>The derivative of a state has no net rate of momentum.\<close>

lemma NewtonEquations_momentum_rate:
  assumes traj: "current_trajectory self charges masses"
    and lc: "length charges = n" and lm: "length masses = n"
    and nz: "\<forall>i<n. masses ! i \<noteq> 0"
    and ly: "length y = 6 * n"
  shows "\<exists>dydt. NewtonEquations self t y = Inr dydt \<and> length dydt = 6 * n \<and>
           (\<forall>c<3. momentum masses n dydt c = 0)"
proof -
  from traj obtain charges_list masses_list s where
    f: "samp_charges_list (starting_conditions self) = Some charges_list"
      "samp_masses_list (starting_conditions self) = Some masses_list"
      "sim_counter self = Some s" "s < length charges_list" "s < length masses_list"
    and eq: "charges = charges_list ! s" "masses = masses_list ! s"
    by (rule current_trajectoryD)
  from NewtonEquations_result [OF f, of n y t] lc lm ly
  obtain d where run: "NewtonEquations self t y = Inr d" and len: "length d = 6 * n"
    and entries: "\<And>i c. i < n \<Longrightarrow> c < 3 \<Longrightarrow>
        d ! (3 * n + 3 * i + c) = spec_acceleration y charges masses n i c"
    unfolding eq by blast
  have "momentum masses n d c = 0" if "c < 3" for c
  proof -
    have "momentum masses n d c = (\<Sum>i<n. masses ! i * spec_acceleration y charges masses n i c)"
      using that by (simp add: momentum_def entries)
    then show ?thesis
      by (simp add: spec_acceleration_balance [OF nz])
  qed
  with run len show ?thesis
    by blast
qed

lemma integrator_step_momentum:
  assumes step: "integrator_step self y y'"
    and traj: "current_trajectory self charges masses"
    and lc: "length charges = n" and lm: "length masses = n"
    and nz: "\<forall>i<n. masses ! i \<noteq> 0"
    and ly: "length y = 6 * n"
  shows "length y' = 6 * n \<and> (\<forall>c<3. momentum masses n y' c = momentum masses n y c)"
  using step
proof cases
  case (stages stage_list ds ws)
  have ds: "length d = 6 * n \<and> momentum masses n d c = 0" if "d \<in> set ds" "c < 3" for d c
  proof -
    from that(1) obtain k where k: "k < length ds" "d = ds ! k"
      by (auto simp: in_set_conv_nth)
    with stages(2) have len: "length (snd (stage_list ! k)) = 6 * n"
      and run: "NewtonEquations self (fst (stage_list ! k)) (snd (stage_list ! k)) = Inr d"
      by (auto simp: list_all2_conv_all_nth ly)
    from NewtonEquations_momentum_rate [OF traj lc lm nz len, of "fst (stage_list ! k)"] run that(2)
    show ?thesis
      by auto
  qed
  have "length (combine y (zip ws ds)) = 6 * n \<and>
        momentum masses n (combine y (zip ws ds)) c = momentum masses n y c" if "c < 3" for c
    using ds that by (intro momentum_combine ly) auto
  from this [of 0] this show ?thesis
    unfolding stages(1) by simp
qed

lemma trajectory_momentum:
  assumes steps: "(integrator_step self)\<^sup>*\<^sup>* y y'"
    and traj: "current_trajectory self charges masses"
    and lc: "length charges = n" and lm: "length masses = n"
    and nz: "\<forall>i<n. masses ! i \<noteq> 0"
    and ly: "length y = 6 * n"
  shows "length y' = 6 * n \<and> (\<forall>c<3. momentum masses n y' c = momentum masses n y c)"
  using steps
proof (induction rule: rtranclp_induct)
  case base
  show ?case by (simp add: ly)
next
  case (step y1 y2)
  from integrator_step_momentum [OF step.hyps(2) traj lc lm nz] step.IH
  show ?case by simp
qed

lemma momentum_two: "momentum masses 2 y c = masses ! 0 * y ! (6 + c) + masses ! 1 * y ! (9 + c)"
  by (simp add: momentum_def numeral_2_eq_2 add.commute)

lemma momentum_at_rest:
  "c < 3 \<Longrightarrow> momentum masses 2 [x0, y0, z0, x1, y1, z1, 0, 0, 0, 0, 0, 0] c = 0"
  by (auto simp: momentum_two less_3_cases nth_Cons')

text \<open>
  C5: for a state with pairwise distinct positions the accelerations that
  \<open>NewtonEquations\<close> returns satisfy \<open>\<Sum>\<^sub>i m\<^sub>i a\<^sub>i = 0\<close>, so every state reached from it by
  steps of the integrator has the total momentum of the first one; for two atoms of
  equal mass and charge that start at rest at \<open>\<plusminus>d/2\<close> on one axis, the velocities in
  every such state are equal and opposite and the total momentum is zero.
\<close>

theorem momentum_conserved:
  assumes traj: "current_trajectory self charges masses"
    and lc: "length charges = n" and lm: "length masses = n"
    and nz: "\<forall>i<n. masses ! i \<noteq> 0"
    and ly: "length y = 6 * n"
    and distinct: "distinct_positions n y"
  shows "(\<exists>dydt. NewtonEquations self t y = Inr dydt \<and>
            (\<forall>c<3. (\<Sum>i<n. masses ! i * dydt ! (3 * n + 3 * i + c)) = 0)) \<and>
         (\<forall>y'. (integrator_step self)\<^sup>*\<^sup>* y y' \<longrightarrow>
            (\<forall>c<3. momentum masses n y' c = momentum masses n y c)) \<and>
         (n = 2 \<and> masses ! 0 = masses ! 1 \<and> charges ! 0 = charges ! 1 \<and>
          y = [- (d / 2), 0, 0, d / 2, 0, 0, 0, 0, 0, 0, 0, 0] \<longrightarrow>
            (\<forall>y'. (integrator_step self)\<^sup>*\<^sup>* y y' \<longrightarrow>
               (\<forall>c<3. y' ! (6 + c) = - y' ! (9 + c) \<and> momentum masses n y' c = 0)))"
proof -
  from NewtonEquations_momentum_rate [OF traj lc lm nz ly, of t]
  have rate: "\<exists>dydt. NewtonEquations self t y = Inr dydt \<and>
            (\<forall>c<3. (\<Sum>i<n. masses ! i * dydt ! (3 * n + 3 * i + c)) = 0)"
    by (auto simp: momentum_def)
  have kept: "momentum masses n y' c = momentum masses n y c"
    if "(integrator_step self)\<^sup>*\<^sup>* y y'" "c < 3" for y' c
    using trajectory_momentum [OF that(1) traj lc lm nz ly] that(2) by blast
  have opposite: "y' ! (6 + c) = - y' ! (9 + c) \<and> momentum masses n y' c = 0"
    if two: "n = 2 \<and> masses ! 0 = masses ! 1 \<and> charges ! 0 = charges ! 1 \<and>
          y = [- (d / 2), 0, 0, d / 2, 0, 0, 0, 0, 0, 0, 0, 0]"
      and steps: "(integrator_step self)\<^sup>*\<^sup>* y y'" and c: "c < 3" for y' c
  proof -
    have "momentum masses n y' c = momentum masses n y c"
      by (rule kept [OF steps c])
    also have "\<dots> = 0"
      using two c by (simp add: momentum_at_rest)
    finally have zero: "momentum masses n y' c = 0" .
    from nz two have m: "masses ! 1 \<noteq> 0"
      by simp
    from zero two have "masses ! 1 * (y' ! (6 + c) + y' ! (9 + c)) = 0"
      by (simp add: momentum_two distrib_left)
    with m have "y' ! (6 + c) + y' ! (9 + c) = 0"
      by simp
    with zero show ?thesis
      by (simp add: add_eq_0_iff)
  qed
  from rate kept opposite show ?thesis
    by blast
qed


theorem momentum_conserved_witness:
  "current_trajectory two_body_sim [1, 1] [1, 1] \<and>
   list_all (\<lambda>m. m \<noteq> 0) [1, 1 :: real] \<and>
   length two_body_state = 6 * 2 \<and>
   distinct_positions 2 two_body_state \<and>
   (integrator_step two_body_sim)\<^sup>*\<^sup>* two_body_state
      [- 1 / 2, 0, 0, 1 / 2, 0, 0, - const_k, 0, 0, const_k, 0, 0] \<and>
   momentum [1, 1] 2 [- 1 / 2, 0, 0, 1 / 2, 0, 0, - const_k, 0, 0, const_k, 0, 0] 0 = 0 \<and>
   [- 1 / 2, 0, 0, 1 / 2, 0, 0, - const_k, 0, 0, const_k, 0, 0] ! (6 + 0)
     = - [- 1 / 2, 0, 0, 1 / 2, 0, 0, - const_k, 0, 0, const_k, 0, 0] ! (9 + 0)"
proof -
  let ?y1 = "[- 1 / 2, 0, 0, 1 / 2, 0, 0, - const_k, 0, 0, const_k, 0, 0]"
  let ?d = "[0, 0, 0, 0, 0, 0, - const_k, 0, 0, const_k, 0, 0]"
  have traj: "current_trajectory two_body_sim [1, 1] [1, 1]"
    by (simp add: current_trajectory_def two_body_sim_def two_body_sampler_def)
  have nz: "\<forall>i<2. [1, 1 :: real] ! i \<noteq> 0"
    by (simp add: less_2_cases_iff)
  have ly: "length two_body_state = 6 * 2"
    by (simp add: two_body_state_def)
  have distinct: "distinct_positions 2 two_body_state"
    by (simp add: distinct_positions_def position_def two_body_state_def less_2_cases_iff)
  have div: "length two_body_state div 6 = 2"
    by (simp add: two_body_state_def)
  have "list_all2 (\<lambda>stage d. length (snd stage) = length two_body_state \<and>
          distinct_positions (length two_body_state div 6) (snd stage) \<and>
          NewtonEquations two_body_sim (fst stage) (snd stage) = Inr d)
        [(0, two_body_state)] [?d]"
    using distinct by (simp add: NewtonEquations_two_body div)
  then have "integrator_step two_body_sim two_body_state (combine two_body_state (zip [1] [?d]))"
    by (rule integrator_step.stages) simp
  moreover have "combine two_body_state (zip [1] [?d]) = ?y1"
    by (simp add: axpy_def two_body_state_def)
  ultimately have "integrator_step two_body_sim two_body_state ?y1"
    by (simp only:)
  then have steps: "(integrator_step two_body_sim)\<^sup>*\<^sup>* two_body_state ?y1"
    by (rule r_into_rtranclp)
  have start: "(2::nat) = 2 \<and> [1, 1 :: real] ! 0 = [1, 1] ! 1 \<and> [1, 1 :: real] ! 0 = [1, 1] ! 1 \<and>
      two_body_state = [- (1 / 2), 0, 0, 1 / 2, 0, 0, 0, 0, 0, 0, 0, 0]"
    by (simp add: two_body_state_def)
  have lc: "length [1, 1 :: real] = 2"
    by simp
  note inst = momentum_conserved [OF traj lc lc nz ly distinct, of 0 1]
  from inst have "\<forall>y'. (integrator_step two_body_sim)\<^sup>*\<^sup>* two_body_state y' \<longrightarrow>
      (\<forall>c<3. y' ! (6 + c) = - y' ! (9 + c) \<and> momentum [1, 1] 2 y' c = 0)"
    using start by blast
  with steps have "\<forall>c<3. ?y1 ! (6 + c) = - ?y1 ! (9 + c) \<and> momentum [1, 1] 2 ?y1 c = 0"
    by blast
  from this [rule_format, of 0]
  have "?y1 ! (6 + 0) = - ?y1 ! (9 + 0)" "momentum [1, 1] 2 ?y1 0 = 0"
    by simp_all
  moreover have "list_all (\<lambda>m. m \<noteq> 0) [1, 1 :: real]"
    by simp
  ultimately show ?thesis
    using traj ly distinct steps by blast
qed


subsection \<open>Time bins\<close>

lemma fold_min_Min: "fold min xs (x::real) = Min (set (x # xs))"
  by (metis Min.set_eq_fold)

lemma fold_max_Max: "fold max xs (x::real) = Max (set (x # xs))"
  by (metis Max.set_eq_fold)

lemma np_min_Min: "xs \<noteq> [] \<Longrightarrow> np_min xs = Inr (Min (set xs))"
  by (cases xs) (simp_all add: np_min_def fold_min_Min)

lemma np_max_Max: "xs \<noteq> [] \<Longrightarrow> np_max xs = Inr (Max (set xs))"
  by (cases xs) (simp_all add: np_max_def fold_max_Max)

lemma np_linspace_simps:
  "n < 0 \<Longrightarrow> np_linspace a b n = Inl ValueError"
  "\<not> n < 0 \<Longrightarrow> np_linspace a b n = Inr (linspace_values a b (nat n))"
  by (simp_all add: np_linspace_def)

text \<open>The loop of \<^verbatim>\<open>make_timebins\<close> collects the samples of each range in turn.\<close>

lemma make_timebins_loop:
  "foldE (\<lambda>(t_range, n_step) tsteps_list.
            bindE (np_linspace (fst t_range) (snd t_range) n_step) (\<lambda>t_steps.
              Inr (tsteps_list @ [t_steps]))) zs acc
     = (if \<exists>n\<in>set (map snd zs). n < 0 then Inl ValueError
        else Inr (acc @ map (\<lambda>((t1, t2), n). linspace_values t1 t2 (nat n)) zs))"
proof (induction zs arbitrary: acc)
  case Nil
  then show ?case by simp
next
  case (Cons z zs)
  obtain t1 t2 n where z: "z = ((t1, t2), n)"
    by (metis prod.collapse)
  show ?case
    by (cases "n < 0") (simp_all add: z np_linspace_simps bindE_Inr bindE_Inl Cons.IH)
qed

lemma linspace_values_plain:
  "linspace_values start stop num
     = map (\<lambda>i. start + real i * ((stop - start) / real (num - 1))) [0..<num]"
  by (auto simp: linspace_values_def)

lemma linspace_values_bounds:
  assumes "start \<le> stop" and "x \<in> set (linspace_values start stop num)"
  shows "start \<le> x \<and> x \<le> stop"
proof -
  from assms(2) obtain i where i: "i < num" and x: "x = start + real i * ((stop - start) / real (num - 1))"
    by (auto simp: linspace_values_plain)
  have "0 \<le> real i * ((stop - start) / real (num - 1))"
    using assms(1) by simp
  moreover have "real i * ((stop - start) / real (num - 1)) \<le> stop - start"
  proof (cases "num - 1 = 0")
    case True
    with i have "i = 0" by simp
    with assms(1) show ?thesis by simp
  next
    case False
    from i have "real i \<le> real (num - 1)" by simp
    then have "real i * (stop - start) \<le> real (num - 1) * (stop - start)"
      using assms(1) by (intro mult_right_mono) simp_all
    with False show ?thesis
      by (simp add: field_simps)
  qed
  ultimately show ?thesis
    using x by simp
qed

lemma linspace_values_sorted:
  assumes "start \<le> stop"
  shows "sorted (linspace_values start stop num)"
proof -
  define c where "c = (stop - start) / real (num - 1)"
  have c: "0 \<le> c"
    using assms by (simp add: c_def)
  have vals: "linspace_values start stop num = map (\<lambda>i. start + real i * c) [0..<num]"
    by (simp add: linspace_values_plain c_def)
  have "start + real i * c \<le> start + real j * c" if "i \<le> j" for i j
    by (intro add_left_mono mult_right_mono) (use that c in simp_all)
  then show ?thesis
    by (simp add: vals sorted_iff_nth_mono)
qed

lemma all_samples_Cons:
  "all_samples (((t1, t2), n) # zs) = linspace_values t1 t2 (nat n) @ all_samples zs"
  by (simp add: all_samples_def)

lemma all_samples_lower:
  assumes "ordered_ranges (map fst zs)" and "zs \<noteq> []" and "x \<in> set (all_samples zs)"
  shows "fst (fst (hd zs)) \<le> x"
  using assms
proof (induction "map fst zs" arbitrary: zs rule: ordered_ranges.induct)
  case 1
  then show ?case by simp
next
  case (2 a b)
  then obtain n where "zs = [((a, b), n)]"
    by (cases zs) auto
  with 2 show ?case
    using linspace_values_bounds [of a b x "nat n"] by (simp add: all_samples_def)
next
  case (3 a b c d rest)
  then obtain n zs' where zs: "zs = ((a, b), n) # zs'" and rest: "map fst zs' = (c, d) # rest"
    by (cases zs) auto
  from rest have ne: "zs' \<noteq> []" and hd: "fst (fst (hd zs')) = c"
    by (cases zs'; auto)+
  from 3 rest have ord: "a \<le> b" "b \<le> c" "ordered_ranges (map fst zs')"
    by (simp_all add: zs)
  from "3.prems" consider "x \<in> set (linspace_values a b (nat n))" | "x \<in> set (all_samples zs')"
    by (auto simp: zs all_samples_Cons)
  then show ?case
  proof cases
    case 1
    then show ?thesis
      using linspace_values_bounds [OF ord(1)] by (simp add: zs)
  next
    case 2
    from "3.hyps"(1) [OF rest [symmetric] ord(3) ne 2] hd ord show ?thesis
      by (simp add: zs)
  qed
qed

lemma all_samples_sorted:
  assumes "ordered_ranges (map fst zs)"
  shows "sorted (all_samples zs)"
  using assms
proof (induction "map fst zs" arbitrary: zs rule: ordered_ranges.induct)
  case 1
  then show ?case by (simp add: all_samples_def)
next
  case (2 a b)
  then obtain n where "zs = [((a, b), n)]"
    by (cases zs) auto
  with 2 show ?case
    by (simp add: all_samples_def linspace_values_sorted)
next
  case (3 a b c d rest)
  then obtain n zs' where zs: "zs = ((a, b), n) # zs'" and rest: "map fst zs' = (c, d) # rest"
    by (cases zs) auto
  from rest have ne: "zs' \<noteq> []" and hd: "fst (fst (hd zs')) = c"
    by (cases zs'; auto)+
  from 3 rest have ord: "a \<le> b" "b \<le> c" "ordered_ranges (map fst zs')"
    by (simp_all add: zs)
  have "x \<le> y" if "x \<in> set (linspace_values a b (nat n))" "y \<in> set (all_samples zs')" for x y
    using linspace_values_bounds [OF ord(1) that(1)] all_samples_lower [OF ord(3) ne that(2)] hd ord(2)
    by simp
  with "3.hyps"(1) [OF rest [symmetric] ord(3)] linspace_values_sorted [OF ord(1)] show ?case
    by (auto simp: zs all_samples_Cons sorted_append)
qed

lemma make_timebins_result:
  "make_timebins self t_range_list n_step_list =
     (let zs = zip t_range_list n_step_list in
      if (\<exists>n\<in>set (map snd zs). n < 0) \<or> zs = [] \<or> all_samples zs = [] then Inl ValueError
      else Inr (self\<lparr>timebins := Some (all_samples zs),
                     tmin := Some (Min (set (all_samples zs))),
                     tmax := Some (Max (set (all_samples zs))),
                     n_t_steps := Some (length (all_samples zs))\<rparr>))"
proof -
  let ?zs = "zip t_range_list n_step_list"
  let ?arrays = "map (\<lambda>((t1, t2), n). linspace_values t1 t2 (nat n)) ?zs"
  show ?thesis
  proof (cases "\<exists>n\<in>set (map snd ?zs). n < 0")
    case True
    then show ?thesis
      by (simp add: make_timebins_def make_timebins_loop bindE_Inl Let_def)
  next
    case neg: False
    then have loop: "foldE (\<lambda>(t_range, n_step) tsteps_list.
            bindE (np_linspace (fst t_range) (snd t_range) n_step) (\<lambda>t_steps.
              Inr (tsteps_list @ [t_steps]))) ?zs [] = Inr ?arrays"
      by (simp add: make_timebins_loop)
    show ?thesis
    proof (cases "?zs = []")
      case True
      show ?thesis
        unfolding make_timebins_def Let_def True
        by (simp add: bindE_Inr bindE_Inl np_concatenate_def)
    next
      case ne: False
      then have conc: "np_concatenate ?arrays = Inr (all_samples ?zs)"
        by (simp add: np_concatenate_def all_samples_def)
      have run: "make_timebins self t_range_list n_step_list = set_timebins self (all_samples ?zs)"
        by (simp only: make_timebins_def loop bindE_Inr conc)
      show ?thesis
      proof (cases "all_samples ?zs = []")
        case True
        have "set_timebins self (all_samples ?zs) = Inl ValueError"
          unfolding True by (simp add: set_timebins_def np_min_def bindE_Inl)
        with True run show ?thesis
          by (simp add: Let_def)
      next
        case False
        then have "set_timebins self (all_samples ?zs)
            = Inr (self\<lparr>timebins := Some (all_samples ?zs),
                     tmin := Some (Min (set (all_samples ?zs))),
                     tmax := Some (Max (set (all_samples ?zs))),
                     n_t_steps := Some (length (all_samples ?zs))\<rparr>)"
          by (simp add: set_timebins_def np_min_Min np_max_Max bindE_Inr)
        with False neg ne run show ?thesis
          by (simp add: Let_def)
      qed
    qed
  qed
qed

lemma all_samples_empty_iff: "all_samples zs = [] \<longleftrightarrow> (\<forall>n\<in>set (map snd zs). nat n = 0)"
  by (induction zs) (auto simp: all_samples_def linspace_values_def)

lemma upt_3: "[0..<3] = [0, 1, 2]"
  by (simp add: upt_rec)

lemma upt_5: "[0..<5] = [0, 1, 2, 3, 4]"
  by (simp add: upt_rec)

lemma all_samples_example:
  "all_samples (zip [(0, 1), (1, 5)] [3, 5]) = [0, 1 / 2, 1, 1, 2, 3, 4, 5]"
  by (simp add: all_samples_def linspace_values_def upt_3 upt_5)

lemma make_timebins_example:
  "make_timebins self [(0, 1), (1, 5)] [3, 5]
     = Inr (self\<lparr>timebins := Some [0, 1 / 2, 1, 1, 2, 3, 4, 5], tmin := Some 0, tmax := Some 5,
                  n_t_steps := Some 8\<rparr>)"
  unfolding make_timebins_result Let_def all_samples_example by simp

text \<open>
  C6, as the claim words it, fails: \<^verbatim>\<open>make_timebins([(1, 0)], [2])\<close> stores the sequence
  \<open>[1, 0]\<close>, which is not sorted.
\<close>

theorem make_timebins_not_sorted:
  "make_timebins (CE_sim_init two_body_sampler) [(1, 0)] [2]
     = Inr ((CE_sim_init two_body_sampler)
              \<lparr>timebins := Some [1, 0], tmin := Some 0, tmax := Some 1, n_t_steps := Some 2\<rparr>) \<and>
   \<not> sorted [1, 0 :: real]"
proof -
  have "all_samples (zip [(1, 0)] [2]) = [1, 0]"
    by (simp add: all_samples_def linspace_values_def upt_rec)
  then show ?thesis
    unfolding make_timebins_result Let_def by simp
qed

text \<open>
  C6, amended: \<open>make_timebins\<close> returns when no count that is paired with a range is
  negative and one of them is positive; with no pair of a range and a count, with a
  negative count or with no sample at all it raises \<^verbatim>\<open>ValueError\<close>. When it returns, it has
  stored the concatenation of the \<open>linspace\<close> sequences of the ranges as the
  evaluation-time sequence, with its minimum, its maximum and its length; that sequence
  is non-decreasing when every range runs forward and none starts before the one before
  it ends. \<^verbatim>\<open>make_timebins([(0, 1), (1, 5)], [3, 5])\<close> stores the non-decreasing sequence
  \<open>[0, 1/2, 1, 1, 2, 3, 4, 5]\<close> of 8 samples, with minimum 0 and maximum 5.
\<close>

theorem make_timebins_stores:
  "((\<forall>n\<in>set (map snd (zip t_range_list n_step_list)). 0 \<le> n) \<and>
    (\<exists>n\<in>set (map snd (zip t_range_list n_step_list)). 0 < n) \<longrightarrow>
      (\<exists>self'. make_timebins self t_range_list n_step_list = Inr self')) \<and>
   (zip t_range_list n_step_list = [] \<or>
    (\<exists>n\<in>set (map snd (zip t_range_list n_step_list)). n < 0) \<or>
    (\<forall>n\<in>set (map snd (zip t_range_list n_step_list)). n = 0) \<longrightarrow>
      make_timebins self t_range_list n_step_list = Inl ValueError) \<and>
   (make_timebins self t_range_list n_step_list = Inr self' \<longrightarrow>
      timebins self' = Some (all_samples (zip t_range_list n_step_list)) \<and>
      tmin self' = Some (Min (set (all_samples (zip t_range_list n_step_list)))) \<and>
      tmax self' = Some (Max (set (all_samples (zip t_range_list n_step_list)))) \<and>
      n_t_steps self' = Some (length (all_samples (zip t_range_list n_step_list))) \<and>
      all_samples (zip t_range_list n_step_list) \<noteq> [] \<and>
      (ordered_ranges (map fst (zip t_range_list n_step_list)) \<longrightarrow>
         sorted (all_samples (zip t_range_list n_step_list)))) \<and>
   make_timebins self [(0, 1), (1, 5)] [3, 5]
     = Inr (self\<lparr>timebins := Some [0, 1 / 2, 1, 1, 2, 3, 4, 5], tmin := Some 0, tmax := Some 5,
                  n_t_steps := Some 8\<rparr>) \<and>
   sorted [0, 1 / 2, 1, 1, 2, 3, 4, 5 :: real]"
proof -
  let ?zs = "zip t_range_list n_step_list"
  have returns: "\<exists>self'. make_timebins self t_range_list n_step_list = Inr self'"
    if "\<forall>n\<in>set (map snd ?zs). 0 \<le> n" "\<exists>n\<in>set (map snd ?zs). 0 < n"
  proof -
    from that(1) have "\<not> (\<exists>n\<in>set (map snd ?zs). n < 0)"
      by (auto simp: not_less)
    moreover from that(2) obtain n where n: "n \<in> set (map snd ?zs)" "0 < n"
      by blast
    then have "?zs \<noteq> []"
      by auto
    moreover from n have "\<not> (\<forall>n\<in>set (map snd ?zs). nat n = 0)"
      by (intro notI) (drule bspec [of _ _ n], simp_all)
    then have "all_samples ?zs \<noteq> []"
      by (simp only: all_samples_empty_iff not_False_eq_True)
    ultimately show ?thesis
      by (simp add: make_timebins_result Let_def)
  qed
  have raises: "make_timebins self t_range_list n_step_list = Inl ValueError"
    if "?zs = [] \<or> (\<exists>n\<in>set (map snd ?zs). n < 0) \<or> (\<forall>n\<in>set (map snd ?zs). n = 0)"
  proof (cases "?zs = [] \<or> (\<exists>n\<in>set (map snd ?zs). n < 0)")
    case True
    then show ?thesis
      by (auto simp: make_timebins_result Let_def)
  next
    case False
    with that have "\<forall>n\<in>set (map snd ?zs). nat n = 0"
      by auto
    then have "all_samples ?zs = []"
      by (simp only: all_samples_empty_iff)
    then show ?thesis
      by (simp add: make_timebins_result Let_def)
  qed
  have stored: "timebins self' = Some (all_samples ?zs) \<and>
      tmin self' = Some (Min (set (all_samples ?zs))) \<and>
      tmax self' = Some (Max (set (all_samples ?zs))) \<and>
      n_t_steps self' = Some (length (all_samples ?zs)) \<and>
      all_samples ?zs \<noteq> [] \<and>
      (ordered_ranges (map fst ?zs) \<longrightarrow> sorted (all_samples ?zs))"
    if "make_timebins self t_range_list n_step_list = Inr self'"
    using that all_samples_sorted [of ?zs]
    by (auto simp: make_timebins_result Let_def split: if_splits)
  have "sorted [0, 1 / 2, 1, 1, 2, 3, 4, 5 :: real]"
    by simp
  with returns raises stored make_timebins_example [of self] show ?thesis
    by blast
qed

theorem make_timebins_stores_witness:
  "list_all (\<lambda>n. 0 \<le> n) (map snd (zip [(0, 1), (1, 5 :: real)] [3, 5 :: int])) \<and>
   (\<exists>n\<in>set (map snd (zip [(0, 1), (1, 5 :: real)] [3, 5 :: int])). 0 < n) \<and>
   ordered_ranges (map fst (zip [(0, 1), (1, 5)] [3, 5 :: int])) \<and>
   make_timebins (CE_sim_init two_body_sampler) [(0, 1), (1, 5)] [3, 5]
     = Inr ((CE_sim_init two_body_sampler)
              \<lparr>timebins := Some [0, 1 / 2, 1, 1, 2, 3, 4, 5], tmin := Some 0, tmax := Some 5,
               n_t_steps := Some 8\<rparr>) \<and>
   Min (set (all_samples (zip [(0, 1), (1, 5)] [3, 5]))) = 0 \<and>
   Max (set (all_samples (zip [(0, 1), (1, 5)] [3, 5]))) = 5 \<and>
   length (all_samples (zip [(0, 1), (1, 5)] [3, 5])) = 8 \<and>
   sorted (all_samples (zip [(0, 1), (1, 5)] [3, 5])) \<and>
   make_timebins (CE_sim_init two_body_sampler) [] [] = Inl ValueError \<and>
   make_timebins (CE_sim_init two_body_sampler) [(0, 1)] [- 1] = Inl ValueError \<and>
   make_timebins (CE_sim_init two_body_sampler) [(0, 1)] [0] = Inl ValueError"
proof -
  let ?s = "CE_sim_init two_body_sampler"
  let ?s' = "?s\<lparr>timebins := Some [0, 1 / 2, 1, 1, 2, 3, 4, 5], tmin := Some 0, tmax := Some 5,
               n_t_steps := Some 8\<rparr>"
  let ?zs = "zip [(0, 1), (1, 5 :: real)] [3, 5 :: int]"
  note inst = make_timebins_stores [of "[(0, 1), (1, 5)]" "[3, 5]" ?s ?s']
  have counts: "\<forall>n\<in>set (map snd ?zs). 0 \<le> n" "\<exists>n\<in>set (map snd ?zs). 0 < n"
    by simp_all
  have ranges: "ordered_ranges (map fst ?zs)"
    by simp
  from inst have run: "make_timebins ?s [(0, 1), (1, 5)] [3, 5] = Inr ?s'"
    by blast
  with inst have stored: "tmin ?s' = Some (Min (set (all_samples ?zs)))"
      "tmax ?s' = Some (Max (set (all_samples ?zs)))"
      "n_t_steps ?s' = Some (length (all_samples ?zs))"
      "ordered_ranges (map fst ?zs) \<longrightarrow> sorted (all_samples ?zs)"
    by blast+
  from stored(1,2,3) have "Min (set (all_samples ?zs)) = 0" "Max (set (all_samples ?zs)) = 5"
      "length (all_samples ?zs) = 8"
    by (simp_all add: CE_sim_init_def)
  moreover have "list_all (\<lambda>n. 0 \<le> n) (map snd ?zs)"
    by simp
  moreover have "make_timebins ?s [] [] = Inl ValueError"
    using make_timebins_stores [of "[]" "[]" ?s ?s] by simp
  moreover have "make_timebins ?s [(0, 1)] [- 1] = Inl ValueError"
    using make_timebins_stores [of "[(0, 1)]" "[- 1]" ?s ?s] by simp
  moreover have "make_timebins ?s [(0, 1)] [0] = Inl ValueError"
    using make_timebins_stores [of "[(0, 1)]" "[0]" ?s ?s] by simp
  ultimately show ?thesis
    using counts(2) ranges run stored(4) by blast
qed


subsection \<open>The normal modes of a geometry\<close>

lemma mode_dotprod_NameError: "mode_dotprod mode1 mode2 = Inl NameError"
  by (simp add: mode_dotprod_def module_n_atoms_def global_name_def bindE_def)

lemma mapE_length: "mapE f xs = Inr ys \<Longrightarrow> length ys = length xs"
  by (induction xs arbitrary: ys) (auto simp: bindE_def split: sum.splits)

lemma mapE_dotprod_NameError:
  "mapE (\<lambda>mode1. mapE (\<lambda>mode2. mode_dotprod mode1 mode2) (m # ms)) (m # ms) = Inl NameError"
  by (simp add: mode_dotprod_NameError bindE_Inl)

text \<open>\<^verbatim>\<open>check_normal_modes\<close> returns for no geometry at all.\<close>

lemma check_normal_modes_never_returns:
  "\<exists>err. check_normal_modes self threshold make_fig = Inl err"
proof (cases "nmodes self")
  case None
  then show ?thesis
    by (simp add: check_normal_modes_def attr_def bindE_Inl)
next
  case (Some modes)
  let ?reweight = "\<lambda>mode. bindE (mode_norm_sum self mode) (\<lambda>norm_sum.
                let norm_root = sqrt norm_sum in reweight_mode self mode norm_root)"
  show ?thesis
  proof (cases "mapE ?reweight modes")
    case (Inl err)
    then show ?thesis
      by (simp add: check_normal_modes_def Some attr_def bindE_Inr bindE_Inl)
  next
    case (Inr nmodes2)
    then have len: "length nmodes2 = length modes"
      by (rule mapE_length)
    show ?thesis
    proof (cases nmodes2)
      case Nil
      with len have "modes = []"
        by simp
      with Nil Inr show ?thesis
        by (simp add: check_normal_modes_def Some attr_def bindE_Inr bindE_Inl np_max_def)
    next
      case (Cons m ms)
      with Inr show ?thesis
        by (simp only: check_normal_modes_def Some attr_def option.case bindE_Inr
            mapE_dotprod_NameError bindE_Inl) blast
    qed
  qed
qed

lemma geometry_init_with_modes:
  assumes "nmodes_any nmodes_arg"
  shows "\<exists>err. geometry_init coords masses nmodes_arg omegas_arg = Inl err"
proof -
  let ?self = "\<lparr>atom_coords = coords, atom_masses = masses, natoms = length coords,
                  nmodes = Some nmodes_arg, omegas = None, com = None, atom_coords_com = None,
                  nmodes_weighted = None\<rparr>"
  from check_normal_modes_never_returns [of ?self "5 / 100" True]
  obtain err where "check_normal_modes ?self (5 / 100) True = Inl err"
    by blast
  with assms show ?thesis
    by (simp add: geometry_init_def Let_def bindE_Inl)
qed

text \<open>
  C1: the claim says that \<open>check_normal_modes\<close> reweights the modes, reports the verdict
  and stores the reweighted modes. The code reads the name \<^verbatim>\<open>n_atoms\<close>, which nothing
  defines, in the loop that computes the dot products: the method raises for every
  geometry, and constructing a geometry with modes raises \<^verbatim>\<open>NameError\<close>.
\<close>

theorem check_normal_modes_raises:
  "(\<exists>err. check_normal_modes self threshold make_fig = Inl err) \<and>
   geometry_init [(0, 0, 0)] [1] [[(1, 0, 0)]] [] = Inl NameError"
proof -
  have "geometry_init [(0, 0, 0)] [1] [[(1, 0, 0)]] [] = Inl NameError"
    by (simp add: geometry_init_def Let_def nmodes_any_def check_normal_modes_def attr_def
        mode_norm_sum_def reweight_mode_def item_def bindE_def mode_dotprod_NameError)
  with check_normal_modes_never_returns [of self threshold make_fig] show ?thesis
    by blast
qed


subsection \<open>The rejection loop\<close>

lemma next_unif_uniform:
  assumes "uniform_rng g"
  shows "0 \<le> fst (next_unif g)" "fst (next_unif g) < 1" "uniform_rng (snd (next_unif g))"
  using assms by (simp_all add: uniform_rng_def next_unif_def)

lemma np_random_uniform_range:
  assumes "uniform_rng g" and "0 \<le> w"
  shows "\<bar>fst (np_random_uniform (- w) w g)\<bar> \<le> w"
    and "uniform_rng (snd (np_random_uniform (- w) w g))"
proof -
  let ?u = "fst (next_unif g)"
  have u: "0 \<le> ?u" "?u \<le> 1"
    using next_unif_uniform [OF assms(1)] by simp_all
  have val: "fst (np_random_uniform (- w) w g) = - w + (w - - w) * ?u"
    by (simp add: np_random_uniform_def case_prod_beta)
  have "0 \<le> w * ?u" "w * ?u \<le> w"
    using u assms(2) by (simp_all add: mult_left_le)
  then show "\<bar>fst (np_random_uniform (- w) w g)\<bar> \<le> w"
    unfolding val by (simp add: abs_le_iff algebra_simps)
  show "uniform_rng (snd (np_random_uniform (- w) w g))"
    using next_unif_uniform(3) [OF assms(1)]
    by (simp add: np_random_uniform_def case_prod_beta)
qed

lemma np_random_uniform_threshold:
  assumes "uniform_rng g"
  shows "0 \<le> fst (np_random_uniform 0 1 g)" and "uniform_rng (snd (np_random_uniform 0 1 g))"
  using next_unif_uniform [OF assms] by (simp_all add: np_random_uniform_def case_prod_beta)

text \<open>
  In the first excited state the Wigner function is not positive on the disc
  \<open>P\<^sup>2 + Q\<^sup>2 \<le> 1/2\<close>.
\<close>

lemma calc_W_1_nonpositive:
  assumes "\<bar>P\<bar> \<le> 1 / 2" and "\<bar>Q\<bar> \<le> 1 / 2"
  shows "calc_W P Q 1 \<le> 0"
proof -
  define r where "r = 2 * (P ^ 2 + Q ^ 2)"
  have "P ^ 2 \<le> (1 / 2) ^ 2" "Q ^ 2 \<le> (1 / 2) ^ 2"
    using assms by (simp_all add: abs_le_square_iff [symmetric])
  then have "r \<le> 1"
    by (simp add: r_def power2_eq_square)
  then have "0 \<le> (1 - r) * exp (- r / 2)"
    by (intro mult_nonneg_nonneg) simp_all
  moreover have "calc_W P Q 1 = - ((1 - r) * exp (- r / 2))"
    unfolding calc_W_def Let_def r_def [symmetric] by (simp add: algebra_simps)
  ultimately show ?thesis
    by simp
qed

text \<open>One pass of the loop that rejects its draw is the loop on the rest of the stream.\<close>

lemma wigner_while_reject:
  assumes "\<not> calc_W (fst (np_random_uniform (- w) w (snd (np_random_uniform (- w) w g))))
               (fst (np_random_uniform (- w) w g)) n
           > fst (np_random_uniform 0 1
               (snd (np_random_uniform (- w) w (snd (np_random_uniform (- w) w g)))))"
  shows "wigner_while w T nmode ff n (new_geom, self, g)
       = wigner_while w T nmode ff n (new_geom, self,
           snd (np_random_uniform 0 1
             (snd (np_random_uniform (- w) w (snd (np_random_uniform (- w) w g))))))"
  using assms by (subst wigner_while.simps) (simp add: Let_def case_prod_beta)

lemma wigner_while_never_accepts:
  assumes w: "0 \<le> w" "w \<le> 1 / 2" and g: "uniform_rng g"
  shows "wigner_while w T nmode ff 1 (new_geom, self, g) = None"
proof (rule ccontr)
  assume "wigner_while w T nmode ff 1 (new_geom, self, g) \<noteq> None"
  then obtain r where "wigner_while w T nmode ff 1 (new_geom, self, g) = Some r"
    by blast
  then have "\<not> (0 \<le> w \<and> w \<le> 1 / 2 \<and> (1::int) = 1 \<and> uniform_rng (snd (snd (new_geom, self, g))))"
  proof (rule wigner_while.raw_induct
      [where P = "\<lambda>w T nmode ff n st r. \<not> (0 \<le> w \<and> w \<le> 1 / 2 \<and> n = 1 \<and> uniform_rng (snd (snd st)))",
        rotated])
    fix loop :: "real \<Rightarrow> real \<Rightarrow> vec3 list \<Rightarrow> real \<Rightarrow> int \<Rightarrow> vec3 list \<times> starting_conditions \<times> rng
        \<Rightarrow> (py_error + vec3 list \<times> starting_conditions \<times> rng) option"
    fix wa Ta :: real and nmodea :: "vec3 list" and ffa :: real and na :: int
      and sta :: "vec3 list \<times> starting_conditions \<times> rng"
      and ra :: "py_error + vec3 list \<times> starting_conditions \<times> rng"
    assume IH: "\<And>w T nmode ff n st r. loop w T nmode ff n st = Some r \<Longrightarrow>
        \<not> (0 \<le> w \<and> w \<le> 1 / 2 \<and> n = 1 \<and> uniform_rng (snd (snd st)))"
      and body: "(case sta of
         (new_geom, self, g) \<Rightarrow>
           let (random_Q, g1) = np_random_uniform (- wa) wa g;
               (random_P, g2) = np_random_uniform (- wa) wa g1;
               W = calc_W random_P random_Q na;
               (threshold, g3) = np_random_uniform 0 1 g2
           in if W > threshold
              then Some (wigner_accept Ta nmodea ffa na random_Q (new_geom, self, g3))
              else loop wa Ta nmodea ffa na (new_geom, self, g3)) = Some ra"
    show "\<not> (0 \<le> wa \<and> wa \<le> 1 / 2 \<and> na = 1 \<and> uniform_rng (snd (snd sta)))"
    proof
      assume inv: "0 \<le> wa \<and> wa \<le> 1 / 2 \<and> na = 1 \<and> uniform_rng (snd (snd sta))"
      obtain geom1 self1 g1 where st: "sta = (geom1, self1, g1)"
        by (metis prod_cases3)
      from inv have u: "uniform_rng g1" and wa: "0 \<le> wa" "wa \<le> 1 / 2" and n: "na = 1"
        by (simp_all add: st)
      let ?Q = "fst (np_random_uniform (- wa) wa g1)"
      let ?g1 = "snd (np_random_uniform (- wa) wa g1)"
      let ?P = "fst (np_random_uniform (- wa) wa ?g1)"
      let ?g2 = "snd (np_random_uniform (- wa) wa ?g1)"
      let ?thr = "fst (np_random_uniform 0 1 ?g2)"
      let ?g3 = "snd (np_random_uniform 0 1 ?g2)"
      have u1: "uniform_rng ?g1" and Q: "\<bar>?Q\<bar> \<le> 1 / 2"
        using np_random_uniform_range [OF u wa(1)] wa(2) by simp_all
      have u2: "uniform_rng ?g2" and P: "\<bar>?P\<bar> \<le> 1 / 2"
        using np_random_uniform_range [OF u1 wa(1)] wa(2) by simp_all
      have u3: "uniform_rng ?g3" and thr: "0 \<le> ?thr"
        using np_random_uniform_threshold [OF u2] by simp_all
      have "\<not> calc_W ?P ?Q 1 > ?thr"
        using calc_W_1_nonpositive [OF P Q] thr by simp
      with body have "loop wa Ta nmodea ffa 1 (geom1, self1, ?g3) = Some ra"
        by (simp add: st n Let_def case_prod_beta)
      from IH [OF this] u3 wa show False
        by simp
    qed
  qed
  with w g show False
    by simp
qed

lemma bindR_simps:
  "bindR None f = None"
  "bindR (Some (Inl err)) f = Some (Inl err)"
  "bindR (Some (Inr x)) f = f x"
  by (simp_all add: bindR_def)

lemma constant_rng_draw: "np_random_uniform low high constant_rng = (low + (high - low) * (9 / 10), constant_rng)"
  by (simp add: np_random_uniform_def next_unif_def constant_rng_def)

lemma exp_minus_small: "exp (- (144 / 25 :: real)) \<le> 9 / 10"
proof -
  have "1 + (144 / 25 :: real) \<le> exp (144 / 25)"
    by (rule exp_ge_add_one_self)
  then have "(10 / 9 :: real) \<le> exp (144 / 25)"
    by simp
  then have "inverse (exp (144 / 25 :: real)) \<le> inverse (10 / 9)"
    by (intro le_imp_inverse_le) simp_all
  then show ?thesis
    by (simp add: exp_minus)
qed

lemma calc_W_constant_draw: "\<not> calc_W (12 / 5) (12 / 5) 0 > 9 / 10"
proof -
  have "exp (- (144 / 25 :: real)) * exp (- (144 / 25)) \<le> exp (- (144 / 25)) * 1"
    by (intro mult_left_mono) simp_all
  then have "exp (- (144 / 25 :: real)) * exp (- (144 / 25)) \<le> exp (- (144 / 25))"
    by (simp only: mult_1_right)
  from this exp_minus_small have "exp (- (144 / 25 :: real)) * exp (- (144 / 25)) \<le> 9 / 10"
    by (rule order_trans)
  moreover have "calc_W (12 / 5) (12 / 5) 0 = exp (- (144 / 25)) * exp (- (144 / 25))"
    by (simp add: calc_W_def power2_eq_square)
  ultimately show ?thesis
    by simp
qed

text \<open>
  With the default bound 3 and the ground state, the loop rejects the draw
  \<open>P = Q = 12/5\<close> against the threshold \<open>9/10\<close> over and over.
\<close>

lemma wigner_while_constant_rng:
  "wigner_while 3 T nmode ff 0 (new_geom, self, constant_rng) = None"
proof (rule ccontr)
  assume "wigner_while 3 T nmode ff 0 (new_geom, self, constant_rng) \<noteq> None"
  then obtain r where "wigner_while 3 T nmode ff 0 (new_geom, self, constant_rng) = Some r"
    by blast
  then have "\<not> ((3::real) = 3 \<and> (0::int) = 0 \<and> snd (snd (new_geom, self, constant_rng)) = constant_rng)"
  proof (rule wigner_while.raw_induct
      [where P = "\<lambda>w T nmode ff n st r. \<not> (w = 3 \<and> n = 0 \<and> snd (snd st) = constant_rng)",
        rotated])
    fix loop :: "real \<Rightarrow> real \<Rightarrow> vec3 list \<Rightarrow> real \<Rightarrow> int \<Rightarrow> vec3 list \<times> starting_conditions \<times> rng
        \<Rightarrow> (py_error + vec3 list \<times> starting_conditions \<times> rng) option"
    fix wa Ta :: real and nmodea :: "vec3 list" and ffa :: real and na :: int
      and sta :: "vec3 list \<times> starting_conditions \<times> rng"
      and ra :: "py_error + vec3 list \<times> starting_conditions \<times> rng"
    assume IH: "\<And>w T nmode ff n st r. loop w T nmode ff n st = Some r \<Longrightarrow>
        \<not> (w = 3 \<and> n = 0 \<and> snd (snd st) = constant_rng)"
      and body: "(case sta of
         (new_geom, self, g) \<Rightarrow>
           let (random_Q, g1) = np_random_uniform (- wa) wa g;
               (random_P, g2) = np_random_uniform (- wa) wa g1;
               W = calc_W random_P random_Q na;
               (threshold, g3) = np_random_uniform 0 1 g2
           in if W > threshold
              then Some (wigner_accept Ta nmodea ffa na random_Q (new_geom, self, g3))
              else loop wa Ta nmodea ffa na (new_geom, self, g3)) = Some ra"
    show "\<not> (wa = 3 \<and> na = 0 \<and> snd (snd sta) = constant_rng)"
    proof
      assume inv: "wa = 3 \<and> na = 0 \<and> snd (snd sta) = constant_rng"
      then obtain geom1 self1 where st: "sta = (geom1, self1, constant_rng)"
        by (metis prod.collapse)
      from body calc_W_constant_draw have "loop 3 Ta nmodea ffa 0 (geom1, self1, constant_rng) = Some ra"
        using inv by (simp add: st constant_rng_draw)
      from IH [OF this] show False
        by simp
    qed
  qed
  then show False
    by simp
qed

lemma diatomic_setup:
  "\<exists>s. generate_pool_setup (starting_conditions_init diatomic_geometry) 1 ''wigner'' True
          (Number (1 / 10)) 3 0 5 = Inr s \<and>
       multi_channel s = False \<and>
       atom_coords_com (eq_geometry s) = Some [(- 1 / 2, 0, 0), (1 / 2, 0, 0)] \<and>
       nmodes_weighted (eq_geometry s) = Some [[(1 / sqrt 2, 0, 0), (- 1 / sqrt 2, 0, 0)]] \<and>
       omegas (eq_geometry s) = Some [1000]"
  by (simp add: generate_pool_setup_def check_wigner_inputs_def starting_conditions_init_def
      diatomic_geometry_def Let_def attr_def bindE_def nmodes_any_def omegas_any_def
      com_geometry_def find_com_def)

lemma generate_pool_diatomic_None:
  "generate_pool (starting_conditions_init diatomic_geometry) 1 ''wigner'' True
     (Number (1 / 10)) 3 0 5 constant_rng = None"
proof -
  from diatomic_setup obtain s where
    init: "generate_pool_setup (starting_conditions_init diatomic_geometry) 1 ''wigner'' True
          (Number (1 / 10)) 3 0 5 = Inr s"
    and s: "multi_channel s = False"
      "atom_coords_com (eq_geometry s) = Some [(- 1 / 2, 0, 0), (1 / 2, 0, 0)]"
      "nmodes_weighted (eq_geometry s) = Some [[(1 / sqrt 2, 0, 0), (- 1 / sqrt 2, 0, 0)]]"
      "omegas (eq_geometry s) = Some [1000]"
    by blast
  have positions: "trajectory_positions ''wigner'' 3 0 (s, constant_rng) = None"
    by (simp add: trajectory_positions_def s attr_def bindR_simps wigner_mode_def Let_def
        choose_n_def wigner_while_constant_rng)
  have "sample_trajectory ''wigner'' True 3 0 (s, constant_rng) = None"
    by (simp add: sample_trajectory_def assign_charges_def s bindR_simps positions)
  then show ?thesis
    by (simp add: generate_pool_def init bindR_simps)
qed

text \<open>
  C10: the rejection loop has no bound on its attempts. With a sampling bound of at
  most \<open>1/2\<close> and the first excited state selected, the Wigner function is not positive
  anywhere in the sampled square, so the loop accepts no draw of any generator and does
  not return; with the default bound and the ground state it still has a run without
  end, on which \<open>generate_pool\<close> in Wigner mode does not return.
\<close>

theorem wigner_sampling_unbounded:
  assumes "0 \<le> w" and "w \<le> 1 / 2" and "uniform_rng g"
  shows "wigner_while w T nmode ff 1 (new_geom, self, g) = None \<and>
         generate_pool (starting_conditions_init diatomic_geometry) 1 ''wigner'' True
           (Number (1 / 10)) 3 0 5 constant_rng = None"
  using wigner_while_never_accepts [OF assms] generate_pool_diatomic_None by simp

theorem wigner_sampling_unbounded_witness:
  "(0::real) \<le> 1 / 2 \<and> uniform_rng constant_rng \<and>
   wigner_while (1 / 2) 300 [(1, 0, 0)] 1 1
     ([(0, 0, 0)], starting_conditions_init diatomic_geometry, constant_rng) = None"
proof -
  have w: "(0::real) \<le> 1 / 2" "(1::real) / 2 \<le> 1 / 2"
    by simp_all
  have g: "uniform_rng constant_rng"
    by (simp add: uniform_rng_def constant_rng_def)
  from wigner_sampling_unbounded [OF w g] w(1) g show ?thesis
    by blast
qed


subsection \<open>What a run of the sampler changes\<close>

lemma foldR_append: "foldR f (xs @ ys) s = bindR (foldR f xs s) (foldR f ys)"
  by (induction xs arbitrary: s) (auto simp: bindR_def split: option.splits sum.splits)

lemma bindE_eq_Inr: "bindE m f = Inr y \<longleftrightarrow> (\<exists>x. m = Inr x \<and> f x = Inr y)"
  by (cases m) (simp_all add: bindE_def)

lemma bindR_eq_Some_Inr:
  "bindR m f = Some (Inr y) \<longleftrightarrow> (\<exists>x. m = Some (Inr x) \<and> f x = Some (Inr y))"
proof (cases m)
  case None
  then show ?thesis by (simp add: bindR_def)
next
  case (Some r)
  then show ?thesis by (cases r) (simp_all add: bindR_def)
qed

lemma attr_eq_Inr: "attr a = Inr v \<longleftrightarrow> a = Some v"
  by (cases a) (simp_all add: attr_def)

text \<open>
  The rejection loop and the code around it change the lists \<^verbatim>\<open>samp_n_list\<close> and
  \<^verbatim>\<open>samp_q_list\<close> of the sampler and nothing else.
\<close>

lemma wigner_accept_frame:
  assumes "wigner_accept T nmode ff n Q (new_geom, s, g) = Inr (new_geom', s', g')"
  shows "\<exists>ns qs. s' = s\<lparr>samp_n_list := ns, samp_q_list := qs\<rparr>"
proof -
  from assms obtain s1 qs where
    s1: "(if T > 0
          then bindE (attr (samp_n_list s)) (\<lambda>ns. Inr (s\<lparr>samp_n_list := Some (ns @ [n])\<rparr>))
          else Inr s) = Inr s1"
    and s': "s' = s1\<lparr>samp_q_list := Some (qs @ [Q])\<rparr>"
    unfolding wigner_accept_def prod.case bindE_eq_Inr by auto
  show ?thesis
  proof (cases "T > 0")
    case True
    with s1 obtain ns where "s1 = s\<lparr>samp_n_list := Some (ns @ [n])\<rparr>"
      by (auto simp: bindE_eq_Inr)
    with s' have "s' = s\<lparr>samp_n_list := Some (ns @ [n]), samp_q_list := Some (qs @ [Q])\<rparr>"
      by simp
    then show ?thesis by blast
  next
    case False
    with s1 s' have "s' = s\<lparr>samp_n_list := samp_n_list s, samp_q_list := Some (qs @ [Q])\<rparr>"
      by simp
    then show ?thesis by blast
  qed
qed

lemma wigner_while_frame:
  assumes "wigner_while w T nmode ff n (new_geom, s, g) = Some (Inr (new_geom', s', g'))"
  shows "\<exists>ns qs. s' = s\<lparr>samp_n_list := ns, samp_q_list := qs\<rparr>"
proof -
  let ?frame = "\<lambda>(s :: starting_conditions) (s' :: starting_conditions).
         \<exists>ns qs. s' = s\<lparr>samp_n_list := ns, samp_q_list := qs\<rparr>"
  from assms have "\<forall>geom1 s1 g1. (Inr (new_geom', s', g') :: py_error + _) = Inr (geom1, s1, g1) \<longrightarrow>
      ?frame (fst (snd (new_geom, s, g))) s1"
  proof (rule wigner_while.raw_induct
      [where P = "\<lambda>w T nmode ff n (st :: vec3 list \<times> starting_conditions \<times> rng)
          (r :: py_error + vec3 list \<times> starting_conditions \<times> rng).
          \<forall>geom1 s1 g1. r = Inr (geom1, s1, g1) \<longrightarrow> ?frame (fst (snd st)) s1", rotated])
    fix loop :: "real \<Rightarrow> real \<Rightarrow> vec3 list \<Rightarrow> real \<Rightarrow> int \<Rightarrow> vec3 list \<times> starting_conditions \<times> rng
        \<Rightarrow> (py_error + vec3 list \<times> starting_conditions \<times> rng) option"
    fix wa Ta :: real and nmodea :: "vec3 list" and ffa :: real and na :: int
      and sta :: "vec3 list \<times> starting_conditions \<times> rng"
      and ra :: "py_error + vec3 list \<times> starting_conditions \<times> rng"
    assume IH: "\<And>w T nmode ff n st r. loop w T nmode ff n st = Some r \<Longrightarrow>
        \<forall>geom1 s1 g1. r = Inr (geom1, s1, g1) \<longrightarrow> ?frame (fst (snd st)) s1"
      and body: "(case sta of
         (new_geom, self, g) \<Rightarrow>
           let (random_Q, g1) = np_random_uniform (- wa) wa g;
               (random_P, g2) = np_random_uniform (- wa) wa g1;
               W = calc_W random_P random_Q na;
               (threshold, g3) = np_random_uniform 0 1 g2
           in if W > threshold
              then Some (wigner_accept Ta nmodea ffa na random_Q (new_geom, self, g3))
              else loop wa Ta nmodea ffa na (new_geom, self, g3)) = Some ra"
    obtain geom0 s0 g0 where st: "sta = (geom0, s0, g0)"
      by (metis prod_cases3)
    let ?Q = "fst (np_random_uniform (- wa) wa g0)"
    let ?g1 = "snd (np_random_uniform (- wa) wa g0)"
    let ?P = "fst (np_random_uniform (- wa) wa ?g1)"
    let ?g2 = "snd (np_random_uniform (- wa) wa ?g1)"
    let ?thr = "fst (np_random_uniform 0 1 ?g2)"
    let ?g3 = "snd (np_random_uniform 0 1 ?g2)"
    show "\<forall>geom1 s1 g1. ra = Inr (geom1, s1, g1) \<longrightarrow> ?frame (fst (snd sta)) s1"
    proof (cases "calc_W ?P ?Q na > ?thr")
      case True
      with body have acc: "wigner_accept Ta nmodea ffa na ?Q (geom0, s0, ?g3) = ra"
        by (simp add: st Let_def case_prod_beta)
      show ?thesis
      proof (intro allI impI)
        fix geom1 s1 g1
        assume "ra = Inr (geom1, s1, g1)"
        with acc have "wigner_accept Ta nmodea ffa na ?Q (geom0, s0, ?g3) = Inr (geom1, s1, g1)"
          by (simp only:)
        from wigner_accept_frame [OF this] show "?frame (fst (snd sta)) s1"
          by (simp only: st fst_conv snd_conv)
      qed
    next
      case False
      with body have "loop wa Ta nmodea ffa na (geom0, s0, ?g3) = Some ra"
        by (simp add: st Let_def case_prod_beta)
      from IH [OF this] show ?thesis
        by (simp only: st fst_conv snd_conv)
    qed
  qed
  then show ?thesis
    by (simp only: fst_conv snd_conv)
qed

lemma wigner_mode_frame:
  assumes "wigner_mode w T mc mode (new_geom, s, g) = Some (Inr (new_geom', s', g'))"
  shows "\<exists>ns qs. s' = s\<lparr>samp_n_list := ns, samp_q_list := qs\<rparr>"
proof -
  obtain nmode omega where mode: "mode = (nmode, omega)"
    by (metis prod.collapse)
  from assms obtain n g1 where
    "wigner_while w T nmode (sqrt (omega * cm_to_hartree)) n (new_geom, s, g1)
       = Some (Inr (new_geom', s', g'))"
    unfolding wigner_mode_def mode prod.case Let_def bindR_eq_Some_Inr by auto
  then show ?thesis
    by (rule wigner_while_frame)
qed

lemma foldR_wigner_mode_frame:
  assumes "foldR (wigner_mode w T mc) modes (new_geom, s, g) = Some (Inr (new_geom', s', g'))"
  shows "\<exists>ns qs. s' = s\<lparr>samp_n_list := ns, samp_q_list := qs\<rparr>"
  using assms
proof (induction modes arbitrary: new_geom s g)
  case Nil
  then have "s' = s\<lparr>samp_n_list := samp_n_list s, samp_q_list := samp_q_list s\<rparr>"
    by simp
  then show ?case by blast
next
  case (Cons mode modes)
  from Cons.prems obtain geom1 s1 g1 where
    first: "wigner_mode w T mc mode (new_geom, s, g) = Some (Inr (geom1, s1, g1))"
    and rest: "foldR (wigner_mode w T mc) modes (geom1, s1, g1) = Some (Inr (new_geom', s', g'))"
    unfolding foldR.simps bindR_eq_Some_Inr by auto
  from wigner_mode_frame [OF first] obtain ns1 qs1 where
    s1: "s1 = s\<lparr>samp_n_list := ns1, samp_q_list := qs1\<rparr>"
    by blast
  from Cons.IH [OF rest] obtain ns qs where "s' = s1\<lparr>samp_n_list := ns, samp_q_list := qs\<rparr>"
    by blast
  with s1 have "s' = s\<lparr>samp_n_list := ns, samp_q_list := qs\<rparr>"
    by simp
  then show ?case by blast
qed

lemma trajectory_positions_frame:
  assumes "trajectory_positions method w T (s, g) = Some (Inr (r_list, s', g'))"
  shows "\<exists>ns qs. s' = s\<lparr>samp_n_list := ns, samp_q_list := qs\<rparr>"
proof -
  have same: "\<exists>ns qs. s' = s\<lparr>samp_n_list := ns, samp_q_list := qs\<rparr>" if "s' = s"
  proof -
    from that have "s' = s\<lparr>samp_n_list := samp_n_list s, samp_q_list := samp_q_list s\<rparr>"
      by simp
    then show ?thesis by blast
  qed
  show ?thesis
  proof (cases "method = ''gaussian''")
    case True
    from assms have "s' = s"
      by (auto simp: trajectory_positions_def True bindE_eq_Inr)
    then show ?thesis by (rule same)
  next
    case False
    show ?thesis
    proof (cases "method = ''wigner''")
      case True
      from assms obtain new_geom modes geom1 where
        "foldR (wigner_mode w T 0) modes (new_geom, s, g) = Some (Inr (geom1, s', g'))"
        using True by (auto simp: trajectory_positions_def Let_def bindR_eq_Some_Inr)
      then show ?thesis
        by (rule foldR_wigner_mode_frame)
    next
      case neither: False
      with False assms have "s' = s"
        by (simp add: trajectory_positions_def)
      then show ?thesis by (rule same)
    qed
  qed
qed

text \<open>What the part before the loop over the trajectories leaves behind.\<close>

lemma check_wigner_inputs_result:
  assumes "check_wigner_inputs s T = Inr s'"
  shows "s' = s\<lparr>self_T := Some T, samp_q_list := Some []\<rparr>"
  using assms by (auto simp: check_wigner_inputs_def bindE_eq_Inr split: if_splits)

lemma find_com_result: "\<exists>c. find_com geom = geom\<lparr>com := Some c\<rparr>"
  unfolding find_com_def Let_def case_prod_beta by (rule exI) (rule refl)

lemma com_geometry_result:
  assumes "com_geometry geom = Inr geom'"
  shows "atom_coords geom \<noteq> [] \<and>
         (\<exists>c. geom' = geom\<lparr>com := Some c,
                atom_coords_com := Some (map (\<lambda>r. vsub r c) (atom_coords geom))\<rparr>)"
proof -
  obtain c where c: "find_com geom = geom\<lparr>com := Some c\<rparr>"
    using find_com_result by blast
  from assms have "atom_coords geom \<noteq> []"
    and "geom' = geom\<lparr>com := Some c,
                atom_coords_com := Some (map (\<lambda>r. vsub r c) (atom_coords geom))\<rparr>"
    by (auto simp: com_geometry_def c Let_def bindE_def attr_def split: if_splits)
  then show ?thesis by blast
qed

lemma fill_populations_result:
  assumes "fill_populations s T nmax = Inr s'"
  shows "\<exists>levels ns arr. s' = s\<lparr>n_list := levels, samp_n_list := ns, Pn_arr := arr\<rparr>"
proof -
  from assms obtain arr where
    "s' = s\<lparr>n_list := Some (map int [0..<nat nmax]), samp_n_list := Some [], Pn_arr := Some arr\<rparr>"
    by (auto simp: fill_populations_def Let_def bindE_eq_Inr split: if_splits)
  then show ?thesis by blast
qed

lemma generate_pool_setup_steps:
  assumes "generate_pool_setup self n_geoms method rr sigma w T nmax = Inr s1"
  shows "\<exists>sa geom sb sc.
           (if method = ''wigner'' then check_wigner_inputs (self\<lparr>self_method := Some method\<rparr>) T
            else Inr (self\<lparr>self_method := Some method\<rparr>)) = Inr sa \<and>
           com_geometry (eq_geometry sa) = Inr geom \<and>
           sb = sa\<lparr>self_n_geoms := Some n_geoms, self_random_rotate := Some rr,
                   self_T := Some T, self_wigner_sample_max := Some w,
                   self_nmax := Some nmax, samp_y0_list := Some [],
                   samp_charges_list := Some [], samp_masses_list := Some [],
                   samp_channel_list := Some [], eq_geometry := geom\<rparr> \<and>
           sc = (if method = ''gaussian'' then sb\<lparr>self_sigma := Some (sigma_to_array sigma)\<rparr>
                 else sb) \<and>
           (if method = ''wigner'' \<and> T > 0 then fill_populations sc T nmax else Inr sc) = Inr s1"
  using assms unfolding generate_pool_setup_def Let_def bindE_eq_Inr
  by (elim exE conjE) simp

lemma generate_pool_setup_result:
  assumes "generate_pool_setup self n_geoms method rr sigma w T nmax = Inr s1"
  shows "multi_channel s1 = multi_channel self \<and> channel_list s1 = channel_list self \<and>
         channel_p_list s1 = channel_p_list self \<and>
         samp_y0_list s1 = Some [] \<and> samp_charges_list s1 = Some [] \<and>
         samp_masses_list s1 = Some [] \<and> samp_channel_list s1 = Some [] \<and>
         natoms (eq_geometry s1) = natoms (eq_geometry self) \<and>
         atom_masses (eq_geometry s1) = atom_masses (eq_geometry self) \<and>
         atom_coords (eq_geometry self) \<noteq> []"
proof -
  let ?s0 = "self\<lparr>self_method := Some method\<rparr>"
  from generate_pool_setup_steps [OF assms] obtain sa geom sb sc where
    sa: "(if method = ''wigner'' then check_wigner_inputs ?s0 T else Inr ?s0) = Inr sa"
    and geom: "com_geometry (eq_geometry sa) = Inr geom"
    and sb: "sb = sa\<lparr>self_n_geoms := Some n_geoms, self_random_rotate := Some rr,
                   self_T := Some T, self_wigner_sample_max := Some w,
                   self_nmax := Some nmax, samp_y0_list := Some [],
                   samp_charges_list := Some [], samp_masses_list := Some [],
                   samp_channel_list := Some [], eq_geometry := geom\<rparr>"
    and sc: "sc = (if method = ''gaussian'' then sb\<lparr>self_sigma := Some (sigma_to_array sigma)\<rparr>
                 else sb)"
    and s1: "(if method = ''wigner'' \<and> T > 0 then fill_populations sc T nmax else Inr sc) = Inr s1"
    by blast
  have sa_frame: "multi_channel sa = multi_channel self \<and> channel_list sa = channel_list self \<and>
      channel_p_list sa = channel_p_list self \<and> eq_geometry sa = eq_geometry self"
  proof (cases "method = ''wigner''")
    case True
    with sa have "check_wigner_inputs ?s0 T = Inr sa"
      by simp
    from check_wigner_inputs_result [OF this] show ?thesis
      by simp
  next
    case False
    with sa show ?thesis
      by auto
  qed
  from com_geometry_result [OF geom] sa_frame have geom_frame:
    "atom_coords (eq_geometry self) \<noteq> []" "natoms geom = natoms (eq_geometry self)"
    "atom_masses geom = atom_masses (eq_geometry self)"
    by auto
  have sc_frame: "multi_channel sc = multi_channel self \<and> channel_list sc = channel_list self \<and>
      channel_p_list sc = channel_p_list self \<and>
      samp_y0_list sc = Some [] \<and> samp_charges_list sc = Some [] \<and>
      samp_masses_list sc = Some [] \<and> samp_channel_list sc = Some [] \<and>
      eq_geometry sc = geom"
    using sa_frame by (simp add: sb sc)
  have "multi_channel s1 = multi_channel sc \<and> channel_list s1 = channel_list sc \<and>
      channel_p_list s1 = channel_p_list sc \<and>
      samp_y0_list s1 = samp_y0_list sc \<and> samp_charges_list s1 = samp_charges_list sc \<and>
      samp_masses_list s1 = samp_masses_list sc \<and> samp_channel_list s1 = samp_channel_list sc \<and>
      eq_geometry s1 = eq_geometry sc"
  proof (cases "method = ''wigner'' \<and> T > 0")
    case True
    with s1 have "fill_populations sc T nmax = Inr s1"
      by simp
    from fill_populations_result [OF this] show ?thesis
      by auto
  next
    case False
    with s1 show ?thesis
      by auto
  qed
  with sc_frame geom_frame show ?thesis
    by simp
qed

text \<open>
  The loop that fills \<^verbatim>\<open>y0\<close> writes the three coordinates of atom \<open>i\<close> at the positions
  \<open>3 i\<close>, \<open>3 i + 1\<close> and \<open>3 i + 2\<close>, and leaves the second half of the array as
  \<^verbatim>\<open>np.zeros\<close> made it.
\<close>

lemma fill_y0_loop:
  assumes "foldE (\<lambda>n y0. bindE (item r n) (\<lambda>(x, y, z).
              Inr (y0[3 * n := x, 3 * n + 1 := y, 3 * n + 2 := z]))) [0..<m] y = Inr y'"
    and "3 * m \<le> length y"
  shows "length y' = length y \<and> (\<forall>k\<ge>3 * m. y' ! k = y ! k) \<and>
         (\<forall>i<m. (y' ! (3 * i), y' ! (3 * i + 1), y' ! (3 * i + 2)) = r ! i)"
  using assms
proof (induction m arbitrary: y')
  case 0
  then show ?case by simp
next
  case (Suc m)
  let ?f = "\<lambda>n y0. bindE (item r n) (\<lambda>(x, y, z).
              Inr (y0[3 * n := x, 3 * n + 1 := y, 3 * n + 2 := z]))"
  from Suc.prems(1) obtain y1 where
    prev: "foldE ?f [0..<m] y = Inr y1" and last: "?f m y1 = Inr y'"
    unfolding foldE_upt_Suc bindE_eq_Inr by blast
  from Suc.prems(2) have "3 * m \<le> length y"
    by simp
  from Suc.IH [OF prev this] have
    len: "length y1 = length y" and above: "\<forall>k\<ge>3 * m. y1 ! k = y ! k"
    and below: "\<forall>i<m. (y1 ! (3 * i), y1 ! (3 * i + 1), y1 ! (3 * i + 2)) = r ! i"
    by simp_all
  obtain x1 x2 x3 where rm: "r ! m = (x1, x2, x3)"
    by (metis prod_cases3)
  from last have y': "y' = y1[3 * m := x1, 3 * m + 1 := x2, 3 * m + 2 := x3]"
    by (auto simp: bindE_eq_Inr item_def rm split: if_splits)
  have "length y' = length y"
    by (simp add: y' len)
  moreover have "\<forall>k\<ge>3 * Suc m. y' ! k = y ! k"
    using above by (simp add: y')
  moreover have "(y' ! (3 * i), y' ! (3 * i + 1), y' ! (3 * i + 2)) = r ! i" if "i < Suc m" for i
  proof (cases "i = m")
    case True
    with Suc.prems(2) len show ?thesis
      by (simp add: y' rm)
  next
    case False
    with that have "i < m"
      by simp
    then have "3 * i + 2 < 3 * m"
      by simp
    then have "y' ! (3 * i) = y1 ! (3 * i)" "y' ! (3 * i + 1) = y1 ! (3 * i + 1)"
        "y' ! (3 * i + 2) = y1 ! (3 * i + 2)"
      by (simp_all add: y')
    with below \<open>i < m\<close> show ?thesis
      by simp
  qed
  ultimately show ?case
    by blast
qed

lemma fill_y0_result:
  assumes "fill_y0 n r = Inr y0"
  shows "length y0 = 6 * n \<and> drop (3 * n) y0 = replicate (3 * n) 0 \<and>
         (\<forall>i<n. (y0 ! (3 * i), y0 ! (3 * i + 1), y0 ! (3 * i + 2)) = r ! i)"
proof -
  from assms have "foldE (\<lambda>n y0. bindE (item r n) (\<lambda>(x, y, z).
              Inr (y0[3 * n := x, 3 * n + 1 := y, 3 * n + 2 := z]))) [0..<n]
                (replicate (n * 6) 0) = Inr y0"
    by (simp add: fill_y0_def)
  from fill_y0_loop [OF this] have
    len: "length y0 = 6 * n" and above: "\<forall>k\<ge>3 * n. y0 ! k = replicate (n * 6) 0 ! k"
    and below: "\<forall>i<n. (y0 ! (3 * i), y0 ! (3 * i + 1), y0 ! (3 * i + 2)) = r ! i"
    by simp_all
  have "drop (3 * n) y0 = replicate (3 * n) 0"
  proof (rule nth_equalityI)
    show "length (drop (3 * n) y0) = length (replicate (3 * n) (0::real))"
      by (simp add: len)
  next
    fix i
    assume "i < length (drop (3 * n) y0)"
    then have i: "i < 3 * n"
      by (simp add: len)
    then have "drop (3 * n) y0 ! i = y0 ! (3 * n + i)"
      by (simp add: len)
    also have "\<dots> = replicate (n * 6) 0 ! (3 * n + i)"
      using above by simp
    also have "\<dots> = 0"
      using i by simp
    finally show "drop (3 * n) y0 ! i = replicate (3 * n) 0 ! i"
      using i by simp
  qed
  with len below show ?thesis
    by blast
qed

lemma np_random_choice_member:
  assumes "np_random_choice a p g = Inr (v, g1)"
  shows "v \<in> set a"
  using assms
  by (auto simp: np_random_choice_def Let_def case_prod_beta bindE_eq_Inr item_def
      split: if_splits)

lemma store_trajectory_result:
  assumes "store_trajectory s y0 charges masses = Inr s'"
  shows "\<exists>ys cs ms. samp_y0_list s = Some ys \<and> samp_charges_list s = Some cs \<and>
           samp_masses_list s = Some ms \<and>
           s' = s\<lparr>samp_y0_list := Some (ys @ [y0]), samp_charges_list := Some (cs @ [charges]),
                  samp_masses_list := Some (ms @ [masses])\<rparr>"
  using assms by (auto simp: store_trajectory_def bindE_eq_Inr attr_eq_Inr)

lemma sample_trajectory_steps:
  assumes "sample_trajectory method rr w T (s, g) = Some (Inr (s', g'))"
  shows "\<exists>charges masses g1 r_list s1 g2 y0.
           assign_charges s g = Inr (charges, masses, g1) \<and>
           trajectory_positions method w T (s, g1) = Some (Inr (r_list, s1, g2)) \<and>
           fill_y0 (natoms (eq_geometry s1))
             (fst (if rr then random_rotation r_list g2 else (r_list, g2))) = Inr y0 \<and>
           store_trajectory s1 y0 charges masses = Inr s' \<and>
           g' = snd (if rr then random_rotation r_list g2 else (r_list, g2))"
proof -
  from assms obtain a where a: "assign_charges s g = Inr a"
    and rest1: "(case a of (charges, masses, g1) \<Rightarrow>
       bindR (trajectory_positions method w T (s, g1)) (\<lambda>(r_list, self1, g2).
         let (r_list_rot, g3) = (if rr then random_rotation r_list g2 else (r_list, g2))
         in bindR (Some (fill_y0 (natoms (eq_geometry self1)) r_list_rot)) (\<lambda>y0.
            bindR (Some (store_trajectory self1 y0 charges masses)) (\<lambda>self2.
              Some (Inr (self2, g3)))))) = Some (Inr (s', g'))"
    by (auto simp: sample_trajectory_def bindR_eq_Some_Inr)
  obtain charges masses g1 where a': "a = (charges, masses, g1)"
    by (metis prod_cases3)
  from rest1 obtain p where p: "trajectory_positions method w T (s, g1) = Some (Inr p)"
    and rest2: "(case p of (r_list, self1, g2) \<Rightarrow>
         let (r_list_rot, g3) = (if rr then random_rotation r_list g2 else (r_list, g2))
         in bindR (Some (fill_y0 (natoms (eq_geometry self1)) r_list_rot)) (\<lambda>y0.
            bindR (Some (store_trajectory self1 y0 charges masses)) (\<lambda>self2.
              Some (Inr (self2, g3))))) = Some (Inr (s', g'))"
    unfolding a' prod.case bindR_eq_Some_Inr by blast
  obtain r_list s1 g2 where p': "p = (r_list, s1, g2)"
    by (metis prod_cases3)
  let ?rot = "if rr then random_rotation r_list g2 else (r_list, g2)"
  from rest2 have "bindR (Some (fill_y0 (natoms (eq_geometry s1)) (fst ?rot))) (\<lambda>y0.
            bindR (Some (store_trajectory s1 y0 charges masses)) (\<lambda>self2.
              Some (Inr (self2, snd ?rot)))) = Some (Inr (s', g'))"
    by (cases rr) (simp_all add: p' Let_def case_prod_beta)
  then obtain y0 where "fill_y0 (natoms (eq_geometry s1)) (fst ?rot) = Inr y0"
    "store_trajectory s1 y0 charges masses = Inr s'" "g' = snd ?rot"
    unfolding bindR_eq_Some_Inr by auto
  with a a' p p' show ?thesis
    by blast
qed

text \<open>The charges of a trajectory are those of a channel of the list, or \<open>e\<close> on every atom.\<close>

lemma assign_charges_result:
  assumes "assign_charges s g = Inr (charges, masses, g1)"
  shows "masses = map (\<lambda>m. m * const_u) (atom_masses (eq_geometry s)) \<and>
         (if multi_channel s
          then \<exists>channels channel. channel_list s = Some channels \<and> channel \<in> set channels \<and>
                 charges = map (\<lambda>q. q * const_e) (ch_charges channel)
          else charges = replicate (natoms (eq_geometry s)) const_e \<and> g1 = g)"
proof (cases "multi_channel s")
  case True
  with assms obtain channels p_list channel where
    "channel_list s = Some channels" "np_random_choice channels p_list g = Inr (channel, g1)"
    "charges = map (\<lambda>q. q * const_e) (ch_charges channel)"
    "masses = map (\<lambda>m. m * const_u) (atom_masses (eq_geometry s))"
    by (auto simp: assign_charges_def bindE_eq_Inr attr_eq_Inr)
  with True np_random_choice_member show ?thesis
    by fastforce
next
  case False
  with assms show ?thesis
    by (auto simp: assign_charges_def)
qed

text \<open>
  One pass of the loop over the trajectories appends one entry to each of the lists
  \<^verbatim>\<open>samp_y0_list\<close>, \<^verbatim>\<open>samp_charges_list\<close> and \<^verbatim>\<open>samp_masses_list\<close>.
\<close>

lemma sample_trajectory_result:
  assumes run: "sample_trajectory method rr w T (s, g) = Some (Inr (s', g'))"
  shows "\<exists>ys cs ms y0 charges ns qs.
           samp_y0_list s = Some ys \<and> samp_charges_list s = Some cs \<and>
           samp_masses_list s = Some ms \<and>
           s' = s\<lparr>samp_n_list := ns, samp_q_list := qs, samp_y0_list := Some (ys @ [y0]),
                  samp_charges_list := Some (cs @ [charges]),
                  samp_masses_list :=
                    Some (ms @ [map (\<lambda>m. m * const_u) (atom_masses (eq_geometry s))])\<rparr> \<and>
           length y0 = 6 * natoms (eq_geometry s) \<and>
           drop (3 * natoms (eq_geometry s)) y0 = replicate (3 * natoms (eq_geometry s)) 0 \<and>
           (if multi_channel s
            then \<exists>channels channel. channel_list s = Some channels \<and> channel \<in> set channels \<and>
                   charges = map (\<lambda>q. q * const_e) (ch_charges channel)
            else charges = replicate (natoms (eq_geometry s)) const_e)"
proof -
  from sample_trajectory_steps [OF run] obtain charges masses g1 r_list s1 g2 y0 where
    assign: "assign_charges s g = Inr (charges, masses, g1)"
    and pos: "trajectory_positions method w T (s, g1) = Some (Inr (r_list, s1, g2))"
    and fill: "fill_y0 (natoms (eq_geometry s1))
             (fst (if rr then random_rotation r_list g2 else (r_list, g2))) = Inr y0"
    and store: "store_trajectory s1 y0 charges masses = Inr s'"
    by blast
  from trajectory_positions_frame [OF pos] obtain ns qs where
    s1: "s1 = s\<lparr>samp_n_list := ns, samp_q_list := qs\<rparr>"
    by blast
  from store_trajectory_result [OF store] obtain ys cs ms where
    lists: "samp_y0_list s1 = Some ys" "samp_charges_list s1 = Some cs"
      "samp_masses_list s1 = Some ms"
    and s': "s' = s1\<lparr>samp_y0_list := Some (ys @ [y0]), samp_charges_list := Some (cs @ [charges]),
                  samp_masses_list := Some (ms @ [masses])\<rparr>"
    by blast
  from assign_charges_result [OF assign] have
    masses: "masses = map (\<lambda>m. m * const_u) (atom_masses (eq_geometry s))"
    and charges: "if multi_channel s
          then \<exists>channels channel. channel_list s = Some channels \<and> channel \<in> set channels \<and>
                 charges = map (\<lambda>q. q * const_e) (ch_charges channel)
          else charges = replicate (natoms (eq_geometry s)) const_e"
    by (simp_all split: if_splits)
  from fill_y0_result [OF fill] have
    y0: "length y0 = 6 * natoms (eq_geometry s)"
      "drop (3 * natoms (eq_geometry s)) y0 = replicate (3 * natoms (eq_geometry s)) 0"
    by (simp_all add: s1)
  have "samp_y0_list s = Some ys" "samp_charges_list s = Some cs" "samp_masses_list s = Some ms"
    using lists by (simp_all add: s1)
  moreover have "s' = s\<lparr>samp_n_list := ns, samp_q_list := qs, samp_y0_list := Some (ys @ [y0]),
                  samp_charges_list := Some (cs @ [charges]),
                  samp_masses_list :=
                    Some (ms @ [map (\<lambda>m. m * const_u) (atom_masses (eq_geometry s))])\<rparr>"
    by (simp add: s' s1 masses)
  ultimately show ?thesis
    using y0 charges by blast
qed

text \<open>
  The loop over the trajectories appends one entry to each of the three lists for each
  pass; it changes neither the geometry nor the channels, and it leaves
  \<^verbatim>\<open>samp_channel_list\<close> as it finds it.
\<close>

lemma foldR_sample_trajectory_result:
  assumes "foldR (\<lambda>i. sample_trajectory method rr w T) (xs :: nat list) (s, g)
             = Some (Inr (s', g'))"
    and "samp_y0_list s = Some ys" and "samp_charges_list s = Some cs"
    and "samp_masses_list s = Some ms"
  shows "\<exists>ys' cs' ns qs.
           s' = s\<lparr>samp_n_list := ns, samp_q_list := qs, samp_y0_list := Some (ys @ ys'),
                  samp_charges_list := Some (cs @ cs'),
                  samp_masses_list := Some (ms @ replicate (length xs)
                    (map (\<lambda>m. m * const_u) (atom_masses (eq_geometry s))))\<rparr> \<and>
           length ys' = length xs \<and> length cs' = length xs \<and>
           (\<forall>y0\<in>set ys'. length y0 = 6 * natoms (eq_geometry s) \<and>
              drop (3 * natoms (eq_geometry s)) y0 = replicate (3 * natoms (eq_geometry s)) 0) \<and>
           (\<forall>charges\<in>set cs'.
              if multi_channel s
              then \<exists>channels channel. channel_list s = Some channels \<and> channel \<in> set channels \<and>
                     charges = map (\<lambda>q. q * const_e) (ch_charges channel)
              else charges = replicate (natoms (eq_geometry s)) const_e)"
  using assms
proof (induction xs arbitrary: s g ys cs ms)
  case Nil
  then have eq: "s' = s\<lparr>samp_n_list := samp_n_list s, samp_q_list := samp_q_list s,
                  samp_y0_list := Some (ys @ []), samp_charges_list := Some (cs @ []),
                  samp_masses_list := Some (ms @ replicate (length ([] :: nat list))
                    (map (\<lambda>m. m * const_u) (atom_masses (eq_geometry s))))\<rparr>"
    by simp
  show ?case
    by (intro exI conjI) (rule eq, simp_all)
next
  case (Cons x xs)
  let ?masses = "\<lambda>s. map (\<lambda>m. m * const_u) (atom_masses (eq_geometry s))"
  from Cons.prems(1) obtain p where
    first: "sample_trajectory method rr w T (s, g) = Some (Inr p)"
    and rest: "foldR (\<lambda>i. sample_trajectory method rr w T) xs p = Some (Inr (s', g'))"
    unfolding foldR.simps bindR_eq_Some_Inr by blast
  obtain s1 g1 where p: "p = (s1, g1)"
    by (metis prod.collapse)
  from sample_trajectory_result [OF first [unfolded p]] Cons.prems(2-4)
  obtain y0 charges ns1 qs1 where
    s1: "s1 = s\<lparr>samp_n_list := ns1, samp_q_list := qs1, samp_y0_list := Some (ys @ [y0]),
                  samp_charges_list := Some (cs @ [charges]),
                  samp_masses_list := Some (ms @ [?masses s])\<rparr>"
    and y0: "length y0 = 6 * natoms (eq_geometry s)"
      "drop (3 * natoms (eq_geometry s)) y0 = replicate (3 * natoms (eq_geometry s)) 0"
    and charges: "if multi_channel s
            then \<exists>channels channel. channel_list s = Some channels \<and> channel \<in> set channels \<and>
                   charges = map (\<lambda>q. q * const_e) (ch_charges channel)
            else charges = replicate (natoms (eq_geometry s)) const_e"
    by auto
  have lists: "samp_y0_list s1 = Some (ys @ [y0])" "samp_charges_list s1 = Some (cs @ [charges])"
      "samp_masses_list s1 = Some (ms @ [?masses s])"
    and same: "eq_geometry s1 = eq_geometry s" "multi_channel s1 = multi_channel s"
      "channel_list s1 = channel_list s"
    by (simp_all add: s1)
  from Cons.IH [OF rest [unfolded p] lists] obtain ys' cs' ns qs where
    s': "s' = s1\<lparr>samp_n_list := ns, samp_q_list := qs, samp_y0_list := Some ((ys @ [y0]) @ ys'),
                  samp_charges_list := Some ((cs @ [charges]) @ cs'),
                  samp_masses_list := Some ((ms @ [?masses s]) @ replicate (length xs)
                    (?masses s1))\<rparr>"
    and lens: "length ys' = length xs" "length cs' = length xs"
    and entries: "\<forall>y0\<in>set ys'. length y0 = 6 * natoms (eq_geometry s1) \<and>
              drop (3 * natoms (eq_geometry s1)) y0 = replicate (3 * natoms (eq_geometry s1)) 0"
    and chs: "\<forall>charges\<in>set cs'.
              if multi_channel s1
              then \<exists>channels channel. channel_list s1 = Some channels \<and> channel \<in> set channels \<and>
                     charges = map (\<lambda>q. q * const_e) (ch_charges channel)
              else charges = replicate (natoms (eq_geometry s1)) const_e"
    by blast
  have eq: "s' = s\<lparr>samp_n_list := ns, samp_q_list := qs, samp_y0_list := Some (ys @ (y0 # ys')),
                  samp_charges_list := Some (cs @ (charges # cs')),
                  samp_masses_list := Some (ms @ replicate (length (x # xs)) (?masses s))\<rparr>"
    by (simp add: s' s1 replicate_append_same)
  have len1: "length (y0 # ys') = length (x # xs)"
    and len2: "length (charges # cs') = length (x # xs)"
    by (simp_all add: lens)
  have rest_ok: "\<forall>y\<in>set (y0 # ys'). length y = 6 * natoms (eq_geometry s) \<and>
              drop (3 * natoms (eq_geometry s)) y = replicate (3 * natoms (eq_geometry s)) 0"
    using entries y0 by (simp add: same)
  have charges_ok: "\<forall>c\<in>set (charges # cs').
              if multi_channel s
              then \<exists>channels channel. channel_list s = Some channels \<and> channel \<in> set channels \<and>
                     c = map (\<lambda>q. q * const_e) (ch_charges channel)
              else c = replicate (natoms (eq_geometry s)) const_e"
    using chs [unfolded same] charges by simp
  show ?case
    by (intro exI conjI) (rule eq, rule len1, rule len2, rule rest_ok, rule charges_ok)
qed

text \<open>The pool that a run of \<^verbatim>\<open>generate_pool\<close> leaves in the sampler.\<close>

lemma generate_pool_result:
  assumes "generate_pool self n_geoms method rr sigma w T nmax g = Some (Inr (self', g'))"
  shows "\<exists>ys cs.
           samp_y0_list self' = Some ys \<and> samp_charges_list self' = Some cs \<and>
           samp_masses_list self' = Some (replicate (nat n_geoms)
             (map (\<lambda>m. m * const_u) (atom_masses (eq_geometry self)))) \<and>
           samp_channel_list self' = Some [] \<and>
           length ys = nat n_geoms \<and> length cs = nat n_geoms \<and>
           (\<forall>y0\<in>set ys. length y0 = 6 * natoms (eq_geometry self) \<and>
              drop (3 * natoms (eq_geometry self)) y0
                = replicate (3 * natoms (eq_geometry self)) 0) \<and>
           (\<forall>charges\<in>set cs.
              if multi_channel self
              then \<exists>channels channel. channel_list self = Some channels \<and> channel \<in> set channels \<and>
                     charges = map (\<lambda>q. q * const_e) (ch_charges channel)
              else charges = replicate (natoms (eq_geometry self)) const_e)"
proof -
  from assms obtain s1 where
    init: "generate_pool_setup self n_geoms method rr sigma w T nmax = Inr s1"
    and loop: "foldR (\<lambda>i. sample_trajectory method rr w T) [0..<nat n_geoms] (s1, g)
                 = Some (Inr (self', g'))"
    unfolding generate_pool_def bindR_eq_Some_Inr by auto
  from generate_pool_setup_result [OF init] have
    s1: "multi_channel s1 = multi_channel self" "channel_list s1 = channel_list self"
      "samp_y0_list s1 = Some []" "samp_charges_list s1 = Some []"
      "samp_masses_list s1 = Some []" "samp_channel_list s1 = Some []"
      "natoms (eq_geometry s1) = natoms (eq_geometry self)"
      "atom_masses (eq_geometry s1) = atom_masses (eq_geometry self)"
    by simp_all
  from foldR_sample_trajectory_result [OF loop s1(3-5)] obtain ys cs ns qs where
    self': "self' = s1\<lparr>samp_n_list := ns, samp_q_list := qs, samp_y0_list := Some ([] @ ys),
                  samp_charges_list := Some ([] @ cs),
                  samp_masses_list := Some ([] @ replicate (length [0..<nat n_geoms])
                    (map (\<lambda>m. m * const_u) (atom_masses (eq_geometry s1))))\<rparr>"
    and lens: "length ys = length [0..<nat n_geoms]" "length cs = length [0..<nat n_geoms]"
    and entries: "\<forall>y0\<in>set ys. length y0 = 6 * natoms (eq_geometry s1) \<and>
              drop (3 * natoms (eq_geometry s1)) y0 = replicate (3 * natoms (eq_geometry s1)) 0"
    and chs: "\<forall>charges\<in>set cs.
              if multi_channel s1
              then \<exists>channels channel. channel_list s1 = Some channels \<and> channel \<in> set channels \<and>
                     charges = map (\<lambda>q. q * const_e) (ch_charges channel)
              else charges = replicate (natoms (eq_geometry s1)) const_e"
    by blast
  have stored: "samp_y0_list self' = Some ys" "samp_charges_list self' = Some cs"
    "samp_masses_list self' = Some (replicate (nat n_geoms)
             (map (\<lambda>m. m * const_u) (atom_masses (eq_geometry self))))"
    "samp_channel_list self' = Some []"
    by (simp_all add: self' s1)
  have counts: "length ys = nat n_geoms" "length cs = nat n_geoms"
    using lens by simp_all
  show ?thesis
    by (intro exI conjI)
      (rule stored(1), rule stored(2), rule stored(3), rule stored(4), rule counts(1),
       rule counts(2), rule entries [unfolded s1], rule chs [unfolded s1])
qed

subsection \<open>A run in the mode \<^verbatim>\<open>gaussian\<close> returns\<close>

lemma uniform_rng_next_unif: "uniform_rng g \<Longrightarrow> uniform_rng (snd (next_unif g))"
  by (simp add: uniform_rng_def next_unif_def)

lemma uniform_rng_next_gauss: "uniform_rng g \<Longrightarrow> uniform_rng (snd (next_gauss g))"
  by (simp add: uniform_rng_def next_gauss_def)

lemma uniform_rng_np_random_uniform:
  "uniform_rng g \<Longrightarrow> uniform_rng (snd (np_random_uniform low high g))"
  by (simp add: np_random_uniform_def case_prod_beta uniform_rng_next_unif)

lemma uniform_rng_random_rotation:
  "uniform_rng g \<Longrightarrow> uniform_rng (snd (random_rotation r_list g))"
  by (simp add: random_rotation_def RandRotationMatrix_def np_random_uniform3_def Let_def
      case_prod_beta uniform_rng_np_random_uniform)

lemma length_random_rotation: "length (fst (random_rotation r_list g)) = length r_list"
  by (simp add: random_rotation_def Let_def case_prod_beta)

lemma cumsum_length: "length (cumsum acc p) = length p"
  by (induction p arbitrary: acc) simp_all

lemma cumsum_last: "p \<noteq> [] \<Longrightarrow> last (cumsum acc p) = acc + sum_list p"
proof (induction p arbitrary: acc)
  case Nil
  then show ?case by simp
next
  case (Cons x p)
  show ?case
  proof (cases "p = []")
    case True
    then show ?thesis by simp
  next
    case False
    then have "cumsum (acc + x) p \<noteq> []"
      by (cases p) simp_all
    with Cons.IH [OF False, of "acc + x"] show ?thesis
      by simp
  qed
qed

lemma length_filter_last:
  assumes "xs \<noteq> []" and "\<not> P (last xs)"
  shows "length (filter P xs) < length xs"
proof -
  from assms(1) have "last xs \<in> set xs"
    by simp
  with assms(2) show ?thesis
    by (metis length_filter_less)
qed

text \<open>
  \<^verbatim>\<open>np.random.choice\<close> returns an element of the population when it accepts the weights
  and the variate it draws is less than one.
\<close>

lemma np_random_choice_returns:
  assumes "choice_accepts a p" and "uniform_rng g"
  shows "\<exists>v. np_random_choice a p g = Inr (v, snd (next_unif g))"
proof -
  from assms(1) have a: "a \<noteq> []" and len: "length p = length a"
    and nonneg: "\<not> list_ex (\<lambda>x. x < 0) p" and total: "\<not> \<bar>sum_list p - 1\<bar> > choice_atol"
    by (simp_all add: choice_accepts_def)
  from a len have p: "p \<noteq> []"
    by auto
  let ?cdf = "map (\<lambda>c. c / last (cumsum 0 p)) (cumsum 0 p)"
  let ?x = "fst (next_unif g)"
  have "choice_atol < 1"
    by (simp add: choice_atol_def)
  with total have pos: "0 < sum_list p"
    by linarith
  have cdf_ne: "?cdf \<noteq> []"
    using p by (cases p) simp_all
  then have "last ?cdf = last (cumsum 0 p) / last (cumsum 0 p)"
    by (simp add: last_map)
  also have "\<dots> = 1"
    using pos by (simp add: cumsum_last [OF p])
  finally have last: "last ?cdf = 1" .
  from assms(2) have "?x < 1"
    by (simp add: uniform_rng_def next_unif_def)
  with last have "\<not> last ?cdf \<le> ?x"
    by simp
  from length_filter_last [OF cdf_ne, of "\<lambda>c. c \<le> ?x", OF this]
  have "length (filter (\<lambda>c. c \<le> ?x) ?cdf) < length a"
    by (simp add: cumsum_length len)
  then show ?thesis
    using a len nonneg total
    by (simp add: np_random_choice_def Let_def case_prod_beta item_def bindE_def)
qed

text \<open>The charges and masses of a trajectory are always found without channels.\<close>

lemma assign_charges_returns:
  assumes "uniform_rng g"
    and "multi_channel s \<longrightarrow> (\<exists>channels p_list. channel_list s = Some channels \<and>
           channel_p_list s = Some p_list \<and> choice_accepts channels p_list)"
  shows "\<exists>charges masses g1. assign_charges s g = Inr (charges, masses, g1) \<and> uniform_rng g1"
proof (cases "multi_channel s")
  case True
  with assms(2) obtain channels p_list where
    ch: "channel_list s = Some channels" "channel_p_list s = Some p_list"
    and ok: "choice_accepts channels p_list"
    by blast
  from np_random_choice_returns [OF ok assms(1)] obtain v where
    "np_random_choice channels p_list g = Inr (v, snd (next_unif g))"
    by blast
  with True ch uniform_rng_next_unif [OF assms(1)] show ?thesis
    by (simp add: assign_charges_def bindE_def attr_def)
next
  case False
  with assms(1) show ?thesis
    by (simp add: assign_charges_def)
qed

text \<open>The loop over the atoms of the branch \<^verbatim>\<open>gaussian\<close>, for a width that is one number.\<close>

lemma gaussian_atom_returns:
  assumes "self_sigma s = Some (Array [x])" and "0 \<le> x"
    and "atom_coords_com (eq_geometry s) = Some coords" and "n < length coords"
    and "uniform_rng g"
  shows "\<exists>rs g'. gaussian_atom s n (r_list, g) = Inr (r_list @ [rs], g') \<and> uniform_rng g'"
proof -
  have blur: "blur_sigma_of s n = Inr x"
    by (simp add: blur_sigma_of_def assms(1) attr_def bindE_def item_def)
  obtain cx cy cz where c: "coords ! n = (cx, cy, cz)"
    by (metis prod_cases3)
  let ?g1 = "snd (next_gauss g)"
  let ?g2 = "snd (next_gauss ?g1)"
  let ?g3 = "snd (next_gauss ?g2)"
  have "uniform_rng ?g3"
    by (intro uniform_rng_next_gauss assms(5))
  moreover have "gaussian_atom s n (r_list, g)
      = Inr (r_list @ [((cx + (0 + x * fst (next_gauss g))) * (1 / 10 ^ 10),
                        (cy + (0 + x * fst (next_gauss ?g1))) * (1 / 10 ^ 10),
                        (cz + (0 + x * fst (next_gauss ?g2))) * (1 / 10 ^ 10))], ?g3)"
    using assms(2,4)
    by (simp add: gaussian_atom_def blur assms(3) attr_def bindE_def item_def c
        np_random_normal_def Let_def case_prod_beta)
  ultimately show ?thesis
    by blast
qed

lemma gaussian_loop_returns:
  assumes "self_sigma s = Some (Array [x])" and "0 \<le> x"
    and "atom_coords_com (eq_geometry s) = Some coords" and "m \<le> length coords"
    and "uniform_rng g"
  shows "\<exists>r_list g'. foldE (gaussian_atom s) [0..<m] ([], g) = Inr (r_list, g') \<and>
           length r_list = m \<and> uniform_rng g'"
  using assms(4)
proof (induction m)
  case 0
  with assms(5) show ?case by simp
next
  case (Suc m)
  then obtain r_list g1 where
    prev: "foldE (gaussian_atom s) [0..<m] ([], g) = Inr (r_list, g1)"
    and len: "length r_list = m" and g1: "uniform_rng g1"
    by auto
  from Suc.prems have "m < length coords"
    by simp
  from gaussian_atom_returns [OF assms(1-3) this g1, of r_list] obtain rs g' where
    "gaussian_atom s m (r_list, g1) = Inr (r_list @ [rs], g')" "uniform_rng g'"
    by blast
  with prev len show ?case
    by (simp add: foldE_upt_Suc bindE_def del: upt_Suc)
qed

lemma fill_y0_returns:
  assumes "n \<le> length r"
  shows "\<exists>y0. fill_y0 n r = Inr y0"
proof -
  have "\<exists>y0. foldE (\<lambda>n y0. bindE (item r n) (\<lambda>(x, y, z).
              Inr (y0[3 * n := x, 3 * n + 1 := y, 3 * n + 2 := z]))) [0..<m] y = Inr y0"
    if "m \<le> length r" for m y
    using that
  proof (induction m)
    case 0
    then show ?case by simp
  next
    case (Suc m)
    then obtain y1 where "foldE (\<lambda>n y0. bindE (item r n) (\<lambda>(x, y, z).
              Inr (y0[3 * n := x, 3 * n + 1 := y, 3 * n + 2 := z]))) [0..<m] y = Inr y1"
      by auto
    moreover obtain x1 x2 x3 where "r ! m = (x1, x2, x3)"
      by (metis prod_cases3)
    with Suc.prems have "item r m = Inr (x1, x2, x3)"
      by (simp add: item_def)
    ultimately show ?case
      by (simp add: foldE_upt_Suc bindE_Inr del: upt_Suc)
  qed
  from this [OF assms] show ?thesis
    by (simp add: fill_y0_def)
qed

text \<open>One pass of the loop over the trajectories in the mode \<^verbatim>\<open>gaussian\<close>.\<close>

lemma sample_trajectory_gaussian_returns:
  assumes sigma: "self_sigma s = Some (Array [x])" "0 \<le> x"
    and coords: "atom_coords_com (eq_geometry s) = Some coords"
      "natoms (eq_geometry s) = length coords"
    and lists: "samp_y0_list s = Some ys" "samp_charges_list s = Some cs"
      "samp_masses_list s = Some ms"
    and channels: "multi_channel s \<longrightarrow> (\<exists>channels p_list. channel_list s = Some channels \<and>
           channel_p_list s = Some p_list \<and> choice_accepts channels p_list)"
    and g: "uniform_rng g"
  shows "\<exists>s' g'. sample_trajectory ''gaussian'' rr w T (s, g) = Some (Inr (s', g')) \<and>
           uniform_rng g'"
proof -
  from assign_charges_returns [OF g channels] obtain charges masses g1 where
    assign: "assign_charges s g = Inr (charges, masses, g1)" and g1: "uniform_rng g1"
    by blast
  from gaussian_loop_returns [OF sigma coords(1) _ g1, of "natoms (eq_geometry s)"] coords(2)
  obtain r_list g2 where
    loop: "foldE (gaussian_atom s) [0..<natoms (eq_geometry s)] ([], g1) = Inr (r_list, g2)"
    and len: "length r_list = natoms (eq_geometry s)" and g2: "uniform_rng g2"
    by auto
  have pos: "trajectory_positions ''gaussian'' w T (s, g1) = Some (Inr (r_list, s, g2))"
    by (simp add: trajectory_positions_def loop bindE_def)
  let ?rot = "if rr then random_rotation r_list g2 else (r_list, g2)"
  have "length (fst ?rot) = natoms (eq_geometry s)"
    by (simp add: len length_random_rotation)
  then have "natoms (eq_geometry s) \<le> length (fst ?rot)"
    by simp
  from fill_y0_returns [OF this] obtain y0 where
    fill: "fill_y0 (natoms (eq_geometry s)) (fst ?rot) = Inr y0"
    by blast
  have g3: "uniform_rng (snd ?rot)"
    using g2 by (simp add: uniform_rng_random_rotation)
  have store: "store_trajectory s y0 charges masses
     = Inr (s\<lparr>samp_y0_list := Some (ys @ [y0]), samp_charges_list := Some (cs @ [charges]),
              samp_masses_list := Some (ms @ [masses])\<rparr>)"
    by (simp add: store_trajectory_def lists attr_def bindE_def)
  have "sample_trajectory ''gaussian'' rr w T (s, g)
     = Some (Inr (s\<lparr>samp_y0_list := Some (ys @ [y0]), samp_charges_list := Some (cs @ [charges]),
              samp_masses_list := Some (ms @ [masses])\<rparr>, snd ?rot))"
    using fill
    by (cases rr)
      (simp_all add: sample_trajectory_def assign pos store bindR_def Let_def case_prod_beta)
  with g3 show ?thesis
    by blast
qed

lemma foldR_sample_trajectory_gaussian_returns:
  assumes "self_sigma s = Some (Array [x])" and "0 \<le> x"
    and "atom_coords_com (eq_geometry s) = Some coords"
    and "natoms (eq_geometry s) = length coords"
    and "samp_y0_list s = Some ys" and "samp_charges_list s = Some cs"
    and "samp_masses_list s = Some ms"
    and "multi_channel s \<longrightarrow> (\<exists>channels p_list. channel_list s = Some channels \<and>
           channel_p_list s = Some p_list \<and> choice_accepts channels p_list)"
    and "uniform_rng g"
  shows "\<exists>s' g'. foldR (\<lambda>i. sample_trajectory ''gaussian'' rr w T) (xs :: nat list) (s, g)
           = Some (Inr (s', g'))"
  using assms
proof (induction xs arbitrary: s g ys cs ms)
  case Nil
  then show ?case by simp
next
  case (Cons i xs)
  from sample_trajectory_gaussian_returns [OF Cons.prems, of rr w T] obtain s1 g1 where
    first: "sample_trajectory ''gaussian'' rr w T (s, g) = Some (Inr (s1, g1))"
    and g1: "uniform_rng g1"
    by blast
  from sample_trajectory_result [OF first] Cons.prems(5-7) obtain y0 charges ns qs where
    s1: "s1 = s\<lparr>samp_n_list := ns, samp_q_list := qs, samp_y0_list := Some (ys @ [y0]),
                  samp_charges_list := Some (cs @ [charges]),
                  samp_masses_list :=
                    Some (ms @ [map (\<lambda>m. m * const_u) (atom_masses (eq_geometry s))])\<rparr>"
    by auto
  have "self_sigma s1 = Some (Array [x])" "atom_coords_com (eq_geometry s1) = Some coords"
    "natoms (eq_geometry s1) = length coords" "samp_y0_list s1 = Some (ys @ [y0])"
    "samp_charges_list s1 = Some (cs @ [charges])"
    "samp_masses_list s1 = Some (ms @ [map (\<lambda>m. m * const_u) (atom_masses (eq_geometry s))])"
    "multi_channel s1 \<longrightarrow> (\<exists>channels p_list. channel_list s1 = Some channels \<and>
           channel_p_list s1 = Some p_list \<and> choice_accepts channels p_list)"
    using Cons.prems(1,3,4,8) by (simp_all add: s1)
  from Cons.IH [OF this(1) Cons.prems(2) this(2-7) g1] obtain s' g' where
    "foldR (\<lambda>i. sample_trajectory ''gaussian'' rr w T) xs (s1, g1) = Some (Inr (s', g'))"
    by blast
  with first show ?case
    by (simp add: bindR_def)
qed

lemma generate_pool_setup_gaussian:
  assumes "atom_coords (eq_geometry self) \<noteq> []"
  shows "\<exists>s1 c. generate_pool_setup self n_geoms ''gaussian'' rr sigma w T nmax = Inr s1 \<and>
           self_sigma s1 = Some (sigma_to_array sigma) \<and>
           atom_coords_com (eq_geometry s1)
             = Some (map (\<lambda>r. vsub r c) (atom_coords (eq_geometry self)))"
proof -
  obtain c where c: "find_com (eq_geometry self) = (eq_geometry self)\<lparr>com := Some c\<rparr>"
    using find_com_result by blast
  let ?geom = "(eq_geometry self)\<lparr>com := Some c,
      atom_coords_com := Some (map (\<lambda>r. vsub r c) (atom_coords (eq_geometry self)))\<rparr>"
  from assms have com: "com_geometry (eq_geometry self) = Inr ?geom"
    by (simp add: com_geometry_def c Let_def bindE_def attr_def)
  let ?s1 = "self\<lparr>self_method := Some ''gaussian'', self_n_geoms := Some n_geoms,
      self_random_rotate := Some rr, self_T := Some T, self_wigner_sample_max := Some w,
      self_nmax := Some nmax, samp_y0_list := Some [], samp_charges_list := Some [],
      samp_masses_list := Some [], samp_channel_list := Some [], eq_geometry := ?geom,
      self_sigma := Some (sigma_to_array sigma)\<rparr>"
  have "generate_pool_setup self n_geoms ''gaussian'' rr sigma w T nmax = Inr ?s1"
    by (simp add: generate_pool_setup_def Let_def com bindE_def)
  moreover have "self_sigma ?s1 = Some (sigma_to_array sigma)"
    by simp
  moreover have "atom_coords_com (eq_geometry ?s1)
             = Some (map (\<lambda>r. vsub r c) (atom_coords (eq_geometry self)))"
    by simp
  ultimately show ?thesis
    by blast
qed

text \<open>
  \<^verbatim>\<open>generate_pool\<close> returns in the mode \<^verbatim>\<open>gaussian\<close> when the geometry has an atom, the
  width of the blur is one number that is not negative, and the channels, if there are
  any, are accepted by \<^verbatim>\<open>np.random.choice\<close>.
\<close>

lemma generate_pool_gaussian_returns:
  assumes atoms: "atom_coords (eq_geometry self) \<noteq> []"
      "natoms (eq_geometry self) = length (atom_coords (eq_geometry self))"
    and x: "0 \<le> x"
    and channels: "multi_channel self \<longrightarrow> (\<exists>channels p_list. channel_list self = Some channels \<and>
           channel_p_list self = Some p_list \<and> choice_accepts channels p_list)"
    and g: "uniform_rng g"
  shows "\<exists>self' g'. generate_pool self n_geoms ''gaussian'' rr (Number x) w T nmax g
           = Some (Inr (self', g'))"
proof -
  from generate_pool_setup_gaussian [OF atoms(1), of n_geoms rr "Number x" w T nmax]
  obtain s1 c where
    init: "generate_pool_setup self n_geoms ''gaussian'' rr (Number x) w T nmax = Inr s1"
    and sigma: "self_sigma s1 = Some (Array [x])"
    and coords: "atom_coords_com (eq_geometry s1)
             = Some (map (\<lambda>r. vsub r c) (atom_coords (eq_geometry self)))"
    by (auto simp: sigma_to_array_def)
  from generate_pool_setup_result [OF init] have
    s1: "multi_channel s1 = multi_channel self" "channel_list s1 = channel_list self"
      "channel_p_list s1 = channel_p_list self"
      "samp_y0_list s1 = Some []" "samp_charges_list s1 = Some []"
      "samp_masses_list s1 = Some []"
      "natoms (eq_geometry s1) = natoms (eq_geometry self)"
    by simp_all
  have len: "natoms (eq_geometry s1)
      = length (map (\<lambda>r. vsub r c) (atom_coords (eq_geometry self)))"
    by (simp add: s1 atoms(2))
  have ch: "multi_channel s1 \<longrightarrow> (\<exists>channels p_list. channel_list s1 = Some channels \<and>
           channel_p_list s1 = Some p_list \<and> choice_accepts channels p_list)"
    using channels by (simp add: s1)
  from foldR_sample_trajectory_gaussian_returns
    [OF sigma x coords len s1(4-6) ch g, of rr w T "[0..<nat n_geoms]"]
  obtain self' g' where
    "foldR (\<lambda>i. sample_trajectory ''gaussian'' rr w T) [0..<nat n_geoms] (s1, g)
       = Some (Inr (self', g'))"
    by blast
  then have "generate_pool self n_geoms ''gaussian'' rr (Number x) w T nmax g
           = Some (Inr (self', g'))"
    by (simp add: generate_pool_def init bindR_def)
  then show ?thesis
    by blast
qed

subsection \<open>Channels whose weights do not sum to one\<close>

lemma all_equal_replicate:
  assumes "\<forall>x\<in>set xs. x = a"
  shows "xs = replicate (length xs) a"
  using assms by (induction xs) simp_all

text \<open>
  C9: given channels whose weights differ from one by more than \<open>1/1000\<close>,
  \<^verbatim>\<open>set_channel_list\<close> prints the warning, raises nothing and returns the sampler as it
  was: a sampler without channels stays without channels, and a new sampler has no
  list of channels stored. A run of \<^verbatim>\<open>generate_pool\<close> that follows and returns has
  stored the charge \<open>e\<close> for every atom of every trajectory; and it does return in the
  mode \<^verbatim>\<open>gaussian\<close>, for a geometry with an atom, a width that is one number and not
  negative, and a generator whose uniform variates are in \<open>[0, 1)\<close>.
\<close>

theorem set_channel_list_fallback:
  assumes off: "\<bar>sum_list (map ch_p channels) - 1\<bar> > 1 / 1000"
    and single: "\<not> multi_channel self"
  shows "set_channel_list self channels = (self, [''Channel probabilities don't sum to 1!'']) \<and>
         multi_channel (fst (set_channel_list self channels)) = False \<and>
         channel_list (fst (set_channel_list (starting_conditions_init geom) channels)) = None \<and>
         (generate_pool (fst (set_channel_list self channels)) n_geoms mode rr sigma w T nmax g
            = Some (Inr (self', g')) \<longrightarrow>
          samp_charges_list self'
            = Some (replicate (nat n_geoms) (replicate (natoms (eq_geometry self)) const_e))) \<and>
         (atom_coords (eq_geometry self) \<noteq> [] \<and>
          natoms (eq_geometry self) = length (atom_coords (eq_geometry self)) \<and>
          0 \<le> x \<and> uniform_rng g \<longrightarrow>
          (\<exists>self' g'. generate_pool (fst (set_channel_list self channels)) n_geoms ''gaussian'' rr
             (Number x) w T nmax g = Some (Inr (self', g'))))"
proof -
  from off have same: "set_channel_list s channels = (s, [''Channel probabilities don't sum to 1!''])"
    for s
    by (simp add: set_channel_list_def Let_def)
  have fresh: "channel_list (fst (set_channel_list (starting_conditions_init geom) channels)) = None"
    by (simp add: same starting_conditions_init_def)
  have charges: "samp_charges_list self'
      = Some (replicate (nat n_geoms) (replicate (natoms (eq_geometry self)) const_e))"
    if run: "generate_pool self n_geoms mode rr sigma w T nmax g = Some (Inr (self', g'))"
  proof -
    from generate_pool_result [OF run] single obtain cs where
      cs: "samp_charges_list self' = Some cs" "length cs = nat n_geoms"
        "\<forall>charges\<in>set cs. charges = replicate (natoms (eq_geometry self)) const_e"
      by auto
    from all_equal_replicate [OF cs(3)] cs(1,2) show ?thesis
      by simp
  qed
  have returns: "\<exists>self' g'. generate_pool self n_geoms ''gaussian'' rr (Number x) w T nmax g
      = Some (Inr (self', g'))"
    if "atom_coords (eq_geometry self) \<noteq> []"
      "natoms (eq_geometry self) = length (atom_coords (eq_geometry self))"
      "0 \<le> x" "uniform_rng g"
    using generate_pool_gaussian_returns [OF that(1-3) _ that(4)] single by simp
  from same [of self] single fresh charges returns show ?thesis
    by simp
qed

theorem set_channel_list_fallback_witness:
  "set_channel_list (starting_conditions_init two_body_geometry)
     [\<lparr>ch_charges = [1, 1], ch_p = 1 / 2, ch_label = ''None''\<rparr>]
     = (starting_conditions_init two_body_geometry, [''Channel probabilities don't sum to 1!'']) \<and>
   (\<exists>self' g'. generate_pool (starting_conditions_init two_body_geometry) 2 ''gaussian'' True
        (Number (1 / 10)) 3 0 5 constant_rng = Some (Inr (self', g')) \<and>
      samp_charges_list self' = Some [[const_e, const_e], [const_e, const_e]])"
proof -
  let ?s = "starting_conditions_init two_body_geometry"
  let ?chs = "[\<lparr>ch_charges = [1, 1], ch_p = 1 / 2, ch_label = ''None''\<rparr>]"
  have off: "\<bar>sum_list (map ch_p ?chs) - 1\<bar> > 1 / 1000"
    by simp
  have single: "\<not> multi_channel ?s"
    by (simp add: starting_conditions_init_def)
  have g: "uniform_rng constant_rng"
    by (simp add: uniform_rng_def constant_rng_def)
  have atoms: "atom_coords (eq_geometry ?s) \<noteq> []"
      "natoms (eq_geometry ?s) = length (atom_coords (eq_geometry ?s))"
      "natoms (eq_geometry ?s) = 2"
    by (simp_all add: starting_conditions_init_def two_body_geometry_def)
  have same: "set_channel_list ?s ?chs = (?s, [''Channel probabilities don't sum to 1!''])"
    using set_channel_list_fallback [OF off single] by simp
  from set_channel_list_fallback [OF off single, where geom = two_body_geometry
      and n_geoms = 2 and mode = "''gaussian''" and rr = True and sigma = "Number (1 / 10)"
      and w = 3 and T = 0 and nmax = 5 and g = constant_rng and self' = "?s"
      and g' = constant_rng and x = "1 / 10"]
  have "\<exists>self' g'. generate_pool ?s 2 ''gaussian'' True (Number (1 / 10)) 3 0 5 constant_rng
            = Some (Inr (self', g'))"
    using atoms(1,2) g by (simp add: same)
  then obtain self' g' where
    run: "generate_pool ?s 2 ''gaussian'' True (Number (1 / 10)) 3 0 5 constant_rng
            = Some (Inr (self', g'))"
    by blast
  from set_channel_list_fallback [OF off single, where geom = two_body_geometry
      and n_geoms = 2 and mode = "''gaussian''" and rr = True and sigma = "Number (1 / 10)"
      and w = 3 and T = 0 and nmax = 5 and g = constant_rng and self' = self'
      and g' = g' and x = "1 / 10"] run
  have "samp_charges_list self' = Some (replicate (nat 2) (replicate 2 const_e))"
    by (simp add: same atoms(3))
  then have "samp_charges_list self' = Some [[const_e, const_e], [const_e, const_e]]"
    by (simp add: numeral_2_eq_2)
  with same run show ?thesis
    by blast
qed

subsection \<open>The entries of the pool\<close>

lemma two_channel_sampler_ready:
  "multi_channel two_channel_sampler \<and> channel_list two_channel_sampler = Some two_channels \<and>
   channel_p_list two_channel_sampler = Some [1 / 2, 1 / 2] \<and>
   eq_geometry two_channel_sampler = two_body_geometry \<and>
   choice_accepts two_channels [1 / 2, 1 / 2]"
  by (simp add: two_channel_sampler_def set_channel_list_def two_channels_def Let_def
      starting_conditions_init_def choice_accepts_def choice_atol_def)

text \<open>
  C2: after \<^verbatim>\<open>generate_pool\<close> has returned, the sampler holds one initial state, one
  vector of charges and one vector of masses for each of the \<open>n_geoms\<close> trajectories.
  An initial state has \<open>6 natoms\<close> entries, the second half of them zero; the charges are
  those of a channel of the list times \<open>e\<close>, or \<open>e\<close> for every atom when there are no
  channels; the masses are those of the geometry times \<open>u\<close>. The list
  \<^verbatim>\<open>samp_channel_list\<close>, which is to hold the channel of each trajectory, is empty: the
  loop over the trajectories has no \<^verbatim>\<open>append\<close> to it.
\<close>

theorem generate_pool_records_no_channel:
  assumes "generate_pool self n_geoms method rr sigma w T nmax g = Some (Inr (self', g'))"
  shows "samp_channel_list self' = Some [] \<and>
         (\<exists>ys cs.
            samp_y0_list self' = Some ys \<and> samp_charges_list self' = Some cs \<and>
            samp_masses_list self' = Some (replicate (nat n_geoms)
              (map (\<lambda>m. m * const_u) (atom_masses (eq_geometry self)))) \<and>
            length ys = nat n_geoms \<and> length cs = nat n_geoms \<and>
            (\<forall>y0\<in>set ys. length y0 = 6 * natoms (eq_geometry self) \<and>
               drop (3 * natoms (eq_geometry self)) y0
                 = replicate (3 * natoms (eq_geometry self)) 0) \<and>
            (\<forall>charges\<in>set cs.
               if multi_channel self
               then \<exists>channels channel. channel_list self = Some channels \<and>
                      channel \<in> set channels \<and>
                      charges = map (\<lambda>q. q * const_e) (ch_charges channel)
               else charges = replicate (natoms (eq_geometry self)) const_e))"
  using generate_pool_result [OF assms] by blast

theorem generate_pool_records_no_channel_witness:
  "\<exists>self' g' ys. generate_pool two_channel_sampler 2 ''gaussian'' True (Number (1 / 10)) 3 0 5
       constant_rng = Some (Inr (self', g')) \<and>
     samp_y0_list self' = Some ys \<and> length ys = 2 \<and> samp_channel_list self' = Some []"
proof -
  note ready = two_channel_sampler_ready
  have g: "uniform_rng constant_rng"
    by (simp add: uniform_rng_def constant_rng_def)
  have "atom_coords (eq_geometry two_channel_sampler) \<noteq> []"
    "natoms (eq_geometry two_channel_sampler)
       = length (atom_coords (eq_geometry two_channel_sampler))"
    "(0::real) \<le> 1 / 10"
    "multi_channel two_channel_sampler \<longrightarrow> (\<exists>channels p_list.
       channel_list two_channel_sampler = Some channels \<and>
       channel_p_list two_channel_sampler = Some p_list \<and> choice_accepts channels p_list)"
    using ready by (simp_all add: two_body_geometry_def)
  from generate_pool_gaussian_returns [OF this g, of 2 True 3 0 5] obtain self' g' where
    run: "generate_pool two_channel_sampler 2 ''gaussian'' True (Number (1 / 10)) 3 0 5
       constant_rng = Some (Inr (self', g'))"
    by blast
  from generate_pool_records_no_channel [OF run] obtain ys where
    "samp_channel_list self' = Some []" "samp_y0_list self' = Some ys" "length ys = nat 2"
    by blast
  with run show ?thesis
    by (intro exI [of _ self'] exI [of _ g'] exI [of _ ys]) simp
qed

subsection \<open>The level of a mode\<close>

text \<open>
  When a quantum of the mode is \<open>k\<close> times \<open>k\<^sub>B T ln 2\<close>, the population of level \<open>n\<close> is
  \<open>(1 - 2\<^sup>-\<^sup>k) 2\<^sup>-\<^sup>k\<^sup>n\<close>.
\<close>

lemma exp_ln2_multiple: "exp (- (real k * ln 2)) = (1 / 2) ^ k"
proof -
  have "exp (real k * ln 2) = exp (ln 2) ^ k"
    by (rule exp_of_nat_mult)
  then have "exp (real k * ln 2) = 2 ^ k"
    by simp
  then show ?thesis
    by (simp add: exp_minus power_one_over inverse_eq_divide)
qed

lemma calc_Pn_levels:
  assumes T: "T > 0" and k: "0 < k"
    and quantum: "hbar * (omega_cm * c_cm_s * 2 * pi) / (kb * T) = real k * ln 2"
  shows "calc_Pn omega_cm T (int n) = (1 - (1 / 2) ^ k) * (1 / 2) ^ (k * n)"
proof -
  let ?a = "real k * ln 2"
  let ?w = "omega_cm * c_cm_s * 2 * pi"
  have half: "- (hbar * ?w) / (2 * kb * T) = - ?a / 2"
    using quantum by (simp add: field_simps)
  have whole: "- (hbar * ?w) / (kb * T) = - ?a"
    using quantum by simp
  have level: "- (hbar * ?w * (real_of_int (int n) + 1 / 2)) / (kb * T) = - (real (k * n) * ln 2) + - ?a / 2"
  proof -
    have "- (hbar * ?w * (real_of_int (int n) + 1 / 2)) / (kb * T)
        = - ((hbar * ?w / (kb * T)) * (real n + 1 / 2))"
      by simp
    also have "\<dots> = - (?a * (real n + 1 / 2))"
      by (simp only: quantum)
    also have "\<dots> = - (real (k * n) * ln 2) + - ?a / 2"
      by (simp add: algebra_simps)
    finally show ?thesis .
  qed
  have "calc_Pn omega_cm T (int n)
      = exp (- (real (k * n) * ln 2) + - ?a / 2) / (exp (- ?a / 2) / (1 - exp (- ?a)))"
    using T unfolding calc_Pn_def calc_canonical_partition_def calc_vib_energy_def Let_def
    by (simp only: half whole level if_True)
  also have "\<dots> = exp (- (real (k * n) * ln 2)) * (1 - exp (- ?a))"
  proof -
    have "exp (X + Y) / (exp Y / Z) = exp X * Z" for X Y Z :: real
      by (simp add: exp_add)
    then show ?thesis .
  qed
  also have "\<dots> = (1 - (1 / 2) ^ k) * (1 / 2) ^ (k * n)"
    by (simp only: exp_ln2_multiple mult.commute)
  finally show ?thesis .
qed

lemma halving_temperature_positive: "halving_temperature > 0"
  by (simp add: halving_temperature_def hbar_def kb_def c_cm_s_def)

lemma halving_temperature_quantum:
  "hbar * (real k * 1000 * c_cm_s * 2 * pi) / (kb * halving_temperature) = real k * ln 2"
proof -
  have "hbar \<noteq> 0" "kb \<noteq> 0" "c_cm_s \<noteq> 0" "ln (2::real) \<noteq> 0"
    by (simp_all add: hbar_def kb_def c_cm_s_def)
  then show ?thesis
    by (simp add: halving_temperature_def field_simps)
qed

lemma populations_of_the_modes:
  "calc_Pn 1000 halving_temperature 0 = 1 / 2" "calc_Pn 1000 halving_temperature 1 = 1 / 4"
  "calc_Pn 2000 halving_temperature 0 = 3 / 4" "calc_Pn 2000 halving_temperature 1 = 3 / 16"
  using calc_Pn_levels [OF halving_temperature_positive _ halving_temperature_quantum [of 1], of 0]
    calc_Pn_levels [OF halving_temperature_positive _ halving_temperature_quantum [of 1], of 1]
    calc_Pn_levels [OF halving_temperature_positive _ halving_temperature_quantum [of 2], of 0]
    calc_Pn_levels [OF halving_temperature_positive _ halving_temperature_quantum [of 2], of 1]
  by (simp_all add: power2_eq_square)

lemma upt_2: "[0..<2] = [0, 1]"
  by (simp add: upt_rec)

lemma linear_setup:
  "\<exists>s. generate_pool_setup (starting_conditions_init linear_geometry) 1 ''wigner'' False
          (Number (1 / 10)) 3 halving_temperature 2 = Inr s \<and>
       multi_channel s = False \<and> natoms (eq_geometry s) = 3 \<and>
       atom_masses (eq_geometry s) = [1, 1, 1] \<and>
       atom_coords_com (eq_geometry s) = Some [(- 1, 0, 0), (0, 0, 0), (1, 0, 0)] \<and>
       nmodes_weighted (eq_geometry s)
         = Some [[(- 1 / sqrt 2, 0, 0), (0, 0, 0), (1 / sqrt 2, 0, 0)],
                 [(1 / sqrt 6, 0, 0), (- 2 / sqrt 6, 0, 0), (1 / sqrt 6, 0, 0)]] \<and>
       omegas (eq_geometry s) = Some [1000, 2000] \<and>
       n_list s = Some [0, 1] \<and> Pn_arr s = Some [[1 / 2, 1 / 4], [3 / 4, 3 / 16]] \<and>
       samp_n_list s = Some [] \<and> samp_q_list s = Some [] \<and> samp_y0_list s = Some [] \<and>
       samp_charges_list s = Some [] \<and> samp_masses_list s = Some []"
  by (simp add: generate_pool_setup_def check_wigner_inputs_def starting_conditions_init_def
      linear_geometry_def Let_def attr_def bindE_def nmodes_any_def omegas_any_def
      com_geometry_def find_com_def fill_populations_def fill_Pn_arr_def item_def
      halving_temperature_positive populations_of_the_modes upt_2 numeral_2_eq_2)

text \<open>The generator is the same again after four uniform variates.\<close>

lemma periodic_rng_draws:
  "fst (next_unif periodic_rng) = 7 / 10"
  "fst (next_unif (snd (next_unif periodic_rng))) = 0"
  "fst (next_unif (snd (next_unif (snd (next_unif periodic_rng))))) = 0"
  "fst (next_unif (snd (next_unif (snd (next_unif (snd (next_unif periodic_rng))))))) = 0"
  by (simp_all add: next_unif_def periodic_rng_def)

lemma periodic_rng_period:
  "snd (next_unif (snd (next_unif (snd (next_unif (snd (next_unif periodic_rng))))))) = periodic_rng"
proof -
  have "Suc (Suc (Suc (Suc i))) mod 4 = i mod 4" for i
    by presburger
  then show ?thesis
    by (simp add: next_unif_def periodic_rng_def)
qed

text \<open>
  With the populations of the first mode the variate \<open>7/10\<close> chooses level \<open>1\<close>, and with
  those of the second mode level \<open>0\<close>.
\<close>

lemma choice_of_the_modes:
  "np_random_choice [0, 1 :: int] (map (\<lambda>x. x / sum_list [1 / 2, 1 / 4]) [1 / 2, 1 / 4])
     periodic_rng = Inr (1, snd (next_unif periodic_rng))"
  "np_random_choice [0, 1 :: int] (map (\<lambda>x. x / sum_list [3 / 4, 3 / 16]) [3 / 4, 3 / 16])
     periodic_rng = Inr (0, snd (next_unif periodic_rng))"
  by (simp_all add: np_random_choice_def choice_atol_def Let_def case_prod_beta item_def
      bindE_def periodic_rng_draws)

lemma choose_n_periodic:
  assumes "T > 0" and "Pn_arr s = Some [[1 / 2, 1 / 4], [3 / 4, 3 / 16]]"
    and "n_list s = Some [0, 1]"
  shows "choose_n s T 0 periodic_rng = Inr (1, snd (next_unif periodic_rng))"
  using assms(1) choice_of_the_modes(1)
  by (simp add: choose_n_def assms(2,3) attr_def bindE_def item_def Let_def)

text \<open>The first draw of the rejection loop is accepted.\<close>

lemma wigner_while_periodic:
  "wigner_while 3 T nmode ff 1 (new_geom, s, snd (next_unif periodic_rng))
     = Some (wigner_accept T nmode ff 1 (- 3) (new_geom, s, periodic_rng))"
proof -
  have "calc_W (- 3) (- 3) 1 = 35 * exp (- 18)"
    by (simp add: calc_W_def Let_def)
  then have "calc_W (- 3) (- 3) 1 > 0"
    by simp
  then show ?thesis
    by (subst wigner_while.simps)
      (simp add: np_random_uniform_def Let_def case_prod_beta periodic_rng_draws
        periodic_rng_period)
qed

text \<open>An accepted draw moves every atom and is recorded.\<close>

lemma wigner_accept_returns:
  assumes "T > 0" and "samp_n_list s = Some ns" and "samp_q_list s = Some qs"
    and "natoms (eq_geometry s) \<le> length new_geom" and "natoms (eq_geometry s) \<le> length nmode"
    and "natoms (eq_geometry s) \<le> length (atom_masses (eq_geometry s))"
  shows "\<exists>geom'. wigner_accept T nmode ff n Q (new_geom, s, g)
           = Inr (geom', s\<lparr>samp_n_list := Some (ns @ [n]), samp_q_list := Some (qs @ [Q])\<rparr>, g) \<and>
           length geom' = length new_geom"
proof -
  let ?f = "\<lambda>i new_geom.
              bindE (item new_geom i) (\<lambda>r.
              bindE (item nmode i) (\<lambda>d.
              bindE (item (atom_masses (eq_geometry s)) i) (\<lambda>m.
                Inr (new_geom[i := vadd r
                       (smult (Q / ff * sqrt (1 / (m * u_to_amu)) * bohr_to_angstrom) d)]))))"
  have "\<exists>geom'. foldE ?f [0..<m] new_geom = Inr geom' \<and> length geom' = length new_geom"
    if "m \<le> natoms (eq_geometry s)" for m
    using that
  proof (induction m)
    case 0
    then show ?case by simp
  next
    case (Suc m)
    then obtain geom1 where
      prev: "foldE ?f [0..<m] new_geom = Inr geom1" and len: "length geom1 = length new_geom"
      by auto
    from Suc.prems assms(4-6) len have "m < length geom1" "m < length nmode"
        "m < length (atom_masses (eq_geometry s))"
      by simp_all
    then have "\<exists>geom'. ?f m geom1 = Inr geom' \<and> length geom' = length geom1"
      by (simp add: item_def bindE_def)
    with prev len show ?case
      by (auto simp add: foldE_upt_Suc bindE_Inr simp del: upt_Suc)
  qed
  from this [of "natoms (eq_geometry s)"] obtain geom' where
    "foldE ?f [0..<natoms (eq_geometry s)] new_geom = Inr geom'"
    "length geom' = length new_geom"
    by auto
  with assms(1-3) show ?thesis
    by (simp add: wigner_accept_def bindE_def attr_def)
qed

lemma wigner_mode_periodic:
  assumes "T > 0" and "Pn_arr s = Some [[1 / 2, 1 / 4], [3 / 4, 3 / 16]]"
    and "n_list s = Some [0, 1]"
    and "samp_n_list s = Some ns" and "samp_q_list s = Some qs"
    and "natoms (eq_geometry s) \<le> length new_geom" and "natoms (eq_geometry s) \<le> length nmode"
    and "natoms (eq_geometry s) \<le> length (atom_masses (eq_geometry s))"
  shows "\<exists>geom'. wigner_mode 3 T 0 (nmode, omega) (new_geom, s, periodic_rng)
           = Some (Inr (geom', s\<lparr>samp_n_list := Some (ns @ [1]),
                                  samp_q_list := Some (qs @ [- 3])\<rparr>, periodic_rng)) \<and>
           length geom' = length new_geom"
proof -
  from wigner_accept_returns [OF assms(1,4-8), of "sqrt (omega * cm_to_hartree)" 1 "- 3"
      periodic_rng]
  obtain geom' where
    "wigner_accept T nmode (sqrt (omega * cm_to_hartree)) 1 (- 3) (new_geom, s, periodic_rng)
       = Inr (geom', s\<lparr>samp_n_list := Some (ns @ [1]), samp_q_list := Some (qs @ [- 3])\<rparr>,
              periodic_rng)"
    "length geom' = length new_geom"
    by blast
  then show ?thesis
    by (simp add: wigner_mode_def Let_def choose_n_periodic [OF assms(1-3)] bindR_def
        wigner_while_periodic)
qed

lemma mapE_all_Inr:
  assumes "\<And>x. x \<in> set xs \<Longrightarrow> f x = Inr (h x)"
  shows "mapE f xs = Inr (map h xs)"
  using assms by (induction xs) (simp_all add: bindE_def)

text \<open>
  One trajectory of the linear molecule: the level that is stored for the second mode
  is the one that the populations of the first mode choose.
\<close>

lemma sample_trajectory_linear:
  assumes s: "multi_channel s = False" "natoms (eq_geometry s) = 3"
      "atom_masses (eq_geometry s) = [1, 1, 1]"
      "atom_coords_com (eq_geometry s) = Some [(- 1, 0, 0), (0, 0, 0), (1, 0, 0)]"
      "nmodes_weighted (eq_geometry s) = Some [m1, m2]"
      "omegas (eq_geometry s) = Some [1000, 2000]"
    and modes3: "length m1 = 3" "length m2 = 3"
    and levels: "n_list s = Some [0, 1]" "Pn_arr s = Some [[1 / 2, 1 / 4], [3 / 4, 3 / 16]]"
    and lists: "samp_n_list s = Some []" "samp_q_list s = Some []" "samp_y0_list s = Some []"
      "samp_charges_list s = Some []" "samp_masses_list s = Some []"
  shows "\<exists>s'. sample_trajectory ''wigner'' False 3 halving_temperature (s, periodic_rng)
           = Some (Inr (s', periodic_rng)) \<and>
           samp_n_list s' = Some [1, 1] \<and> Pn_arr s' = Some [[1 / 2, 1 / 4], [3 / 4, 3 / 16]]"
proof -
  let ?T = halving_temperature
  let ?m1 = m1
  let ?m2 = m2
  let ?coords = "[(- 1, 0, 0), (0, 0, 0), (1, 0, 0)] :: vec3 list"
  let ?s1 = "s\<lparr>samp_n_list := Some ([] @ [1]), samp_q_list := Some ([] @ [- 3])\<rparr>"
  let ?s2 = "?s1\<lparr>samp_n_list := Some (([] @ [1]) @ [1]),
                   samp_q_list := Some (([] @ [- 3]) @ [- 3])\<rparr>"
  from wigner_mode_periodic [OF halving_temperature_positive levels(2,1) lists(1,2),
      of ?coords ?m1 1000]
  obtain geom1 where
    first: "wigner_mode 3 ?T 0 (?m1, 1000) (?coords, s, periodic_rng)
              = Some (Inr (geom1, ?s1, periodic_rng))"
    and len1: "length geom1 = 3"
    by (auto simp: s modes3)
  have "Pn_arr ?s1 = Some [[1 / 2, 1 / 4], [3 / 4, 3 / 16]]" "n_list ?s1 = Some [0, 1]"
    "samp_n_list ?s1 = Some ([] @ [1])" "samp_q_list ?s1 = Some ([] @ [- 3])"
    by (simp_all add: levels)
  from wigner_mode_periodic [OF halving_temperature_positive this, of geom1 ?m2 2000]
  obtain geom2 where
    second: "wigner_mode 3 ?T 0 (?m2, 2000) (geom1, ?s1, periodic_rng)
              = Some (Inr (geom2, ?s2, periodic_rng))"
    and len2: "length geom2 = 3"
    by (auto simp: s len1 modes3)
  have modes: "foldR (wigner_mode 3 ?T 0) [(?m1, 1000), (?m2, 2000)] (?coords, s, periodic_rng)
      = Some (Inr (geom2, ?s2, periodic_rng))"
    by (simp only: foldR.simps first second bindR_def option.simps sum.simps)
  have atoms: "natoms (eq_geometry ?s2) = 3"
    by (simp add: s)
  have "mapE (\<lambda>n. bindE (item geom2 n) (\<lambda>r. Inr (smult (1 / 10 ^ 10) r))) [0..<3]
      = Inr (map (\<lambda>n. smult (1 / 10 ^ 10) (geom2 ! n)) [0..<3])"
    by (rule mapE_all_Inr) (simp add: item_def len2 bindE_def)
  then have "trajectory_positions ''wigner'' 3 ?T (s, periodic_rng)
      = Some (Inr (map (\<lambda>n. smult (1 / 10 ^ 10) (geom2 ! n)) [0..<3], ?s2, periodic_rng))"
    unfolding trajectory_positions_def
    by (simp add: s attr_def bindR_def Let_def modes atoms del: upt_Suc foldR.simps)
  moreover have "length (map (\<lambda>n. smult (1 / 10 ^ 10) (geom2 ! n)) [0..<3]) = 3"
    by simp
  ultimately obtain r_list where
    positions: "trajectory_positions ''wigner'' 3 ?T (s, periodic_rng)
      = Some (Inr (r_list, ?s2, periodic_rng))"
    and len3: "length r_list = 3"
    by blast
  from len3 have "3 \<le> length r_list"
    by simp
  from fill_y0_returns [OF this] obtain y0 where y0: "fill_y0 3 r_list = Inr y0"
    by blast
  let ?charges = "map (\<lambda>q. q * const_e) (replicate 3 1)"
  let ?masses = "map (\<lambda>m. m * const_u) [1, 1, 1]"
  let ?s3 = "?s2\<lparr>samp_y0_list := Some ([] @ [y0]), samp_charges_list := Some ([] @ [?charges]),
                   samp_masses_list := Some ([] @ [?masses])\<rparr>"
  have assign: "assign_charges s periodic_rng = Inr (?charges, ?masses, periodic_rng)"
    by (simp add: assign_charges_def s)
  have "sample_trajectory ''wigner'' False 3 ?T (s, periodic_rng) = Some (Inr (?s3, periodic_rng))"
    unfolding sample_trajectory_def
    by (simp add: assign positions bindR_def Let_def s y0 store_trajectory_def lists attr_def
        bindE_def del: upt_Suc)
  moreover have "samp_n_list ?s3 = Some [1, 1]" "Pn_arr ?s3 = Some [[1 / 2, 1 / 4], [3 / 4, 3 / 16]]"
    by (simp_all add: levels)
  ultimately show ?thesis
    by blast
qed

lemma generate_pool_linear:
  "\<exists>self'. generate_pool (starting_conditions_init linear_geometry) 1 ''wigner'' False
       (Number (1 / 10)) 3 halving_temperature 2 periodic_rng = Some (Inr (self', periodic_rng)) \<and>
     samp_n_list self' = Some [1, 1] \<and> Pn_arr self' = Some [[1 / 2, 1 / 4], [3 / 4, 3 / 16]]"
proof -
  from linear_setup obtain s where
    init: "generate_pool_setup (starting_conditions_init linear_geometry) 1 ''wigner'' False
          (Number (1 / 10)) 3 halving_temperature 2 = Inr s"
    and s: "multi_channel s = False" "natoms (eq_geometry s) = 3"
      "atom_masses (eq_geometry s) = [1, 1, 1]"
      "atom_coords_com (eq_geometry s) = Some [(- 1, 0, 0), (0, 0, 0), (1, 0, 0)]"
      "nmodes_weighted (eq_geometry s)
         = Some [[(- 1 / sqrt 2, 0, 0), (0, 0, 0), (1 / sqrt 2, 0, 0)],
                 [(1 / sqrt 6, 0, 0), (- 2 / sqrt 6, 0, 0), (1 / sqrt 6, 0, 0)]]"
      "omegas (eq_geometry s) = Some [1000, 2000]"
    and rest: "n_list s = Some [0, 1]" "Pn_arr s = Some [[1 / 2, 1 / 4], [3 / 4, 3 / 16]]"
      "samp_n_list s = Some []" "samp_q_list s = Some []" "samp_y0_list s = Some []"
      "samp_charges_list s = Some []" "samp_masses_list s = Some []"
    by blast
  have "length [(- 1 / sqrt 2, 0, 0), (0, 0, 0), (1 / sqrt 2, 0 :: real, 0 :: real)] = 3"
    "length [(1 / sqrt 6, 0, 0), (- 2 / sqrt 6, 0, 0), (1 / sqrt 6, 0 :: real, 0 :: real)] = 3"
    by simp_all
  from sample_trajectory_linear [OF s this rest] obtain s' where
    "sample_trajectory ''wigner'' False 3 halving_temperature (s, periodic_rng)
           = Some (Inr (s', periodic_rng))"
    "samp_n_list s' = Some [1, 1]" "Pn_arr s' = Some [[1 / 2, 1 / 4], [3 / 4, 3 / 16]]"
    by blast
  then show ?thesis
    by (simp add: generate_pool_def init bindR_def)
qed

text \<open>
  C7: the level of a mode is drawn with the populations in row \<open>mode_counter\<close> of
  \<^verbatim>\<open>Pn_arr\<close>, and \<open>mode_counter\<close> is zero for every mode. For the linear molecule at the
  temperature at which the populations of the first mode are \<open>1/2\<close> and \<open>1/4\<close> and those of
  the second mode \<open>3/4\<close> and \<open>3/16\<close>, with two levels and the generator of period four, the
  run stores level \<open>1\<close> for both modes. The variate that chooses the level is \<open>7/10\<close> for
  each mode; with the populations of the second mode, renormalised to \<open>4/5\<close> and \<open>1/5\<close>,
  it chooses level \<open>0\<close>.
\<close>

theorem level_of_second_mode:
  "\<exists>self'. generate_pool (starting_conditions_init linear_geometry) 1 ''wigner'' False
       (Number (1 / 10)) 3 halving_temperature 2 periodic_rng = Some (Inr (self', periodic_rng)) \<and>
     Pn_arr self'
       = Some [[calc_Pn 1000 halving_temperature 0, calc_Pn 1000 halving_temperature 1],
               [calc_Pn 2000 halving_temperature 0, calc_Pn 2000 halving_temperature 1]] \<and>
     samp_n_list self' = Some [1, 1] \<and>
     np_random_choice [0, 1 :: int]
       (let Pn = [calc_Pn 2000 halving_temperature 0, calc_Pn 2000 halving_temperature 1]
        in map (\<lambda>x. x / sum_list Pn) Pn) periodic_rng
       = Inr (0, snd (next_unif periodic_rng))"
proof -
  from generate_pool_linear obtain self' where
    "generate_pool (starting_conditions_init linear_geometry) 1 ''wigner'' False
       (Number (1 / 10)) 3 halving_temperature 2 periodic_rng = Some (Inr (self', periodic_rng))"
    "samp_n_list self' = Some [1, 1]" "Pn_arr self' = Some [[1 / 2, 1 / 4], [3 / 4, 3 / 16]]"
    by blast
  moreover have "np_random_choice [0, 1 :: int]
       (let Pn = [calc_Pn 2000 halving_temperature 0, calc_Pn 2000 halving_temperature 1]
        in map (\<lambda>x. x / sum_list Pn) Pn) periodic_rng
       = Inr (0, snd (next_unif periodic_rng))"
    unfolding populations_of_the_modes Let_def by (rule choice_of_the_modes(2))
  ultimately show ?thesis
    by (simp add: populations_of_the_modes)
qed

end
